theory Spec2Isabelle
  imports Complex_Main
begin

section \<open>JavaScript numbers\<close>

text \<open>
  The editor's numbers are JavaScript doubles.  A finite double is modelled as the real
  number it denotes.  Comparison, \<open>Math.min\<close>, \<open>Math.max\<close>, \<open>Math.abs\<close>, \<open>Math.floor\<close>,
  \<open>Math.round\<close> and \<open>%\<close> are exact on finite doubles.  The results of \<open>+\<close>, \<open>-\<close>, \<open>*\<close> and
  \<open>/\<close> are rounded to the nearest double: the 360 detection, the custom views and the
  analysis drivers, where a comparison or a count hangs on the last bit, apply \<open>fl\<close> after
  each of these operations; the sharpness score and the selection are kept over exact
  reals, what is proved of them (sign, finiteness, comparison with a threshold) being the
  same in both.  Where the code can produce a non-finite value from finite inputs, by
  dividing by zero, the value is a \<open>jsnum\<close>: a finite number, \<open>Infinity\<close> or \<open>NaN\<close>.
\<close>

subsection \<open>Rounding to the nearest double\<close>

text \<open>Rounding to the nearest integer, a tie going to the even one.\<close>

definition round_even :: "real \<Rightarrow> int" where
  "round_even x =
     (let n = \<lfloor>x\<rfloor>
      in if x - of_int n < 1 / 2 then n
         else if 1 / 2 < x - of_int n then n + 1
         else if even n then n else n + 1)"

text \<open>The binary exponent of \<open>x > 0\<close>: the \<open>e\<close> with \<open>2\<^sup>e \<le> x < 2\<^sup>e\<^sup>+\<^sup>1\<close>.\<close>

function expo :: "real \<Rightarrow> int" where
  "expo x = (if x \<le> 0 then 0
             else if 2 \<le> x then expo (x / 2) + 1
             else if x < 1 then expo (2 * x) - 1
             else 0)"
  by pat_completeness auto
termination
proof (relation "measure (\<lambda>x. nat (2 * \<lceil>1 / x\<rceil> + \<lfloor>x\<rfloor>))")
  show "wf (measure (\<lambda>x :: real. nat (2 * \<lceil>1 / x\<rceil> + \<lfloor>x\<rfloor>)))"
    by simp
next
  fix x :: real
  assume a: "\<not> x \<le> 0" "2 \<le> x"
  have c1: "\<lceil>1 / (x / 2)\<rceil> = 1"
    using a by (simp add: ceiling_eq_iff)
  have c2: "\<lceil>1 / x\<rceil> = 1"
    using a by (simp add: ceiling_eq_iff field_simps)
  have "x / 2 \<le> x - 1" using a by simp
  then have "\<lfloor>x / 2\<rfloor> \<le> \<lfloor>x - 1\<rfloor>" by (rule floor_mono)
  then have f: "\<lfloor>x / 2\<rfloor> < \<lfloor>x\<rfloor>" by simp
  have "0 \<le> \<lfloor>x / 2\<rfloor>" using a by simp
  then show "(x / 2, x) \<in> measure (\<lambda>x. nat (2 * \<lceil>1 / x\<rceil> + \<lfloor>x\<rfloor>))"
    using f unfolding in_measure c1 c2 by linarith
next
  fix x :: real
  assume a: "\<not> x \<le> 0" "\<not> 2 \<le> x" "x < 1"
  have f0: "\<lfloor>x\<rfloor> = 0" using a by (simp add: floor_eq_iff)
  have f1: "\<lfloor>2 * x\<rfloor> \<le> 1" "0 \<le> \<lfloor>2 * x\<rfloor>" using a by (simp_all add: floor_le_iff)
  have y: "1 < 1 / x" using a by simp
  then have c2: "2 \<le> \<lceil>1 / x\<rceil>" by linarith
  have "1 / x \<le> of_int \<lceil>1 / x\<rceil>" by simp
  then have "1 / (2 * x) \<le> of_int \<lceil>1 / x\<rceil> / 2" by simp
  also have "\<dots> \<le> of_int (\<lceil>1 / x\<rceil> - 1)"
    using c2 by simp
  finally have "\<lceil>1 / (2 * x)\<rceil> \<le> \<lceil>1 / x\<rceil> - 1"
    by (rule ceiling_le)
  then show "(2 * x, x) \<in> measure (\<lambda>x. nat (2 * \<lceil>1 / x\<rceil> + \<lfloor>x\<rfloor>))"
    using f0 f1 c2 unfolding in_measure by linarith
qed

declare expo.simps [simp del]

text \<open>
  \<open>fl x\<close> is \<open>x\<close> rounded to 53 significant bits, to the nearest, a tie going to the even
  significand: the rounding of IEEE 754 binary64 that JavaScript applies to the exact
  result of every arithmetic operation.  The exponent range is not bounded here (no
  overflow to \<open>Infinity\<close>, no gradual underflow), so \<open>fl\<close> is the rounding of the machine for
  results of magnitude between \<open>2\<^sup>-\<^sup>1\<^sup>0\<^sup>2\<^sup>2\<close> and \<open>2\<^sup>1\<^sup>0\<^sup>2\<^sup>4\<close>, and for \<open>0\<close>.
\<close>

definition fl :: "real \<Rightarrow> real" where
  "fl x = (if x = 0 then 0
           else of_int (round_even (x / 2 powi (expo \<bar>x\<bar> - 52))) * 2 powi (expo \<bar>x\<bar> - 52))"

subsection \<open>Operations\<close>

datatype jsnum = Num real | PosInf | NaN

text \<open>
  \<open>a / b\<close>.  The code divides by zero only with a dividend \<open>a \<ge> 0\<close>, so \<open>-Infinity\<close> is left
  out.  \<open>js_div\<close> is the exact quotient, \<open>fl_div\<close> the rounded one.
\<close>

definition js_div :: "real \<Rightarrow> real \<Rightarrow> jsnum" where
  "js_div a b = (if b = 0 then (if a = 0 then NaN else PosInf) else Num (a / b))"

definition fl_div :: "real \<Rightarrow> real \<Rightarrow> jsnum" where
  "fl_div a b = (if b = 0 then (if a = 0 then NaN else PosInf) else Num (fl (a / b)))"

text \<open>\<open>Math.max\<close> and \<open>Math.min\<close>: \<open>NaN\<close> if either argument is \<open>NaN\<close>.\<close>

fun js_max :: "jsnum \<Rightarrow> jsnum \<Rightarrow> jsnum" where
  "js_max NaN _ = NaN"
| "js_max _ NaN = NaN"
| "js_max PosInf _ = PosInf"
| "js_max _ PosInf = PosInf"
| "js_max (Num a) (Num b) = Num (max a b)"

fun js_min :: "jsnum \<Rightarrow> jsnum \<Rightarrow> jsnum" where
  "js_min NaN _ = NaN"
| "js_min _ NaN = NaN"
| "js_min PosInf b = b"
| "js_min a PosInf = a"
| "js_min (Num a) (Num b) = Num (min a b)"

text \<open>\<open>a >= b\<close>: every comparison with \<open>NaN\<close> is false.\<close>

fun js_ge :: "jsnum \<Rightarrow> jsnum \<Rightarrow> bool" where
  "js_ge NaN _ = False"
| "js_ge _ NaN = False"
| "js_ge PosInf _ = True"
| "js_ge (Num a) PosInf = False"
| "js_ge (Num a) (Num b) = (a \<ge> b)"

fun js_lt :: "jsnum \<Rightarrow> jsnum \<Rightarrow> bool" where
  "js_lt NaN _ = False"
| "js_lt _ NaN = False"
| "js_lt PosInf _ = False"
| "js_lt (Num a) PosInf = True"
| "js_lt (Num a) (Num b) = (a < b)"

fun js_le :: "jsnum \<Rightarrow> jsnum \<Rightarrow> bool" where
  "js_le NaN _ = False"
| "js_le _ NaN = False"
| "js_le PosInf PosInf = True"
| "js_le PosInf (Num b) = False"
| "js_le (Num a) PosInf = True"
| "js_le (Num a) (Num b) = (a \<le> b)"

text \<open>\<open>Math.abs(a - c)\<close> for a finite \<open>c\<close>; the difference is rounded.\<close>

fun fl_abs_diff :: "jsnum \<Rightarrow> real \<Rightarrow> jsnum" where
  "fl_abs_diff (Num a) c = Num \<bar>fl (a - c)\<bar>"
| "fl_abs_diff PosInf c = PosInf"
| "fl_abs_diff NaN c = NaN"

text \<open>\<open>x || 1\<close> on a number: \<open>0\<close> and \<open>NaN\<close> are falsy.\<close>

fun js_or_one :: "jsnum \<Rightarrow> jsnum" where
  "js_or_one NaN = Num 1"
| "js_or_one PosInf = PosInf"
| "js_or_one (Num a) = (if a = 0 then Num 1 else Num a)"

text \<open>\<open>Math.round\<close> rounds half up; \<open>Math.round(Infinity)\<close> is \<open>Infinity\<close>.\<close>

definition js_round :: "real \<Rightarrow> int" where
  "js_round x = \<lfloor>x + 1 / 2\<rfloor>"

fun js_round_num :: "jsnum \<Rightarrow> jsnum" where
  "js_round_num (Num a) = Num (of_int (js_round a))"
| "js_round_num PosInf = PosInf"
| "js_round_num NaN = NaN"

text \<open>\<open>a * 100\<close>, rounded.\<close>

fun fl_times100 :: "jsnum \<Rightarrow> jsnum" where
  "fl_times100 (Num a) = Num (fl (a * 100))"
| "fl_times100 PosInf = PosInf"
| "fl_times100 NaN = NaN"

text \<open>
  The remainder operator \<open>a % b\<close> on finite numbers, \<open>b \<noteq> 0\<close>: the quotient is
  truncated towards zero, so the result has the sign of \<open>a\<close>.  The remainder of two
  doubles is a double, so there is nothing to round.
\<close>

definition js_trunc :: "real \<Rightarrow> int" where
  "js_trunc x = (if 0 \<le> x then \<lfloor>x\<rfloor> else \<lceil>x\<rceil>)"

definition js_rem :: "real \<Rightarrow> real \<Rightarrow> real" where
  "js_rem a b = a - b * of_int (js_trunc (a / b))"

section \<open>Data model (hooks/useEditor, hooks/useEditor360)\<close>

record FrameData =
  time :: real
  variance :: jsnum

datatype RangeAction = exclude | mask_generation | highlight

text \<open>
  \<open>TimelineRange\<close>; \<open>action\<close> is a \<open>RangeAction\<close> or \<open>null\<close>, \<open>maskPrompt\<close> is
  optional.
\<close>

record TimelineRange =
  range_id :: string
  start :: real
  end_time :: real
  action :: "RangeAction option"
  maskPrompt :: "string option"

text \<open>
  \<open>Partial<Omit<TimelineRange, 'id'>>\<close>: \<open>None\<close> is an absent key.  A present
  \<open>maskPrompt\<close> may hold \<open>undefined\<close> (the timeline passes
  \<open>{ maskPrompt: undefined }\<close>), which overwrites the field.
\<close>

record RangeUpdates =
  upd_start :: "real option"
  upd_end :: "real option"
  upd_action :: "RangeAction option option"
  upd_maskPrompt :: "string option option"

text \<open>The object spread \<open>{ ...range, ...updates }\<close>.\<close>

definition merge_range :: "TimelineRange \<Rightarrow> RangeUpdates \<Rightarrow> TimelineRange" where
  "merge_range r u =
     r\<lparr> start := (case upd_start u of None \<Rightarrow> start r | Some s \<Rightarrow> s),
        end_time := (case upd_end u of None \<Rightarrow> end_time r | Some e \<Rightarrow> e),
        action := (case upd_action u of None \<Rightarrow> action r | Some a \<Rightarrow> a),
        maskPrompt := (case upd_maskPrompt u of None \<Rightarrow> maskPrompt r | Some p \<Rightarrow> p) \<rparr>"

text \<open>
  The planar editor's state (\<open>EditorState\<close>).  The HDR probe fields and the file
  name are left out: no operation modelled here reads or writes them.
\<close>

record EditorState =
  videoDuration :: real
  isPlaying :: bool
  currentTime :: real
  ranges :: "TimelineRange list"
  selectedRangeId :: "string option"
  isProcessing :: bool
  progress :: jsnum
  frameData :: "FrameData list"
  fps :: real
  threshold :: real

subsection \<open>Playback cursor\<close>

definition seek :: "real \<Rightarrow> EditorState \<Rightarrow> EditorState" where
  "seek t prev = prev\<lparr> currentTime := max 0 (min t (videoDuration prev)) \<rparr>"

subsection \<open>Range management of the planar editor\<close>

text \<open>
  \<open>addRange\<close>.  The fresh id comes from the clock and the random generator
  (\<open>generateRangeId\<close>); it is a parameter here.  The function returns the id.
\<close>

definition newRange :: "string \<Rightarrow> real \<Rightarrow> real \<Rightarrow> RangeAction option \<Rightarrow> TimelineRange" where
  "newRange rid s e a =
     \<lparr> range_id = rid, start = min s e, end_time = max s e, action = a, maskPrompt = None \<rparr>"

definition addRange ::
  "string \<Rightarrow> real \<Rightarrow> real \<Rightarrow> RangeAction option \<Rightarrow> EditorState \<Rightarrow> string \<times> EditorState" where
  "addRange rid s e a prev =
     (rid, prev\<lparr> ranges := ranges prev @ [newRange rid s e a], selectedRangeId := Some rid \<rparr>)"

definition updateRange :: "string \<Rightarrow> RangeUpdates \<Rightarrow> EditorState \<Rightarrow> EditorState" where
  "updateRange rid u prev =
     prev\<lparr> ranges := map (\<lambda>r. if range_id r = rid then merge_range r u else r) (ranges prev) \<rparr>"

definition removeRange :: "string \<Rightarrow> EditorState \<Rightarrow> EditorState" where
  "removeRange rid prev =
     prev\<lparr> ranges := filter (\<lambda>r. range_id r \<noteq> rid) (ranges prev),
           selectedRangeId := (if selectedRangeId prev = Some rid then None else selectedRangeId prev) \<rparr>"

definition setRangeAction :: "string \<Rightarrow> RangeAction option \<Rightarrow> EditorState \<Rightarrow> EditorState" where
  "setRangeAction rid a prev =
     prev\<lparr> ranges := map (\<lambda>r. if range_id r = rid then r\<lparr> action := a \<rparr> else r) (ranges prev) \<rparr>"

definition clearAllRanges :: "EditorState \<Rightarrow> EditorState" where
  "clearAllRanges prev = prev\<lparr> ranges := [], selectedRangeId := None \<rparr>"

text \<open>The data model's invariant on a list of ranges.\<close>

definition ranges_ordered :: "TimelineRange list \<Rightarrow> bool" where
  "ranges_ordered rs = list_all (\<lambda>r. start r \<le> end_time r) rs"

section \<open>Selection model\<close>

subsection \<open>Planar editor (editor page and timeline)\<close>

text \<open>
  \<open>frameData.reduce((max, item) => Math.max(max, item.variance), 0) || 1\<close>, as the
  editor page, the timeline and the 360 timeline all compute it.
\<close>

definition maxVariance :: "FrameData list \<Rightarrow> jsnum" where
  "maxVariance fd = js_or_one (foldl (\<lambda>mx item. js_max mx (variance item)) (Num 0) fd)"

definition effectiveThreshold :: "real \<Rightarrow> FrameData list \<Rightarrow> jsnum" where
  "effectiveThreshold thr fd = js_min (Num thr) (maxVariance fd)"

definition framesAboveThreshold :: "EditorState \<Rightarrow> nat" where
  "framesAboveThreshold st =
     length (filter (\<lambda>f. js_ge (variance f) (effectiveThreshold (threshold st) (frameData st)))
               (frameData st))"

definition excludedRanges :: "TimelineRange list \<Rightarrow> TimelineRange list" where
  "excludedRanges rs = filter (\<lambda>r. action r = Some exclude) rs"

definition isTimeExcluded :: "TimelineRange list \<Rightarrow> real \<Rightarrow> bool" where
  "isTimeExcluded rs t = list_ex (\<lambda>r. t \<ge> start r \<and> t \<le> end_time r) (excludedRanges rs)"

text \<open>\<open>sharpFrames\<close> of the planar \<open>handleDownload\<close>: the frames that are exported.\<close>

definition sharpFrames :: "EditorState \<Rightarrow> FrameData list" where
  "sharpFrames st =
     filter (\<lambda>f. js_ge (variance f) (effectiveThreshold (threshold st) (frameData st))
                \<and> \<not> isTimeExcluded (ranges st) (time f))
            (frameData st)"

section \<open>360 editor\<close>

subsection \<open>Detection (lib/video360)\<close>

datatype Confidence = high | medium | low

record Detection360Result =
  is360 :: bool
  confidence :: Confidence
  reason :: string

definition common360Widths :: "real list" where
  "common360Widths = [7680, 5760, 4096, 3840, 2880, 2048, 1920]"

text \<open>
  \<open>detect360Video\<close> reads \<open>video.videoWidth\<close> and \<open>video.videoHeight\<close> (unsigned
  integers below \<open>2\<^sup>3\<^sup>2\<close>) and nothing else.  The quotient \<open>width / height\<close> and the
  difference \<open>aspectRatio - 2.0\<close> are rounded, and the literals \<open>0.05\<close>, \<open>1.9\<close> and \<open>2.1\<close>
  stand for the doubles nearest to them.  The differences \<open>width - w\<close> and
  \<open>height - w / 2\<close> are between integers and exact.
\<close>

definition detect360Video :: "nat \<Rightarrow> nat \<Rightarrow> Detection360Result" where
  "detect360Video width height =
     (let aspectRatio = fl_div (real width) (real height);
          is2to1 = js_lt (fl_abs_diff aspectRatio 2.0) (Num (fl 0.05));
          isCommon360Resolution =
            list_ex (\<lambda>w. \<bar>real width - w\<bar> < 100 \<and> \<bar>real height - w / 2\<bar> < 50) common360Widths
      in if is2to1 \<and> isCommon360Resolution then
           \<lparr> is360 = True, confidence = high,
             reason = ''2:1 aspect ratio with common 360 resolution'' \<rparr>
         else if is2to1 then
           \<lparr> is360 = True, confidence = medium, reason = ''2:1 aspect ratio detected'' \<rparr>
         else if js_ge aspectRatio (Num (fl 1.9)) \<and> js_le aspectRatio (Num (fl 2.1)) then
           \<lparr> is360 = True, confidence = low, reason = ''Near 2:1 aspect ratio'' \<rparr>
         else
           \<lparr> is360 = False, confidence = high, reason = ''Non-equirectangular aspect ratio'' \<rparr>)"

subsection \<open>Custom views (lib/video360)\<close>

text \<open>Decimal printing of \<open>i + 1\<close> in the template string \<open>`View ${i + 1}`\<close>.\<close>

definition digit_char :: "nat \<Rightarrow> char" where
  "digit_char d = ''0123456789'' ! d"

fun show_nat :: "nat \<Rightarrow> string" where
  "show_nat n = (if n < 10 then [digit_char n] else show_nat (n div 10) @ [digit_char (n mod 10)])"

declare show_nat.simps [simp del]

record CustomView =
  cv_name :: string
  cv_yaw :: real
  cv_pitch :: real
  cv_fov :: real

text \<open>
  The \<open>for\<close> loop of \<open>generateCustomViews\<close>, from index \<open>i\<close> with the views pushed
  so far.  \<open>frameCount\<close> is any finite number; the loop runs while \<open>i < frameCount\<close>.
  The product \<open>i * angleStep\<close> and the sum are rounded.
\<close>

function gcv_loop ::
  "real \<Rightarrow> real \<Rightarrow> real \<Rightarrow> real \<Rightarrow> real \<Rightarrow> nat \<Rightarrow> CustomView list \<Rightarrow> CustomView list" where
  "gcv_loop frameCount rigPitch startAngle fov angleStep i views =
     (if real i < frameCount then
        gcv_loop frameCount rigPitch startAngle fov angleStep (i + 1)
          (views @ [\<lparr> cv_name = ''View '' @ show_nat (i + 1),
                      cv_yaw = js_rem (fl (startAngle + fl (real i * angleStep))) 360,
                      cv_pitch = rigPitch,
                      cv_fov = fov \<rparr>])
      else views)"
  by pat_completeness auto
termination
proof (relation "measure (\<lambda>(frameCount, rigPitch, startAngle, fov, angleStep, i, views).
                            nat \<lceil>frameCount\<rceil> - i)")
  show "wf (measure (\<lambda>(frameCount :: real, rigPitch :: real, startAngle :: real, fov :: real,
                        angleStep :: real, i :: nat, views :: CustomView list).
                            nat \<lceil>frameCount\<rceil> - i))"
    by simp
next
  fix frameCount rigPitch startAngle fov angleStep :: real
  fix i :: nat and views :: "CustomView list"
  assume "real i < frameCount"
  then have "int i < \<lceil>frameCount\<rceil>"
    by linarith
  then show "((frameCount, rigPitch, startAngle, fov, angleStep, i + 1,
               views @ [\<lparr> cv_name = ''View '' @ show_nat (i + 1),
                      cv_yaw = js_rem (fl (startAngle + fl (real i * angleStep))) 360,
                      cv_pitch = rigPitch,
                      cv_fov = fov \<rparr>]),
              (frameCount, rigPitch, startAngle, fov, angleStep, i, views))
             \<in> measure (\<lambda>(frameCount, rigPitch, startAngle, fov, angleStep, i, views).
                            nat \<lceil>frameCount\<rceil> - i)"
    by simp
qed

declare gcv_loop.simps [simp del]

text \<open>
  \<open>angleStep = 360 / frameCount\<close>, rounded.  For \<open>frameCount = 0\<close> the quotient is
  \<open>Infinity\<close> in JavaScript, but the loop body never runs and so never reads it.
\<close>

definition generateCustomViews :: "real \<Rightarrow> real \<Rightarrow> real \<Rightarrow> real \<Rightarrow> CustomView list" where
  "generateCustomViews frameCount rigPitch startAngle fov =
     gcv_loop frameCount rigPitch startAngle fov (fl (360 / frameCount)) 0 []"

subsection \<open>State of the 360 editor (hooks/useEditor360)\<close>

datatype CubemapFace = px | nx | py | ny | pz | nz

datatype EditorMode = skybox | custom

record FrameView =
  view_id :: string
  view_name :: string
  face :: "CubemapFace option"
  yaw :: real
  pitch :: real
  fov :: real
  view_frameData :: "FrameData list"
  view_threshold :: real
  view_ranges :: "TimelineRange list"

record CustomConfig =
  frameCount :: real
  rigPitch :: real
  startAngle :: real
  config_fov :: real

text \<open>\<open>Partial<CustomConfig>\<close>: \<open>None\<close> is an absent key.\<close>

record ConfigUpdate =
  upd_frameCount :: "real option"
  upd_rigPitch :: "real option"
  upd_startAngle :: "real option"
  upd_fov :: "real option"

text \<open>
  \<open>Editor360State\<close>, without the detection result, the sphere view angle, the zoom
  and the file name, which no operation modelled here reads or writes.
\<close>

record Editor360State =
  videoDuration360 :: real
  editorMode :: EditorMode
  frameViews :: "FrameView list"
  activeFrameViewId :: "string option"
  customConfig :: CustomConfig
  isPlaying360 :: bool
  currentTime360 :: real
  isProcessing360 :: bool
  progress360 :: jsnum
  fps360 :: real

fun face_tag :: "CubemapFace \<Rightarrow> string" where
  "face_tag px = ''px''"
| "face_tag nx = ''nx''"
| "face_tag py = ''py''"
| "face_tag ny = ''ny''"
| "face_tag pz = ''pz''"
| "face_tag nz = ''nz''"

fun face_tag_upper :: "CubemapFace \<Rightarrow> string" where
  "face_tag_upper px = ''PX''"
| "face_tag_upper nx = ''NX''"
| "face_tag_upper py = ''PY''"
| "face_tag_upper ny = ''NY''"
| "face_tag_upper pz = ''PZ''"
| "face_tag_upper nz = ''NZ''"

definition CUBEMAP_FACES :: "(CubemapFace \<times> string \<times> real \<times> real) list" where
  "CUBEMAP_FACES =
     [(pz, ''Front'', 0, 0), (px, ''Right'', 90, 0), (nz, ''Back'', 180, 0),
      (nx, ''Left'', 270, 0), (py, ''Top'', 0, 90), (ny, ''Bottom'', 0, -90)]"

definition createSkyboxFrameViews :: "FrameView list" where
  "createSkyboxFrameViews =
     map (\<lambda>(f, n, y, p).
            \<lparr> view_id = ''skybox_'' @ face_tag f,
              view_name = face_tag_upper f @ '' ('' @ n @ '')'',
              face = Some f, yaw = y, pitch = p, fov = 90,
              view_frameData = [], view_threshold = 300, view_ranges = [] \<rparr>)
         CUBEMAP_FACES"

text \<open>\<open>views.map((v, i) => ...)\<close>: the index \<open>i\<close> names the view \<open>custom_i\<close>.\<close>

definition createCustomFrameViews :: "CustomConfig \<Rightarrow> FrameView list" where
  "createCustomFrameViews config =
     map (\<lambda>(i, v).
            \<lparr> view_id = ''custom_'' @ show_nat i,
              view_name = cv_name v,
              face = None, yaw = cv_yaw v, pitch = cv_pitch v, fov = cv_fov v,
              view_frameData = [], view_threshold = 300, view_ranges = [] \<rparr>)
         (enumerate 0 (generateCustomViews (frameCount config) (rigPitch config)
                         (startAngle config) (config_fov config)))"

text \<open>\<open>newFrameViews[0]?.id || fallback\<close>: an empty string is falsy.\<close>

definition first_view_id_or :: "FrameView list \<Rightarrow> string option \<Rightarrow> string option" where
  "first_view_id_or vs fallback =
     (case vs of [] \<Rightarrow> fallback
      | v # _ \<Rightarrow> if view_id v = [] then fallback else Some (view_id v))"

definition setEditorMode :: "EditorMode \<Rightarrow> Editor360State \<Rightarrow> Editor360State" where
  "setEditorMode mode prev =
     (let newFrameViews = (if mode = skybox then createSkyboxFrameViews
                           else createCustomFrameViews (customConfig prev))
      in prev\<lparr> editorMode := mode,
               frameViews := newFrameViews,
               activeFrameViewId := first_view_id_or newFrameViews None \<rparr>)"

text \<open>The object spread \<open>{ ...prev.customConfig, ...config }\<close>.\<close>

definition merge_config :: "CustomConfig \<Rightarrow> ConfigUpdate \<Rightarrow> CustomConfig" where
  "merge_config c u =
     \<lparr> frameCount = (case upd_frameCount u of None \<Rightarrow> frameCount c | Some n \<Rightarrow> n),
       rigPitch = (case upd_rigPitch u of None \<Rightarrow> rigPitch c | Some x \<Rightarrow> x),
       startAngle = (case upd_startAngle u of None \<Rightarrow> startAngle c | Some x \<Rightarrow> x),
       config_fov = (case upd_fov u of None \<Rightarrow> config_fov c | Some x \<Rightarrow> x) \<rparr>"

definition setCustomConfig :: "ConfigUpdate \<Rightarrow> Editor360State \<Rightarrow> Editor360State" where
  "setCustomConfig config prev =
     (let newConfig = merge_config (customConfig prev) config;
          newFrameViews = (if editorMode prev = custom then createCustomFrameViews newConfig
                           else frameViews prev)
      in prev\<lparr> customConfig := newConfig,
               frameViews := newFrameViews,
               activeFrameViewId := first_view_id_or newFrameViews (activeFrameViewId prev) \<rparr>)"

subsection \<open>URL parameters (editor360 page)\<close>

text \<open>
  \<open>parseUrlConfig\<close>.  \<open>searchParams.get\<close> gives a string or \<open>null\<close>; a value is used
  when it is truthy, that is present and not empty.  \<open>parseInt\<close> and \<open>parseFloat\<close>
  are the language's own functions and are parameters here.
\<close>

record UrlConfig =
  url_mode :: "EditorMode option"
  url_config :: "ConfigUpdate option"

definition truthy :: "string option \<Rightarrow> bool" where
  "truthy s = (case s of None \<Rightarrow> False | Some v \<Rightarrow> v \<noteq> [])"

definition parseUrlConfig ::
  "(string \<Rightarrow> real) \<Rightarrow> (string \<Rightarrow> real) \<Rightarrow> (string \<Rightarrow> string option) \<Rightarrow> UrlConfig" where
  "parseUrlConfig parseInt parseFloat searchParams =
     (let mode = searchParams ''mode'';
          frameCountS = searchParams ''frames'';
          rigPitchS = searchParams ''pitch'';
          startAngleS = searchParams ''angle'';
          fovS = searchParams ''fov''
      in \<lparr> url_mode = (if mode = Some ''skybox'' then Some skybox
                       else if mode = Some ''custom'' then Some custom else None),
           url_config =
             (if truthy frameCountS \<or> truthy rigPitchS \<or> truthy startAngleS \<or> truthy fovS then
                Some \<lparr> upd_frameCount = (if truthy frameCountS then Some (parseInt (the frameCountS)) else None),
                       upd_rigPitch = (if truthy rigPitchS then Some (parseFloat (the rigPitchS)) else None),
                       upd_startAngle = (if truthy startAngleS then Some (parseFloat (the startAngleS)) else None),
                       upd_fov = (if truthy fovS then Some (parseFloat (the fovS)) else None) \<rparr>
              else None) \<rparr>)"

text \<open>The mount effect of the page: the parsed mode, then the parsed configuration.\<close>

definition applyUrlConfig :: "UrlConfig \<Rightarrow> Editor360State \<Rightarrow> Editor360State" where
  "applyUrlConfig urlConfig st =
     (let st1 = (case url_mode urlConfig of None \<Rightarrow> st | Some m \<Rightarrow> setEditorMode m st)
      in case url_config urlConfig of None \<Rightarrow> st1 | Some c \<Rightarrow> setCustomConfig c st1)"

subsection \<open>Playback cursor and ranges of the 360 editor\<close>

definition seek360 :: "real \<Rightarrow> Editor360State \<Rightarrow> Editor360State" where
  "seek360 t prev = prev\<lparr> currentTime360 := max 0 (min t (videoDuration360 prev)) \<rparr>"

definition addRange360 ::
  "string \<Rightarrow> string \<Rightarrow> real \<Rightarrow> real \<Rightarrow> RangeAction option \<Rightarrow> Editor360State
     \<Rightarrow> string \<times> Editor360State" where
  "addRange360 rangeId viewId s e a prev =
     (rangeId,
      prev\<lparr> frameViews :=
              map (\<lambda>v. if view_id v = viewId
                        then v\<lparr> view_ranges := view_ranges v @ [newRange rangeId s e a] \<rparr>
                        else v)
                  (frameViews prev) \<rparr>)"

definition updateRange360 ::
  "string \<Rightarrow> string \<Rightarrow> RangeUpdates \<Rightarrow> Editor360State \<Rightarrow> Editor360State" where
  "updateRange360 viewId rangeId u prev =
     prev\<lparr> frameViews :=
             map (\<lambda>v. if view_id v = viewId
                       then v\<lparr> view_ranges :=
                                map (\<lambda>r. if range_id r = rangeId then merge_range r u else r)
                                    (view_ranges v) \<rparr>
                       else v)
                 (frameViews prev) \<rparr>"

definition removeRange360 :: "string \<Rightarrow> string \<Rightarrow> Editor360State \<Rightarrow> Editor360State" where
  "removeRange360 viewId rangeId prev =
     prev\<lparr> frameViews :=
             map (\<lambda>v. if view_id v = viewId
                       then v\<lparr> view_ranges := filter (\<lambda>r. range_id r \<noteq> rangeId) (view_ranges v) \<rparr>
                       else v)
                 (frameViews prev) \<rparr>"

definition views_ordered :: "FrameView list \<Rightarrow> bool" where
  "views_ordered vs = list_all (\<lambda>v. ranges_ordered (view_ranges v)) vs"

subsection \<open>Selection in the 360 editor\<close>

text \<open>
  The 360 timeline shows the active view's threshold line and count with the clamped
  threshold (\<open>activeView?.threshold || 300\<close>, then \<open>Math.min\<close> with \<open>maxVariance\<close>).
\<close>

definition timeline360_effectiveThreshold :: "FrameView \<Rightarrow> jsnum" where
  "timeline360_effectiveThreshold v =
     effectiveThreshold (if view_threshold v = 0 then 300 else view_threshold v) (view_frameData v)"

definition framesAboveThreshold360 :: "FrameView \<Rightarrow> nat" where
  "framesAboveThreshold360 v =
     length (filter (\<lambda>f. js_ge (variance f) (timeline360_effectiveThreshold v)) (view_frameData v))"

text \<open>
  \<open>sharpFrames\<close> of the 360 \<open>handleDownload\<close>, for the active view: the comparison is
  with \<open>activeView.threshold\<close> itself.
\<close>

definition sharpFrames360 :: "FrameView \<Rightarrow> FrameData list" where
  "sharpFrames360 activeView =
     filter (\<lambda>f. js_ge (variance f) (Num (view_threshold activeView))
                \<and> \<not> isTimeExcluded (view_ranges activeView) (time f))
            (view_frameData activeView)"

definition activeViewOf :: "Editor360State \<Rightarrow> FrameView option" where
  "activeViewOf st = find (\<lambda>v. Some (view_id v) = activeFrameViewId st) (frameViews st)"

section \<open>Sharpness score\<close>

text \<open>
  What a JavaScript operation of the analysis can throw: \<open>getImageData\<close> on a rectangle
  of width or height 0 (\<open>IndexSizeError\<close>), the missing 2D context
  (\<open>Error('Failed to get canvas context')\<close>), a failing seek, decode or draw of a frame,
  and the assignment of a non-finite \<open>currentTime\<close> (\<open>TypeError\<close>).
\<close>

datatype js_error = IndexSizeError | CanvasContextError | DecodeError | TypeError

text \<open>
  A 2D context is read through \<open>getImageData\<close> only: it is modelled by its pixels,
  \<open>(r, g, b, a)\<close> at column \<open>x\<close> and row \<open>y\<close>.  \<open>getImageData(0, 0, w, h).data\<close> is the
  row-major byte array of length \<open>4 * w * h\<close>; the call throws when \<open>w\<close> or \<open>h\<close> is 0.
\<close>

type_synonym Canvas2D = "nat \<Rightarrow> nat \<Rightarrow> nat \<times> nat \<times> nat \<times> nat"

definition getImageData :: "Canvas2D \<Rightarrow> nat \<Rightarrow> nat \<Rightarrow> js_error + nat list" where
  "getImageData ctx w h =
     (if w = 0 \<or> h = 0 then Inl IndexSizeError
      else Inr (concat (map (\<lambda>k. case ctx (k mod w) (k div w) of
                                    (r, g, b, a) \<Rightarrow> [r mod 256, g mod 256, b mod 256, a mod 256])
                            [0..<w * h])))"

text \<open>A store into a \<open>Uint8Array\<close>: the fraction is dropped, the result is taken modulo 256.\<close>

definition toUint8 :: "real \<Rightarrow> nat" where
  "toUint8 x = nat (\<lfloor>x\<rfloor> mod 256)"

text \<open>
  The first loop of \<open>computeLaplacianVariance\<close>, over \<open>data\<close> in steps of four bytes:
  \<open>grayData[i / 4] = 0.299 * data[i] + 0.587 * data[i + 1] + 0.114 * data[i + 2]\<close>.
  The length of \<open>data\<close> is a multiple of four.
\<close>

fun grayLoop :: "nat list \<Rightarrow> nat list" where
  "grayLoop (r # g # b # a # rest) =
     toUint8 (0.299 * real r + 0.587 * real g + 0.114 * real b) # grayLoop rest"
| "grayLoop _ = []"

text \<open>
  The indices \<open>y * width + x\<close> that the nested loops visit, rows \<open>1 \<le> y < height - 1\<close> and
  columns \<open>1 \<le> x < width - 1\<close>, in their order.
\<close>

definition interiorIndices :: "nat \<Rightarrow> nat \<Rightarrow> nat list" where
  "interiorIndices width height =
     concat (map (\<lambda>y. map (\<lambda>x. y * width + x) [1..<width - 1]) [1..<height - 1])"

text \<open>A read of \<open>grayData\<close>; the four neighbours of an interior index are in range.\<close>

definition grayAt :: "nat list \<Rightarrow> nat \<Rightarrow> real" where
  "grayAt grayData i = (if i < length grayData then real (grayData ! i) else 0)"

definition laplacianAt :: "nat list \<Rightarrow> nat \<Rightarrow> nat \<Rightarrow> real" where
  "laplacianAt grayData width i =
     (let north = grayAt grayData (i - width);
          south = grayAt grayData (i + width);
          west = grayAt grayData (i - 1);
          east = grayAt grayData (i + 1);
          center = grayAt grayData i
      in north + south + west + east - 4 * center)"

text \<open>
  The two passes over the interior: \<open>sum\<close> and \<open>count\<close>, then the squared deviations from
  \<open>mean = sum / count\<close>, and the result \<open>varianceSum / count\<close>.  With no interior pixel,
  \<open>count\<close> and \<open>sum\<close> are 0, the mean is \<open>NaN\<close>, the second pass adds nothing and the
  result is \<open>0 / 0\<close>.
\<close>

definition laplacianVariance :: "nat list \<Rightarrow> nat \<Rightarrow> nat \<Rightarrow> jsnum" where
  "laplacianVariance data width height =
     (let grayData = grayLoop data;
          (sum, count) = foldl (\<lambda>(sum, count) i. (sum + laplacianAt grayData width i, count + 1))
                               (0, 0 :: nat) (interiorIndices width height);
          mean = js_div sum (real count);
          varianceSum = (case mean of
                           Num mu \<Rightarrow> foldl (\<lambda>acc i. acc + (laplacianAt grayData width i - mu)\<^sup>2) 0
                                        (interiorIndices width height)
                         | _ \<Rightarrow> 0)
      in js_div varianceSum (real count))"

definition computeLaplacianVariance :: "Canvas2D \<Rightarrow> nat \<Rightarrow> nat \<Rightarrow> js_error + jsnum" where
  "computeLaplacianVariance ctx width height =
     (case getImageData ctx width height of
        Inl e \<Rightarrow> Inl e
      | Inr data \<Rightarrow> Inr (laplacianVariance data width height))"

section \<open>Analysis drivers\<close>

text \<open>
  The \<open>HTMLVideoElement\<close>, as far as the analysis touches it: the playback position, the
  paused flag, the duration and the frame size.
\<close>

record Video =
  vid_currentTime :: real
  vid_paused :: bool
  vid_duration :: real
  videoWidth :: nat
  videoHeight :: nat

text \<open>\<open>Math.round(((done) / whole) * 100)\<close>; \<open>whole = 0\<close> gives \<open>Infinity\<close>.\<close>

definition percent :: "nat \<Rightarrow> int \<Rightarrow> jsnum" where
  "percent processed whole =
     js_round_num (fl_times100 (fl_div (real processed) (real_of_int whole)))"

subsection \<open>Planar editor: \<open>runAnalysis\<close>\<close>

text \<open>
  The size of the analysis canvas: the frame size, scaled down to at most 1080 on its
  longer edge.  A quotient by a dimension that is 0 is \<open>Infinity\<close> and loses the
  \<open>Math.min\<close>.  Quotients and products are rounded.
\<close>

definition analysisSize :: "nat \<Rightarrow> nat \<Rightarrow> nat \<times> nat" where
  "analysisSize width height =
     (let maxDim = 1080 in
      if width > maxDim \<or> height > maxDim then
        (let ratio = (if height = 0 then fl (real maxDim / real width)
                      else if width = 0 then fl (real maxDim / real height)
                      else min (fl (real maxDim / real width)) (fl (real maxDim / real height)))
         in (nat (js_round (fl (real width * ratio))), nat (js_round (fl (real height * ratio)))))
      else (width, height))"

text \<open>
  How a run of the loop ends: it runs to its end, a step throws, or the run stays suspended
  at an \<open>await\<close> that never resumes.  The only such \<open>await\<close> is the one for the \<open>seeked\<close>
  event: the promise has no timeout and listens to no other event.
\<close>

datatype run_end = Completed | Threw js_error | Suspended

text \<open>The state of the promise that an \<open>async\<close> function returned.\<close>

datatype promise = Pending | Resolved | Rejected js_error

text \<open>
  One pass of the loop body after the seek has completed: \<open>frameAt t\<close> stands for getting
  the context and drawing the frame at \<open>t\<close> on the analysis canvas; it yields the context
  or what was thrown.  Then the frame is scored.
\<close>

definition analyseFrame ::
  "(real \<Rightarrow> js_error + Canvas2D) \<Rightarrow> Video \<Rightarrow> real \<Rightarrow> js_error + FrameData" where
  "analyseFrame frameAt video t =
     (case frameAt t of
        Inl e \<Rightarrow> Inl e
      | Inr ctx \<Rightarrow>
          (let (width, height) = analysisSize (videoWidth video) (videoHeight video)
           in case computeLaplacianVariance ctx width height of
                Inl e \<Rightarrow> Inl e
              | Inr v \<Rightarrow> Inr \<lparr> time = t, variance = v \<rparr>))"

text \<open>The time of sample \<open>i\<close>: \<open>const time = i * interval\<close>, a rounded product.\<close>

definition sampleTime :: "real \<Rightarrow> nat \<Rightarrow> real" where
  "sampleTime interval i = fl (real i * interval)"

text \<open>
  The \<open>for\<close> loop of \<open>runAnalysis\<close> from index \<open>i\<close>: how the \<open>try\<close> block ends, with the
  editor state and the video at that point.  \<open>seeked t\<close> says that the seek to \<open>t\<close>
  completes, that is, that the \<open>seeked\<close> event fires after \<open>video.currentTime = t\<close>.
\<close>

function analysisLoop ::
  "(real \<Rightarrow> bool) \<Rightarrow> (real \<Rightarrow> js_error + Canvas2D) \<Rightarrow> real \<Rightarrow> real \<Rightarrow> int \<Rightarrow> nat
     \<Rightarrow> FrameData list \<Rightarrow> EditorState \<Rightarrow> Video \<Rightarrow> run_end \<times> EditorState \<times> Video" where
  "analysisLoop seeked frameAt duration interval totalFrames i results st video =
     (if int i \<le> totalFrames then
        (if sampleTime interval i > duration then (Completed, st, video)
         else if \<not> seeked (sampleTime interval i) then
           (Suspended, st, video\<lparr> vid_currentTime := sampleTime interval i \<rparr>)
         else
           (case analyseFrame frameAt video (sampleTime interval i) of
              Inl e \<Rightarrow> (Threw e, st, video\<lparr> vid_currentTime := sampleTime interval i \<rparr>)
            | Inr sample \<Rightarrow>
                analysisLoop seeked frameAt duration interval totalFrames (i + 1) (results @ [sample])
                  (st\<lparr> frameData := results @ [sample], progress := percent (i + 1) totalFrames \<rparr>)
                  (video\<lparr> vid_currentTime := sampleTime interval i \<rparr>)))
      else (Completed, st, video))"
  by pat_completeness auto
termination
  by (relation "measure (\<lambda>(seeked, frameAt, duration, interval, totalFrames, i, results, st, video).
                   nat (totalFrames + 1 - int i))") auto

declare analysisLoop.simps [simp del]

text \<open>
  What can be observed of an analysis run once nothing more happens: the editor state, the
  video element, the errors written to the console, and the promise the caller holds.
\<close>

record AnalysisOutcome =
  out_editor :: EditorState
  out_video :: Video
  out_console :: "js_error list"
  out_promise :: promise

text \<open>
  \<open>runAnalysis\<close>.  \<open>refsSet\<close> says that the video and canvas references are set.  The
  \<open>catch\<close> block logs the error and the \<open>finally\<close> block clears the processing flag and
  restores the position; nothing is thrown on.  A run suspended at a seek reaches neither
  block.  The interval \<open>1 / fps\<close> and the product \<open>duration * fps\<close> are rounded.  With
  \<open>fps = 0\<close> the interval is \<open>Infinity\<close>, the first time \<open>0 * Infinity\<close> is \<open>NaN\<close>, and
  assigning it to \<open>currentTime\<close> throws.
\<close>

definition runAnalysis ::
  "bool \<Rightarrow> (real \<Rightarrow> bool) \<Rightarrow> (real \<Rightarrow> js_error + Canvas2D) \<Rightarrow> EditorState \<Rightarrow> Video
     \<Rightarrow> AnalysisOutcome" where
  "runAnalysis refsSet seeked frameAt st video =
     (if \<not> refsSet then
        \<lparr> out_editor = st, out_video = video, out_console = [], out_promise = Resolved \<rparr>
      else
        (let st1 = st\<lparr> isProcessing := True, frameData := [], progress := Num 0 \<rparr>;
             duration = vid_duration video;
             interval = fl (1 / fps st);
             totalFrames = \<lfloor>fl (duration * fps st)\<rfloor>;
             originalTime = vid_currentTime video;
             video1 = video\<lparr> vid_paused := True \<rparr>;
             (ending, st2, video2) =
               (if fps st = 0 then (Threw TypeError, st1, video1)
                else analysisLoop seeked frameAt duration interval totalFrames 0 [] st1 video1)
         in case ending of
              Suspended \<Rightarrow>
                \<lparr> out_editor = st2, out_video = video2, out_console = [], out_promise = Pending \<rparr>
            | Threw e \<Rightarrow>
                \<lparr> out_editor = st2\<lparr> isProcessing := False \<rparr>,
                  out_video = video2\<lparr> vid_currentTime := originalTime \<rparr>,
                  out_console = [e], out_promise = Resolved \<rparr>
            | Completed \<Rightarrow>
                \<lparr> out_editor = st2\<lparr> isProcessing := False \<rparr>,
                  out_video = video2\<lparr> vid_currentTime := originalTime \<rparr>,
                  out_console = [], out_promise = Resolved \<rparr>))"

subsection \<open>360 editor: \<open>runMultiViewAnalysis\<close>\<close>

text \<open>
  The decoder and the projection engine, as the driver uses them: \<open>seekCompletes t\<close> says
  that the \<open>seeked\<close> event fires after the seek to \<open>t\<close>; \<open>sourceAt t\<close> stands for drawing the
  full frame at \<open>t\<close> on the source canvas; \<open>extractCubemapFace\<close> and
  \<open>extractPerspectiveView\<close> are the functions of lib/video360.  Each of the three yields
  its canvas or what was thrown.
\<close>

record 'src Decoder360 =
  seekCompletes :: "real \<Rightarrow> bool"
  sourceAt :: "real \<Rightarrow> js_error + 'src"
  extractCubemapFace :: "'src \<Rightarrow> CubemapFace \<Rightarrow> nat \<Rightarrow> js_error + Canvas2D"
  extractPerspectiveView ::
    "'src \<Rightarrow> real \<Rightarrow> real \<Rightarrow> real \<Rightarrow> nat \<Rightarrow> nat \<Rightarrow> js_error + Canvas2D"

definition faceSize :: nat where
  "faceSize = 512"

definition analyseView :: "'src Decoder360 \<Rightarrow> 'src \<Rightarrow> FrameView \<Rightarrow> js_error + jsnum" where
  "analyseView dec sourceCtx view =
     (case (case face view of
              Some f \<Rightarrow> extractCubemapFace dec sourceCtx f faceSize
            | None \<Rightarrow> extractPerspectiveView dec sourceCtx (yaw view) (pitch view) (fov view)
                        faceSize faceSize) of
        Inl e \<Rightarrow> Inl e
      | Inr viewCtx \<Rightarrow> computeLaplacianVariance viewCtx faceSize faceSize)"

text \<open>The state update after a score: the sample is appended to the views with that id.\<close>

definition appendFrame :: "string \<Rightarrow> FrameData \<Rightarrow> FrameView list \<Rightarrow> FrameView list" where
  "appendFrame viewId sample views =
     map (\<lambda>v. if view_id v = viewId then v\<lparr> view_frameData := view_frameData v @ [sample] \<rparr> else v)
         views"

text \<open>
  The inner loop \<open>for (const view of state.frameViews)\<close> over the views captured when the
  run started.
\<close>

fun viewsLoop ::
  "'src Decoder360 \<Rightarrow> 'src \<Rightarrow> real \<Rightarrow> int \<Rightarrow> FrameView list \<Rightarrow> nat \<Rightarrow> Editor360State
     \<Rightarrow> js_error option \<times> nat \<times> Editor360State" where
  "viewsLoop dec sourceCtx t totalOperations [] operationCount st = (None, operationCount, st)"
| "viewsLoop dec sourceCtx t totalOperations (view # rest) operationCount st =
     (case analyseView dec sourceCtx view of
        Inl e \<Rightarrow> (Some e, operationCount, st)
      | Inr v \<Rightarrow>
          viewsLoop dec sourceCtx t totalOperations rest (operationCount + 1)
            (st\<lparr> frameViews := appendFrame (view_id view) \<lparr> time = t, variance = v \<rparr> (frameViews st),
                  progress360 := percent (operationCount + 1) totalOperations \<rparr>))"

function multiViewLoop ::
  "'src Decoder360 \<Rightarrow> real \<Rightarrow> real \<Rightarrow> int \<Rightarrow> int \<Rightarrow> FrameView list \<Rightarrow> nat \<Rightarrow> nat
     \<Rightarrow> Editor360State \<Rightarrow> Video \<Rightarrow> run_end \<times> Editor360State \<times> Video" where
  "multiViewLoop dec duration interval totalFrames totalOperations views frameIdx operationCount st video =
     (if int frameIdx \<le> totalFrames then
        (if sampleTime interval frameIdx > duration then (Completed, st, video)
         else if \<not> seekCompletes dec (sampleTime interval frameIdx) then
           (Suspended, st, video\<lparr> vid_currentTime := sampleTime interval frameIdx \<rparr>)
         else
           (case sourceAt dec (sampleTime interval frameIdx) of
              Inl e \<Rightarrow> (Threw e, st, video\<lparr> vid_currentTime := sampleTime interval frameIdx \<rparr>)
            | Inr sourceCtx \<Rightarrow>
                (case viewsLoop dec sourceCtx (sampleTime interval frameIdx) totalOperations views
                        operationCount st of
                   (Some e, operationCount', st') \<Rightarrow>
                     (Threw e, st', video\<lparr> vid_currentTime := sampleTime interval frameIdx \<rparr>)
                 | (None, operationCount', st') \<Rightarrow>
                     multiViewLoop dec duration interval totalFrames totalOperations views
                       (frameIdx + 1) operationCount' st'
                       (video\<lparr> vid_currentTime := sampleTime interval frameIdx \<rparr>))))
      else (Completed, st, video))"
  by pat_completeness auto
termination
  by (relation "measure (\<lambda>(dec, duration, interval, totalFrames, totalOperations, views, frameIdx,
                            operationCount, st, video). nat (totalFrames + 1 - int frameIdx))") auto

declare multiViewLoop.simps [simp del]

record AnalysisOutcome360 =
  out_editor360 :: Editor360State
  out_video360 :: Video
  out_console360 :: "js_error list"
  out_promise360 :: promise

definition runMultiViewAnalysis ::
  "bool \<Rightarrow> 'src Decoder360 \<Rightarrow> Editor360State \<Rightarrow> Video \<Rightarrow> AnalysisOutcome360" where
  "runMultiViewAnalysis refsSet dec st video =
     (if \<not> refsSet then
        \<lparr> out_editor360 = st, out_video360 = video, out_console360 = [],
          out_promise360 = Resolved \<rparr>
      else
        (let st1 = st\<lparr> isProcessing360 := True, progress360 := Num 0,
                       frameViews := map (\<lambda>v. v\<lparr> view_frameData := [] \<rparr>) (frameViews st) \<rparr>;
             duration = vid_duration video;
             interval = fl (1 / fps360 st);
             totalFrames = \<lfloor>fl (duration * fps360 st)\<rfloor>;
             totalOperations = totalFrames * int (length (frameViews st));
             originalTime = vid_currentTime video;
             video1 = video\<lparr> vid_paused := True \<rparr>;
             (ending, st2, video2) =
               (if fps360 st = 0 then (Threw TypeError, st1, video1)
                else multiViewLoop dec duration interval totalFrames totalOperations (frameViews st)
                       0 0 st1 video1)
         in case ending of
              Suspended \<Rightarrow>
                \<lparr> out_editor360 = st2, out_video360 = video2, out_console360 = [],
                  out_promise360 = Pending \<rparr>
            | Threw e \<Rightarrow>
                \<lparr> out_editor360 = st2\<lparr> isProcessing360 := False \<rparr>,
                  out_video360 = video2\<lparr> vid_currentTime := originalTime \<rparr>,
                  out_console360 = [e], out_promise360 = Resolved \<rparr>
            | Completed \<Rightarrow>
                \<lparr> out_editor360 = st2\<lparr> isProcessing360 := False \<rparr>,
                  out_video360 = video2\<lparr> vid_currentTime := originalTime \<rparr>,
                  out_console360 = [], out_promise360 = Resolved \<rparr>))"

section \<open>Reference notions and example inputs\<close>


definition noUpdates :: RangeUpdates where
  "noUpdates = \<lparr> upd_start = None, upd_end = None, upd_action = None, upd_maskPrompt = None \<rparr>"

text \<open>A planar editor with a ten-second video and one range \<open>[0, 5]\<close>.\<close>

definition exampleEditor :: EditorState where
  "exampleEditor =
     \<lparr> videoDuration = 10, isPlaying = False, currentTime = 2,
       ranges = [\<lparr> range_id = ''r1'', start = 0, end_time = 5, action = None, maskPrompt = None \<rparr>],
       selectedRangeId = None, isProcessing = False, progress = Num 0, frameData = [],
       fps = 6, threshold = 300 \<rparr>"

text \<open>\<open>initialState\<close> of the 360 editor, and \<open>DEFAULT_CUSTOM_CONFIG\<close>.\<close>

definition DEFAULT_CUSTOM_CONFIG :: CustomConfig where
  "DEFAULT_CUSTOM_CONFIG = \<lparr> frameCount = 4, rigPitch = 0, startAngle = 0, config_fov = 90 \<rparr>"

definition initialState360 :: Editor360State where
  "initialState360 =
     \<lparr> videoDuration360 = 0, editorMode = skybox, frameViews = createSkyboxFrameViews,
       activeFrameViewId = Some ''skybox_pz'', customConfig = DEFAULT_CUSTOM_CONFIG,
       isPlaying360 = False, currentTime360 = 0, isProcessing360 = False,
       progress360 = Num 0, fps360 = 6 \<rparr>"

text \<open>A 360 editor with a ten-second video whose front view has one range \<open>[0, 5]\<close>.\<close>

definition exampleEditor360 :: Editor360State where
  "exampleEditor360 =
     initialState360\<lparr> videoDuration360 := 10,
       frameViews :=
         [\<lparr> view_id = ''skybox_pz'', view_name = ''PZ (Front)'', face = Some pz,
            yaw = 0, pitch = 0, fov = 90, view_frameData = [], view_threshold = 300,
            view_ranges = [\<lparr> range_id = ''r1'', start = 0, end_time = 5, action = None,
                             maskPrompt = None \<rparr>] \<rparr>] \<rparr>"

text \<open>The selection example of the specification: four samples and one exclude range.\<close>

definition exampleFrames :: "FrameData list" where
  "exampleFrames =
     [\<lparr> time = 0, variance = Num 100 \<rparr>, \<lparr> time = 1, variance = Num 400 \<rparr>,
      \<lparr> time = 2, variance = Num 250 \<rparr>, \<lparr> time = 3, variance = Num 500 \<rparr>]"

definition exampleExclude :: "TimelineRange list" where
  "exampleExclude =
     [\<lparr> range_id = ''x'', start = 0.5, end_time = 1.5, action = Some exclude, maskPrompt = None \<rparr>]"

definition exampleView :: "FrameData list \<Rightarrow> real \<Rightarrow> TimelineRange list \<Rightarrow> FrameView" where
  "exampleView fd thr rs =
     \<lparr> view_id = ''skybox_pz'', view_name = ''PZ (Front)'', face = Some pz,
       yaw = 0, pitch = 0, fov = 90, view_frameData = fd, view_threshold = thr,
       view_ranges = rs \<rparr>"

text \<open>Two samples whose variances stay below the default threshold of 300.\<close>

definition lowVarianceFrames :: "FrameData list" where
  "lowVarianceFrames = [\<lparr> time = 0, variance = Num 100 \<rparr>, \<lparr> time = 1, variance = Num 200 \<rparr>]"

text \<open>One sample of a uniform frame: its Laplacian variance is 0.\<close>

definition flatFrames :: "FrameData list" where
  "flatFrames = [\<lparr> time = 0, variance = Num 0 \<rparr>]"

text \<open>\<open>parseInt\<close> on a string of decimal digits, for the examples.\<close>

definition parseDigits :: "string \<Rightarrow> real" where
  "parseDigits s = foldl (\<lambda>a c. 10 * a + real (of_char c - 48)) 0 s"

text \<open>The 360 editor switched to custom mode: four views from the default configuration.\<close>

definition customState :: Editor360State where
  "customState = setEditorMode custom initialState360"

definition frameCountUpdate :: "real \<Rightarrow> ConfigUpdate" where
  "frameCountUpdate n =
     \<lparr> upd_frameCount = Some n, upd_rigPitch = None, upd_startAngle = None, upd_fov = None \<rparr>"

text \<open>The query string \<open>?mode=custom&frames=20\<close>.\<close>

definition exampleParams :: "string \<Rightarrow> string option" where
  "exampleParams k =
     (if k = ''mode'' then Some ''custom'' else if k = ''frames'' then Some ''20'' else None)"

text \<open>A uniform grey canvas, and one with white and black columns in turn.\<close>

definition uniformCanvas :: Canvas2D where
  "uniformCanvas x y = (128, 128, 128, 255)"

definition stripes :: Canvas2D where
  "stripes x y = (if even x then (255, 255, 255, 255) else (0, 0, 0, 255))"

text \<open>
  One timestamp for all views: the view with id \<open>i\<close> gets the sample \<open>(t, x)\<close> when
  \<open>g i = Some x\<close>.
\<close>

definition stampViews :: "real \<Rightarrow> (string \<Rightarrow> jsnum option) \<Rightarrow> FrameView list \<Rightarrow> FrameView list" where
  "stampViews t g vs =
     map (\<lambda>v. case g (view_id v) of None \<Rightarrow> v
               | Some x \<Rightarrow> v\<lparr> view_frameData := view_frameData v @ [\<lparr> time = t, variance = x \<rparr>] \<rparr>) vs"

text \<open>State of the planar loop after the samples \<open>0, \<dots>, k - 1\<close> have been taken.\<close>

definition planarAfter :: "(nat \<Rightarrow> FrameData) \<Rightarrow> real \<Rightarrow> int \<Rightarrow> nat \<Rightarrow> EditorState \<times> Video \<Rightarrow> EditorState \<times> Video" where
  "planarAfter s interval totalFrames k sv =
     (if k = 0 then sv
      else ((fst sv)\<lparr> frameData := map s [0..<k], progress := percent k totalFrames \<rparr>,
            (snd sv)\<lparr> vid_currentTime := sampleTime interval (k - 1) \<rparr>))"

text \<open>The views after the samples \<open>0, \<dots>, k - 1\<close> have been appended to each.\<close>

definition viewsAfter :: "(nat \<Rightarrow> FrameView \<Rightarrow> FrameData) \<Rightarrow> nat \<Rightarrow> FrameView list \<Rightarrow> FrameView list" where
  "viewsAfter smp k views = map (\<lambda>c. c\<lparr> view_frameData := map (\<lambda>j. smp j c) [0..<k] \<rparr>) views"

text \<open>State of the 360 loop after the frames \<open>0, \<dots>, k - 1\<close> have been processed for all views.\<close>

definition multiAfter ::
  "(nat \<Rightarrow> FrameView \<Rightarrow> FrameData) \<Rightarrow> real \<Rightarrow> int \<Rightarrow> FrameView list \<Rightarrow> nat
     \<Rightarrow> Editor360State \<times> Video \<Rightarrow> Editor360State \<times> Video" where
  "multiAfter smp interval tot views k sv =
     (if k = 0 then sv
      else ((fst sv)\<lparr> frameViews := viewsAfter smp k views,
                      progress360 := (if views = [] then progress360 (fst sv)
                                      else percent (k * length views) tot) \<rparr>,
            (snd sv)\<lparr> vid_currentTime := sampleTime interval (k - 1) \<rparr>))"

text \<open>A 3 by 3 video of duration \<open>d\<close>, playing at 0.7 seconds.\<close>

definition exampleVideo :: "real \<Rightarrow> Video" where
  "exampleVideo d =
     \<lparr> vid_currentTime = 0.7, vid_paused = False, vid_duration = d, videoWidth = 3, videoHeight = 3 \<rparr>"

text \<open>A decoder that yields a uniform frame before \<open>t0\<close> and fails from \<open>t0\<close> on.\<close>

definition failingFrom :: "real \<Rightarrow> real \<Rightarrow> js_error + Canvas2D" where
  "failingFrom t0 t = (if t < t0 then Inr uniformCanvas else Inl DecodeError)"

text \<open>
  A 360 decoder whose seeks complete before second 50, whose source frame is its timestamp
  and is available before \<open>tsrc\<close>; the extraction of the face tagged \<open>badView\<close> fails from
  \<open>t0\<close> on, every other extraction yields a uniform canvas.
\<close>

definition exampleDecoder :: "real \<Rightarrow> real \<Rightarrow> string \<Rightarrow> real Decoder360" where
  "exampleDecoder tsrc t0 badView =
     \<lparr> seekCompletes = (\<lambda>t. t < 50),
       sourceAt = (\<lambda>t. if t < tsrc then Inr t else Inl DecodeError),
       extractCubemapFace = (\<lambda>t f size. if t < t0 \<or> face_tag f \<noteq> badView then Inr uniformCanvas
                                          else Inl DecodeError),
       extractPerspectiveView = (\<lambda>t y p f w h. Inr uniformCanvas) \<rparr>"

section \<open>Theorems\<close>

subsection \<open>Rounding\<close>

lemma expo_bounds:
  "0 < x \<Longrightarrow> 2 powi expo x \<le> x \<and> x < 2 powi (expo x + 1)"
proof (induction x rule: expo.induct)
  case (1 x)
  show ?case
  proof (cases "2 \<le> x")
    case True
    then have e: "expo x = expo (x / 2) + 1"
      using 1(3) by (subst expo.simps) simp
    have "0 < x / 2" using 1(3) by simp
    from 1(1) [OF _ True this] 1(3)
    have ih: "2 powi expo (x / 2) \<le> x / 2" "x / 2 < 2 powi (expo (x / 2) + 1)"
      by simp_all
    have p: "(2 :: real) powi (expo (x / 2) + 1) = 2 powi expo (x / 2) * 2"
            "(2 :: real) powi (expo (x / 2) + 1 + 1) = 2 powi (expo (x / 2) + 1) * 2"
      by (simp_all add: power_int_add)
    show ?thesis
      unfolding e p(2) using ih unfolding p(1) by simp
  next
    case False
    show ?thesis
    proof (cases "x < 1")
      case True
      then have e: "expo x = expo (2 * x) - 1"
        using 1(3) False by (subst expo.simps) simp
      have "0 < 2 * x" using 1(3) by simp
      from 1(2) [OF _ False True this] 1(3)
      have ih: "2 powi expo (2 * x) \<le> 2 * x" "2 * x < 2 powi (expo (2 * x) + 1)"
        by simp_all
      have p: "(2 :: real) powi (expo (2 * x)) = 2 powi (expo (2 * x) - 1) * 2"
              "(2 :: real) powi (expo (2 * x) + 1) = 2 powi (expo (2 * x) - 1 + 1) * 2"
        by (simp_all add: power_int_diff power_int_add)
      show ?thesis
        unfolding e using ih unfolding p by simp
    next
      case False
      with \<open>\<not> 2 \<le> x\<close> 1(3) have e: "expo x = 0"
        by (subst expo.simps) simp
      show ?thesis
        unfolding e using False \<open>\<not> 2 \<le> x\<close> by simp
    qed
  qed
qed

lemma expo_unique:
  assumes "0 < x" "2 powi e \<le> x" "x < 2 powi (e + 1)"
  shows "expo x = e"
proof (rule ccontr)
  assume ne: "expo x \<noteq> e"
  note b = expo_bounds [OF assms(1)]
  show False
  proof (cases "expo x < e")
    case True
    then have "(2 :: real) powi (expo x + 1) \<le> 2 powi e"
      by (intro power_int_increasing) simp_all
    with b assms(2) show False by linarith
  next
    case False
    with ne have "e + 1 \<le> expo x" by simp
    then have "(2 :: real) powi (e + 1) \<le> 2 powi expo x"
      by (intro power_int_increasing) simp_all
    with b assms(3) show False by linarith
  qed
qed

lemma round_even_err: "\<bar>of_int (round_even t) - t\<bar> \<le> 1 / 2"
proof -
  have "of_int \<lfloor>t\<rfloor> \<le> t" "t < of_int \<lfloor>t\<rfloor> + 1"
    by linarith+
  then show ?thesis
    by (auto simp: round_even_def Let_def)
qed

lemma fl_eval:
  assumes "x \<noteq> 0" "2 powi e \<le> \<bar>x\<bar>" "\<bar>x\<bar> < 2 powi (e + 1)"
  shows "fl x = of_int (round_even (x / 2 powi (e - 52))) * 2 powi (e - 52)"
proof -
  have "expo \<bar>x\<bar> = e"
    using assms by (intro expo_unique) simp_all
  then show ?thesis
    using assms(1) by (simp add: fl_def)
qed

lemma fl_abs_err:
  assumes "x \<noteq> 0"
  shows "\<bar>fl x - x\<bar> \<le> 2 powi (expo \<bar>x\<bar> - 53)"
proof -
  define s :: real where "s = 2 powi (expo \<bar>x\<bar> - 52)"
  have s: "0 < s" by (simp add: s_def)
  have "fl x - x = (of_int (round_even (x / s)) - x / s) * s"
    using assms s by (simp add: fl_def s_def field_simps)
  then have "\<bar>fl x - x\<bar> = \<bar>of_int (round_even (x / s)) - x / s\<bar> * s"
    using s by (simp add: abs_mult)
  also have "\<dots> \<le> 1 / 2 * s"
    using round_even_err [of "x / s"] s by (intro mult_right_mono) simp_all
  also have "\<dots> = 2 powi (expo \<bar>x\<bar> - 53)"
  proof -
    have "s = 2 powi (expo \<bar>x\<bar> - 53) * 2"
      unfolding s_def by (simp add: power_int_diff)
    then show ?thesis by simp
  qed
  finally show ?thesis .
qed

lemma fl_rel_err: "\<bar>fl x - x\<bar> \<le> \<bar>x\<bar> / 2 ^ 53"
proof (cases "x = 0")
  case True
  then show ?thesis by (simp add: fl_def)
next
  case False
  then have pos: "0 < \<bar>x\<bar>" by simp
  have "(2 :: real) powi (expo \<bar>x\<bar> - 53) = 2 powi expo \<bar>x\<bar> / 2 ^ 53"
    by (simp add: power_int_diff)
  also have "\<dots> \<le> \<bar>x\<bar> / 2 ^ 53"
    using expo_bounds [OF pos] by (simp add: divide_right_mono)
  finally show ?thesis
    using fl_abs_err [OF False] by linarith
qed

lemma fl_zero: "fl 0 = 0"
  by (simp add: fl_def)

lemma fl_nonneg:
  assumes "0 \<le> x"
  shows "0 \<le> fl x"
proof -
  have "x / 2 ^ 53 \<le> x" using assms by (simp add: field_simps)
  moreover have "\<bar>fl x - x\<bar> \<le> x / 2 ^ 53"
    using fl_rel_err [of x] assms by simp
  ultimately show ?thesis by linarith
qed

lemma fl_pos:
  assumes "0 < x"
  shows "0 < fl x"
proof -
  have "x / 2 ^ 53 < x" using assms by (simp add: field_simps)
  moreover have "\<bar>fl x - x\<bar> \<le> x / 2 ^ 53"
    using fl_rel_err [of x] assms by simp
  ultimately show ?thesis by linarith
qed

lemma fl_step:
  assumes c: "0 < c" and i: "real i < 2 ^ 52"
  shows "fl (real i * c) < fl (real (Suc i) * c)"
proof -
  let ?u = "1 / 2 ^ 53 :: real"
  have ai: "\<bar>real i * c\<bar> = real i * c" and as: "\<bar>real (Suc i) * c\<bar> = real (Suc i) * c"
    using c by (simp_all add: abs_mult)
  have ei: "\<bar>fl (real i * c) - real i * c\<bar> \<le> real i * c * ?u"
    using fl_rel_err [of "real i * c"] unfolding ai by simp
  have es: "\<bar>fl (real (Suc i) * c) - real (Suc i) * c\<bar> \<le> real (Suc i) * c * ?u"
    using fl_rel_err [of "real (Suc i) * c"] unfolding as by simp
  have a: "fl (real i * c) \<le> real i * c + real i * c * ?u"
    using ei by linarith
  have b: "real (Suc i) * c - real (Suc i) * c * ?u \<le> fl (real (Suc i) * c)"
    using es by linarith
  have "(2 * real i + 1) * ?u < 1"
    using i by simp
  then have "0 < c * (1 - (2 * real i + 1) * ?u)"
    using c by simp
  also have "c * (1 - (2 * real i + 1) * ?u)
      = (real (Suc i) * c - real (Suc i) * c * ?u) - (real i * c + real i * c * ?u)"
    by (simp add: algebra_simps)
  finally show ?thesis using a b by linarith
qed

lemma fl_ge:
  assumes "0 \<le> a" "a \<le> x"
  shows "a - a / 2 ^ 53 \<le> fl x"
proof -
  have "\<bar>fl x - x\<bar> \<le> x / 2 ^ 53"
    using fl_rel_err [of x] assms by simp
  moreover have "a - a / 2 ^ 53 \<le> x - x / 2 ^ 53"
    using assms by (simp add: field_simps)
  ultimately show ?thesis by linarith
qed

lemma fl_le:
  assumes "0 \<le> x" "x \<le> b"
  shows "fl x \<le> b + b / 2 ^ 53"
proof -
  have "\<bar>fl x - x\<bar> \<le> x / 2 ^ 53"
    using fl_rel_err [of x] assms by simp
  moreover have "x + x / 2 ^ 53 \<le> b + b / 2 ^ 53"
    using assms by (simp add: field_simps)
  ultimately show ?thesis by linarith
qed

lemma fl_le_neg:
  assumes "x \<le> b" "b \<le> 0"
  shows "fl x \<le> b - b / 2 ^ 53"
proof -
  have "\<bar>fl x - x\<bar> \<le> - x / 2 ^ 53"
    using fl_rel_err [of x] assms by simp
  moreover have "x - x / 2 ^ 53 \<le> b - b / 2 ^ 53"
    using assms by (simp add: field_simps)
  ultimately show ?thesis by linarith
qed

lemma fl_abs_le:
  assumes "\<bar>x\<bar> \<le> b"
  shows "\<bar>fl x\<bar> \<le> b + b / 2 ^ 53"
proof -
  have "\<bar>fl x - x\<bar> \<le> \<bar>x\<bar> / 2 ^ 53"
    by (rule fl_rel_err)
  moreover have "\<bar>x\<bar> + \<bar>x\<bar> / 2 ^ 53 \<le> b + b / 2 ^ 53"
    using assms by (simp add: field_simps)
  ultimately show ?thesis by linarith
qed

lemma round_even_of_int: "round_even (of_int k) = k"
  by (simp add: round_even_def)

text \<open>Integers below \<open>2\<^sup>5\<^sup>3\<close> in magnitude are doubles.\<close>

lemma fl_of_int:
  assumes m: "\<bar>m\<bar> < 2 ^ 53"
  shows "fl (of_int m) = of_int m"
proof (cases "m = 0")
  case True
  then show ?thesis by (simp add: fl_def)
next
  case False
  define e where "e = expo \<bar>real_of_int m\<bar>"
  have pos: "0 < \<bar>real_of_int m\<bar>" using False by simp
  have "\<bar>real_of_int m\<bar> < 2 ^ 53"
    using m by (metis of_int_abs of_int_less_numeral_power_cancel_iff)
  then have "(2 :: real) powi e < 2 powi 53"
    using expo_bounds [OF pos] unfolding e_def by simp
  then have "e < 53"
    using power_int_increasing [of 53 e "2 :: real"] by (cases "e < 53") simp_all
  define k where "k = nat (52 - e)"
  have ek: "e - 52 = - int k" using \<open>e < 53\<close> by (simp add: k_def)
  have p: "(2 :: real) powi (e - 52) = inverse (2 ^ k)"
    unfolding ek by (simp add: power_int_minus)
  have q: "real_of_int m / 2 powi (e - 52) = of_int (m * 2 ^ k)"
    unfolding p by (simp add: field_simps)
  have r: "round_even (real_of_int m / 2 powi (e - 52)) = m * 2 ^ k"
    unfolding q by (rule round_even_of_int)
  have "fl (real_of_int m) = of_int (round_even (real_of_int m / 2 powi (e - 52))) * 2 powi (e - 52)"
    using False by (simp add: fl_def e_def)
  also have "\<dots> = of_int (m * 2 ^ k) * 2 powi (e - 52)"
    by (simp only: r)
  also have "\<dots> = of_int (m * 2 ^ k) * inverse (2 ^ k)"
    by (simp only: p)
  also have "\<dots> = of_int m"
    by simp
  finally show ?thesis .
qed

lemma fl_numeral: "(numeral k :: int) < 2 ^ 53 \<Longrightarrow> fl (numeral k) = numeral k"
  using fl_of_int [of "numeral k"] by simp


lemma fl_one: "fl 1 = 1"
  using fl_of_int [of 1] by simp

lemma fl_of_nat: "n < 2 ^ 53 \<Longrightarrow> fl (real n) = real n"
  using fl_of_int [of "int n"] by simp

text \<open>Sample times: the rounded multiples of a positive interval increase strictly.\<close>

lemma sampleTime_0: "sampleTime c 0 = 0"
  by (simp add: sampleTime_def fl_zero)

lemma sampleTime_nonneg: "0 \<le> c \<Longrightarrow> 0 \<le> sampleTime c i"
  unfolding sampleTime_def by (rule fl_nonneg) simp

lemma sampleTime_less:
  assumes c: "0 < c" and jk: "j < k" and k: "real k \<le> 2 ^ 52"
  shows "sampleTime c j < sampleTime c k"
  using jk k
proof (induction k)
  case 0
  then show ?case by simp
next
  case (Suc k)
  have i: "real k < 2 ^ 52" using Suc.prems(2) by simp
  have step: "sampleTime c k < sampleTime c (Suc k)"
    unfolding sampleTime_def by (rule fl_step [OF c i])
  show ?case
  proof (cases "j = k")
    case True
    then show ?thesis using step by simp
  next
    case False
    then have "j < k" using Suc.prems(1) by simp
    from Suc.IH [OF this] i step show ?thesis by simp
  qed
qed

subsection \<open>Playback cursor\<close>

text \<open>
  Claim C10.  In both editors \<open>seek t\<close> sets the playback cursor to
  \<open>max 0 (min t videoDuration)\<close>.  The cursor is never below \<open>0\<close>, whatever \<open>t\<close> is,
  and never beyond the duration of the loaded video (a duration is not negative).
\<close>

theorem seek_clamped:
  "currentTime (seek t st) = max 0 (min t (videoDuration st))
   \<and> 0 \<le> currentTime (seek t st)
   \<and> (0 \<le> videoDuration st \<longrightarrow> currentTime (seek t st) \<le> videoDuration st)
   \<and> currentTime360 (seek360 t st') = max 0 (min t (videoDuration360 st'))
   \<and> 0 \<le> currentTime360 (seek360 t st')
   \<and> (0 \<le> videoDuration360 st' \<longrightarrow> currentTime360 (seek360 t st') \<le> videoDuration360 st')"
  by (simp add: seek_def seek360_def)

theorem seek_clamped_witness:
  "currentTime (seek 15 exampleEditor) = 10
   \<and> currentTime (seek 15 exampleEditor) \<le> videoDuration exampleEditor
   \<and> currentTime360 (seek360 (- 3) exampleEditor360) = 0
   \<and> currentTime360 (seek360 (- 3) exampleEditor360) \<le> videoDuration360 exampleEditor360"
  using seek_clamped [where t = 15 and st = exampleEditor and st' = exampleEditor360]
    seek_clamped [where t = "- 3" and st = exampleEditor and st' = exampleEditor360]
  by (simp add: exampleEditor_def exampleEditor360_def initialState360_def)

subsection \<open>Ranges\<close>

lemma ranges_ordered_append:
  "ranges_ordered (rs @ [r]) = (ranges_ordered rs \<and> start r \<le> end_time r)"
  by (simp add: ranges_ordered_def)

lemma newRange_ordered: "start (newRange rid s e a) \<le> end_time (newRange rid s e a)"
  by (simp add: newRange_def)

lemma ranges_ordered_merge:
  "ranges_ordered rs \<Longrightarrow>
   \<forall>r \<in> set rs. range_id r = rid \<longrightarrow> start (merge_range r u) \<le> end_time (merge_range r u) \<Longrightarrow>
   ranges_ordered (map (\<lambda>r. if range_id r = rid then merge_range r u else r) rs)"
  by (auto simp: ranges_ordered_def list_all_iff)

lemma merge_range_untouched:
  "upd_start u = None \<Longrightarrow> upd_end u = None \<Longrightarrow>
   start (merge_range r u) = start r \<and> end_time (merge_range r u) = end_time r"
  by (simp add: merge_range_def)

lemma ranges_ordered_filter: "ranges_ordered rs \<Longrightarrow> ranges_ordered (filter P rs)"
  by (simp add: ranges_ordered_def list_all_iff)

lemma ranges_ordered_action:
  "ranges_ordered rs \<Longrightarrow>
   ranges_ordered (map (\<lambda>r. if range_id r = rid then r\<lparr> action := a \<rparr> else r) rs)"
  by (auto simp: ranges_ordered_def list_all_iff)

text \<open>
  Claim C9, as stated, fails for \<open>updateRange\<close>: the update is merged into the range as
  it is given.  Moving the start of the range \<open>[0, 5]\<close> to \<open>10\<close> stores a range with
  \<open>start > end\<close>, in the planar editor and in the 360 editor alike.
\<close>

theorem updateRange_breaks_order:
  "ranges_ordered (ranges exampleEditor)
   \<and> \<not> ranges_ordered (ranges (updateRange ''r1'' (noUpdates\<lparr> upd_start := Some 10 \<rparr>) exampleEditor))
   \<and> ranges (updateRange ''r1'' (noUpdates\<lparr> upd_start := Some 10 \<rparr>) exampleEditor)
       = [\<lparr> range_id = ''r1'', start = 10, end_time = 5, action = None, maskPrompt = None \<rparr>]
   \<and> views_ordered (frameViews exampleEditor360)
   \<and> \<not> views_ordered (frameViews
          (updateRange360 ''skybox_pz'' ''r1'' (noUpdates\<lparr> upd_start := Some 10 \<rparr>) exampleEditor360))"
  by (simp add: exampleEditor_def exampleEditor360_def initialState360_def updateRange_def
        updateRange360_def merge_range_def noUpdates_def ranges_ordered_def views_ordered_def)

text \<open>
  Claim C9, amended.  \<open>addRange\<close>, with its two times in either order, keeps every stored
  range ordered (\<open>start \<le> end\<close>).  \<open>updateRange\<close> keeps the ranges ordered when the
  merged start and end of the range it addresses are ordered, in particular when the
  update carries neither a start nor an end; it does not reorder the values it is given.
  \<open>removeRange\<close>, \<open>setRangeAction\<close> and \<open>clearAllRanges\<close> keep the ranges ordered.
  The same holds per view in the 360 editor.
\<close>

theorem range_operations_ordered:
  "(ranges_ordered (ranges st) \<longrightarrow> ranges_ordered (ranges (snd (addRange rid s e a st))))
   \<and> (ranges_ordered (ranges st)
        \<and> (\<forall>r \<in> set (ranges st). range_id r = rid \<longrightarrow>
               start (merge_range r u) \<le> end_time (merge_range r u))
        \<longrightarrow> ranges_ordered (ranges (updateRange rid u st)))
   \<and> (ranges_ordered (ranges st) \<and> upd_start u = None \<and> upd_end u = None
        \<longrightarrow> ranges_ordered (ranges (updateRange rid u st)))
   \<and> (ranges_ordered (ranges st) \<longrightarrow> ranges_ordered (ranges (removeRange rid st)))
   \<and> (ranges_ordered (ranges st) \<longrightarrow> ranges_ordered (ranges (setRangeAction rid a st)))
   \<and> ranges_ordered (ranges (clearAllRanges st))
   \<and> (views_ordered (frameViews st') \<longrightarrow>
        views_ordered (frameViews (snd (addRange360 rid vid s e a st'))))
   \<and> (views_ordered (frameViews st')
        \<and> (\<forall>v \<in> set (frameViews st'). view_id v = vid \<longrightarrow>
              (\<forall>r \<in> set (view_ranges v). range_id r = rid \<longrightarrow>
                 start (merge_range r u) \<le> end_time (merge_range r u)))
        \<longrightarrow> views_ordered (frameViews (updateRange360 vid rid u st')))
   \<and> (views_ordered (frameViews st') \<and> upd_start u = None \<and> upd_end u = None
        \<longrightarrow> views_ordered (frameViews (updateRange360 vid rid u st')))
   \<and> (views_ordered (frameViews st') \<longrightarrow>
        views_ordered (frameViews (removeRange360 vid rid st')))"
proof (intro conjI impI)
  assume "ranges_ordered (ranges st)"
  then show "ranges_ordered (ranges (snd (addRange rid s e a st)))"
    by (simp add: addRange_def ranges_ordered_append newRange_ordered)
next
  assume "ranges_ordered (ranges st)
        \<and> (\<forall>r \<in> set (ranges st). range_id r = rid \<longrightarrow>
               start (merge_range r u) \<le> end_time (merge_range r u))"
  then show "ranges_ordered (ranges (updateRange rid u st))"
    by (simp add: updateRange_def ranges_ordered_merge)
next
  assume "ranges_ordered (ranges st) \<and> upd_start u = None \<and> upd_end u = None"
  then show "ranges_ordered (ranges (updateRange rid u st))"
    by (auto simp: updateRange_def merge_range_untouched ranges_ordered_def list_all_iff
          intro!: ranges_ordered_merge [unfolded ranges_ordered_def list_all_iff])
next
  assume "ranges_ordered (ranges st)"
  then show "ranges_ordered (ranges (removeRange rid st))"
    by (simp add: removeRange_def ranges_ordered_filter)
next
  assume "ranges_ordered (ranges st)"
  then show "ranges_ordered (ranges (setRangeAction rid a st))"
    by (simp add: setRangeAction_def ranges_ordered_action)
next
  show "ranges_ordered (ranges (clearAllRanges st))"
    by (simp add: clearAllRanges_def ranges_ordered_def)
next
  assume "views_ordered (frameViews st')"
  then show "views_ordered (frameViews (snd (addRange360 rid vid s e a st')))"
    by (auto simp: addRange360_def views_ordered_def list_all_iff ranges_ordered_append
          newRange_ordered)
next
  assume "views_ordered (frameViews st')
        \<and> (\<forall>v \<in> set (frameViews st'). view_id v = vid \<longrightarrow>
              (\<forall>r \<in> set (view_ranges v). range_id r = rid \<longrightarrow>
                 start (merge_range r u) \<le> end_time (merge_range r u)))"
  then show "views_ordered (frameViews (updateRange360 vid rid u st'))"
    by (auto simp: updateRange360_def views_ordered_def list_all_iff ranges_ordered_def)
next
  assume "views_ordered (frameViews st') \<and> upd_start u = None \<and> upd_end u = None"
  then show "views_ordered (frameViews (updateRange360 vid rid u st'))"
    by (auto simp: updateRange360_def views_ordered_def list_all_iff merge_range_untouched
          ranges_ordered_def)
next
  assume "views_ordered (frameViews st')"
  then show "views_ordered (frameViews (removeRange360 vid rid st'))"
    by (auto simp: removeRange360_def views_ordered_def list_all_iff ranges_ordered_def)
qed

theorem range_operations_ordered_witness:
  "ranges_ordered (ranges exampleEditor)
   \<and> ranges (snd (addRange ''r2'' 8 3 None exampleEditor))
       = [\<lparr> range_id = ''r1'', start = 0, end_time = 5, action = None, maskPrompt = None \<rparr>,
          \<lparr> range_id = ''r2'', start = 3, end_time = 8, action = None, maskPrompt = None \<rparr>]
   \<and> ranges_ordered (ranges (snd (addRange ''r2'' 8 3 None exampleEditor)))
   \<and> ranges_ordered (ranges (updateRange ''r1'' (noUpdates\<lparr> upd_maskPrompt := Some None \<rparr>) exampleEditor))
   \<and> ranges_ordered (ranges (removeRange ''r1'' exampleEditor))
   \<and> ranges_ordered (ranges (setRangeAction ''r1'' (Some exclude) exampleEditor))
   \<and> views_ordered (frameViews exampleEditor360)
   \<and> views_ordered (frameViews (snd (addRange360 ''r2'' ''skybox_pz'' 8 3 None exampleEditor360)))
   \<and> views_ordered (frameViews
        (updateRange360 ''skybox_pz'' ''r1'' (noUpdates\<lparr> upd_maskPrompt := Some None \<rparr>) exampleEditor360))
   \<and> views_ordered (frameViews (removeRange360 ''skybox_pz'' ''r1'' exampleEditor360))"
proof -
  have o: "ranges_ordered (ranges exampleEditor)"
    by (simp add: exampleEditor_def ranges_ordered_def)
  have o': "views_ordered (frameViews exampleEditor360)"
    by (simp add: exampleEditor360_def initialState360_def views_ordered_def ranges_ordered_def)
  have n: "upd_start (noUpdates\<lparr> upd_maskPrompt := Some None \<rparr>) = None"
          "upd_end (noUpdates\<lparr> upd_maskPrompt := Some None \<rparr>) = None"
    by (simp_all add: noUpdates_def)
  have added: "ranges (snd (addRange ''r2'' 8 3 None exampleEditor))
       = [\<lparr> range_id = ''r1'', start = 0, end_time = 5, action = None, maskPrompt = None \<rparr>,
          \<lparr> range_id = ''r2'', start = 3, end_time = 8, action = None, maskPrompt = None \<rparr>]"
    by (simp add: addRange_def exampleEditor_def newRange_def)
  note t = range_operations_ordered [where st = exampleEditor and st' = exampleEditor360
      and rid = "''r2''" and vid = "''skybox_pz''" and s = 8 and e = 3 and a = None
      and u = "noUpdates\<lparr> upd_maskPrompt := Some None \<rparr>"]
  note t1 = range_operations_ordered [where st = exampleEditor and st' = exampleEditor360
      and rid = "''r1''" and vid = "''skybox_pz''" and s = 8 and e = 3 and a = "Some exclude"
      and u = "noUpdates\<lparr> upd_maskPrompt := Some None \<rparr>"]
  show ?thesis
    using o o' n added t t1 by blast
qed

subsection \<open>360 detection\<close>

text \<open>The gap between two different ratios of sizes below \<open>2\<^sup>3\<^sup>2\<close>.\<close>

lemma ratio_gap_above:
  assumes h: "0 < h" "h < 2 ^ 32" and a: "0 < a" "a \<le> 32" and lt: "b * h < a * w"
  shows "real b / real a + 1 / 2 ^ 37 \<le> real w / real h"
proof -
  have ah: "0 < real a * real h" using h a by simp
  have "b * h + 1 \<le> a * w" using lt by simp
  then have "real (b * h + 1) \<le> real (a * w)" by (rule of_nat_mono)
  then have "real b * real h + 1 \<le> real a * real w" by simp
  then have "(real b * real h + 1) / (real a * real h) \<le> real a * real w / (real a * real h)"
    using ah by (intro divide_right_mono) simp_all
  moreover have "(real b * real h + 1) / (real a * real h) = real b / real a + 1 / (real a * real h)"
    using h a by (simp add: field_simps)
  moreover have "real a * real w / (real a * real h) = real w / real h"
    using a by simp
  ultimately have 1: "real b / real a + 1 / (real a * real h) \<le> real w / real h"
    by simp
  have "real a * real h \<le> 32 * 2 ^ 32"
    using h a by (intro mult_mono) simp_all
  then have "real a * real h \<le> 2 ^ 37" by simp
  then have "1 / 2 ^ 37 \<le> 1 / (real a * real h)"
    using ah by (intro divide_left_mono) simp_all
  with 1 show ?thesis by linarith
qed

lemma ratio_gap_below:
  assumes h: "0 < h" "h < 2 ^ 32" and a: "0 < a" "a \<le> 32" and lt: "a * w < b * h"
  shows "real w / real h \<le> real b / real a - 1 / 2 ^ 37"
proof -
  have ah: "0 < real a * real h" using h a by simp
  have "a * w + 1 \<le> b * h" using lt by simp
  then have "real (a * w + 1) \<le> real (b * h)" by (rule of_nat_mono)
  then have "real a * real w + 1 \<le> real b * real h" by simp
  then have "(real a * real w + 1) / (real a * real h) \<le> real b * real h / (real a * real h)"
    using ah by (intro divide_right_mono) simp_all
  moreover have "(real a * real w + 1) / (real a * real h) = real w / real h + 1 / (real a * real h)"
    using h a by (simp add: field_simps)
  moreover have "real b * real h / (real a * real h) = real b / real a"
    using h by simp
  ultimately have 1: "real w / real h + 1 / (real a * real h) \<le> real b / real a"
    by simp
  have "real a * real h \<le> 32 * 2 ^ 32"
    using h a by (intro mult_mono) simp_all
  then have "real a * real h \<le> 2 ^ 37" by simp
  then have "1 / 2 ^ 37 \<le> 1 / (real a * real h)"
    using ah by (intro divide_left_mono) simp_all
  with 1 show ?thesis by linarith
qed

lemma ratio_eq:
  assumes "0 < h" "a * w = b * h" "0 < a"
  shows "real w / real h = real b / real a"
proof -
  have "real (a * w) = real (b * h)" using assms(2) by simp
  then have "real a * real w = real b * real h" by simp
  then show ?thesis using assms(1,3) by (simp add: field_simps)
qed

lemma fl_2_05: "fl (41 / 20) = 4616189618054758 / 2 ^ 51"
  by (subst fl_eval [where e = 1]) (simp_all add: round_even_def)

lemma fl_1_95: "fl (39 / 20) = 8782019273372467 / 2 ^ 52"
  by (subst fl_eval [where e = 0]) (simp_all add: round_even_def)

lemma fl_0_05: "fl (1 / 20) = 7205759403792794 / 2 ^ 57"
  by (subst fl_eval [where e = "-5"]) (simp_all add: round_even_def)

lemma is2to1_at_2_05: "\<bar>fl (fl (41 / 20) - 2)\<bar> < fl (1 / 20)"
  unfolding fl_2_05 fl_0_05
  by (subst fl_eval [where e = "-5"]) (simp_all add: round_even_def)

lemma is2to1_at_1_95: "\<not> \<bar>fl (fl (39 / 20) - 2)\<bar> < fl (1 / 20)"
  unfolding fl_1_95 fl_0_05
  by (subst fl_eval [where e = "-5"]) (simp_all add: round_even_def)

lemma fl_0_05_bounds: "1 / 20 - 1 / 2 ^ 57 \<le> fl (1 / 20)" "fl (1 / 20) \<le> 1 / 20 + 1 / 2 ^ 57"
  unfolding fl_0_05 by simp_all

lemma is2to1_iff:
  assumes h: "0 < h" "h < 2 ^ 32" 
  shows "\<bar>fl (fl (real w / real h) - 2)\<bar> < fl (1 / 20)
           \<longleftrightarrow> \<bar>real w / real h - 2\<bar> < 1 / 20 \<or> 20 * w = 41 * h"
proof -
  let ?q = "real w / real h"
  have q0: "0 \<le> ?q" by simp
  have p37: "(0 :: real) < 1 / 2 ^ 37" by simp
  consider (hi) "41 * h < 20 * w" | (eqh) "20 * w = 41 * h" | (mid) "39 * h < 20 * w" "20 * w < 41 * h"
    | (eql) "20 * w = 39 * h" | (lo) "20 * w < 39 * h"
    by linarith
  then show ?thesis
  proof cases
    case hi
    from ratio_gap_above [OF h _ _ hi] have q: "41 / 20 + 1 / 2 ^ 37 \<le> ?q" by simp
    from fl_ge [OF _ q] have r2: "1 / 20 + 1 / 2 ^ 38 \<le> fl ?q - 2" by simp
    from fl_ge [OF _ r2] have "1 / 20 + 1 / 2 ^ 39 \<le> fl (fl ?q - 2)" by simp
    then have "\<not> \<bar>fl (fl ?q - 2)\<bar> < fl (1 / 20)" using fl_0_05_bounds(2) by simp
    moreover have "\<not> \<bar>?q - 2\<bar> < 1 / 20" using q p37 by linarith
    moreover have "20 * w \<noteq> 41 * h" using hi by simp
    ultimately show ?thesis by blast
  next
    case eqh
    have qe: "?q = 41 / 20" using ratio_eq [OF h(1) eqh] by simp
    show ?thesis unfolding qe using is2to1_at_2_05 eqh by blast
  next
    case mid
    from ratio_gap_above [OF h _ _ mid(1)] have q1: "39 / 20 + 1 / 2 ^ 37 \<le> ?q" by simp
    from ratio_gap_below [OF h _ _ mid(2)] have q2: "?q \<le> 41 / 20 - 1 / 2 ^ 37" by simp
    from fl_ge [OF _ q1] have r1: "39 / 20 + 1 / 2 ^ 38 \<le> fl ?q" by simp
    from fl_le [OF q0 q2] have r2: "fl ?q \<le> 41 / 20 - 1 / 2 ^ 38" by simp
    have d: "\<bar>fl ?q - 2\<bar> \<le> 1 / 20 - 1 / 2 ^ 38" using r1 r2 by linarith
    from fl_abs_le [OF d] have "\<bar>fl (fl ?q - 2)\<bar> \<le> 1 / 20 - 1 / 2 ^ 39" by simp
    then have "\<bar>fl (fl ?q - 2)\<bar> < fl (1 / 20)" using fl_0_05_bounds(1) by simp
    moreover have "\<bar>?q - 2\<bar> < 1 / 20" using q1 q2 p37 by linarith
    ultimately show ?thesis by blast
  next
    case eql
    have qe: "?q = 39 / 20" using ratio_eq [OF h(1) eql] by simp
    have "20 * w \<noteq> 41 * h" using eql h by simp
    moreover have "\<not> \<bar>39 / 20 - 2\<bar> < (1 / 20 :: real)" by simp
    ultimately show ?thesis unfolding qe using is2to1_at_1_95 by blast
  next
    case lo
    from ratio_gap_below [OF h _ _ lo] have q: "?q \<le> 39 / 20 - 1 / 2 ^ 37" by simp
    from fl_le [OF q0 q] have r: "fl ?q - 2 \<le> - (1 / 20) - 1 / 2 ^ 38" by simp
    from fl_le_neg [OF r] have "fl (fl ?q - 2) \<le> - (1 / 20) - 1 / 2 ^ 39" by simp
    then have "\<not> \<bar>fl (fl ?q - 2)\<bar> < fl (1 / 20)" using fl_0_05_bounds(2) by simp
    moreover have "\<not> \<bar>?q - 2\<bar> < 1 / 20" using q p37 by linarith
    moreover have "20 * w \<noteq> 41 * h" using lo by simp
    ultimately show ?thesis by blast
  qed
qed

lemma fl_compare_const:
  assumes h: "0 < h" "h < 2 ^ 32" and a: "0 < a" "a \<le> 32" and b: "b \<le> 4 * a"
  shows "fl (real b / real a) \<le> fl (real w / real h) \<longleftrightarrow> real b / real a \<le> real w / real h"
    and "fl (real w / real h) \<le> fl (real b / real a) \<longleftrightarrow> real w / real h \<le> real b / real a"
proof -
  let ?q = "real w / real h" and ?c = "real b / real a"
  have q0: "0 \<le> ?q" and c0: "0 \<le> ?c" by simp_all
  have "real b \<le> real (4 * a)" using b by (rule of_nat_mono)
  then have c4: "?c \<le> 4" using a by (simp add: field_simps)
  have eq: "\<bar>fl ?q - ?q\<bar> \<le> ?q / 2 ^ 53" using fl_rel_err [of ?q] by simp
  have ec: "\<bar>fl ?c - ?c\<bar> \<le> ?c / 2 ^ 53" using fl_rel_err [of ?c] by simp
  have c53: "?c / 2 ^ 53 \<le> 1 / 2 ^ 51" using c4 by simp
  consider (gt) "b * h < a * w" | (eq) "a * w = b * h" | (lt) "a * w < b * h"
    by linarith
  then have "(fl ?c \<le> fl ?q \<longleftrightarrow> ?c \<le> ?q) \<and> (fl ?q \<le> fl ?c \<longleftrightarrow> ?q \<le> ?c)"
  proof cases
    case gt
    from ratio_gap_above [OF h a gt] have q: "?c + 1 / 2 ^ 37 \<le> ?q" .
    have "?c + 1 / 2 ^ 37 - (?c + 1 / 2 ^ 37) / 2 ^ 53 \<le> fl ?q"
      using c0 by (intro fl_ge [OF _ q]) simp
    moreover have "(?c + 1 / 2 ^ 37) / 2 ^ 53 = ?c / 2 ^ 53 + 1 / 2 ^ 90"
      by (simp add: add_divide_distrib)
    moreover have "(0 :: real) < 1 / 2 ^ 37 - 2 * (1 / 2 ^ 51) - 1 / 2 ^ 90" "(0 :: real) < 1 / 2 ^ 90"
      by simp_all
    ultimately have "fl ?c < fl ?q" using ec c53 by linarith
    moreover have "(0 :: real) < 1 / 2 ^ 37" by simp
    ultimately show ?thesis using q by linarith
  next
    case eq
    have "?q = ?c" using ratio_eq [OF h(1) eq a(1)] .
    then show ?thesis by simp
  next
    case lt
    from ratio_gap_below [OF h a lt] have q: "?q \<le> ?c - 1 / 2 ^ 37" .
    have "fl ?q \<le> ?c - 1 / 2 ^ 37 + (?c - 1 / 2 ^ 37) / 2 ^ 53"
      by (rule fl_le [OF q0 q])
    moreover have "(?c - 1 / 2 ^ 37) / 2 ^ 53 = ?c / 2 ^ 53 - 1 / 2 ^ 90"
      by (simp add: diff_divide_distrib)
    moreover have "(0 :: real) < 1 / 2 ^ 37 - 2 * (1 / 2 ^ 51) - 1 / 2 ^ 90" "(0 :: real) < 1 / 2 ^ 90"
      by simp_all
    ultimately have "fl ?q < fl ?c" using ec c53 by linarith
    moreover have "(0 :: real) < 1 / 2 ^ 37" by simp
    ultimately show ?thesis using q by linarith
  qed
  then show "fl ?c \<le> fl ?q \<longleftrightarrow> ?c \<le> ?q" and "fl ?q \<le> fl ?c \<longleftrightarrow> ?q \<le> ?c"
    by simp_all
qed


lemma detect360Video_sizes:
  assumes h: "0 < height" "height < 2 ^ 32"
  shows "detect360Video width height =
       (if (\<bar>real width / real height - 2\<bar> < 0.05 \<or> 20 * width = 41 * height)
           \<and> (\<exists>w \<in> set [7680, 5760, 4096, 3840, 2880, 2048, 1920].
                 \<bar>real width - w\<bar> < 100 \<and> \<bar>real height - w / 2\<bar> < 50)
        then \<lparr> is360 = True, confidence = high,
               reason = ''2:1 aspect ratio with common 360 resolution'' \<rparr>
        else if \<bar>real width / real height - 2\<bar> < 0.05 \<or> 20 * width = 41 * height
        then \<lparr> is360 = True, confidence = medium, reason = ''2:1 aspect ratio detected'' \<rparr>
        else if 1.9 \<le> real width / real height \<and> real width / real height \<le> 2.1
        then \<lparr> is360 = True, confidence = low, reason = ''Near 2:1 aspect ratio'' \<rparr>
        else \<lparr> is360 = False, confidence = high, reason = ''Non-equirectangular aspect ratio'' \<rparr>)"
proof -
  let ?q = "real width / real height"
  have c: "(0.05 :: real) = 1 / 20" "(1.9 :: real) = real 19 / real 10" "(2.1 :: real) = real 21 / real 10"
    by simp_all
  have a: "\<bar>fl (fl ?q - 2)\<bar> < fl 0.05 \<longleftrightarrow> \<bar>?q - 2\<bar> < 0.05 \<or> 20 * width = 41 * height"
    unfolding c by (rule is2to1_iff [OF h])
  have b1: "fl 1.9 \<le> fl ?q \<longleftrightarrow> 1.9 \<le> ?q"
    unfolding c by (rule fl_compare_const(1) [OF h]) simp_all
  have b2: "fl ?q \<le> fl 2.1 \<longleftrightarrow> ?q \<le> 2.1"
    unfolding c by (rule fl_compare_const(2) [OF h]) simp_all
  have h0: "real height \<noteq> 0" using h by simp
  have two: "(2.0 :: real) = 2" by simp
  have d: "detect360Video width height =
       (if \<bar>fl (fl ?q - 2)\<bar> < fl 0.05
           \<and> (\<exists>w \<in> set [7680, 5760, 4096, 3840, 2880, 2048, 1920].
                 \<bar>real width - w\<bar> < 100 \<and> \<bar>real height - w / 2\<bar> < 50)
        then \<lparr> is360 = True, confidence = high,
               reason = ''2:1 aspect ratio with common 360 resolution'' \<rparr>
        else if \<bar>fl (fl ?q - 2)\<bar> < fl 0.05
        then \<lparr> is360 = True, confidence = medium, reason = ''2:1 aspect ratio detected'' \<rparr>
        else if fl 1.9 \<le> fl ?q \<and> fl ?q \<le> fl 2.1
        then \<lparr> is360 = True, confidence = low, reason = ''Near 2:1 aspect ratio'' \<rparr>
        else \<lparr> is360 = False, confidence = high, reason = ''Non-equirectangular aspect ratio'' \<rparr>)"
    unfolding detect360Video_def fl_div_def Let_def common360Widths_def list_ex_iff
    by (simp only: h0 two if_False fl_abs_diff.simps js_lt.simps js_ge.simps js_le.simps)
  show ?thesis
    unfolding d a b1 b2 ..
qed

lemma detect360Video_zero_height:
  "detect360Video width 0
       = \<lparr> is360 = False, confidence = high, reason = ''Non-equirectangular aspect ratio'' \<rparr>"
  by (simp add: detect360Video_def fl_div_def)

text \<open>
  Claim C7, as stated, fails at an aspect ratio of exactly 2.05.  There \<open>|aspect - 2|\<close> is
  0.05, not less, so the stated policy answers \<open>low\<close>; but the quotient 2.05 is rounded down
  to the next double, its distance to 2 comes out as 0.04999999999999982, and the code
  answers \<open>medium\<close> for (41, 20) and \<open>high\<close> for (4100, 2000), which is near the preset 4096.
\<close>

theorem detect360Video_boundary:
  "detect360Video 4100 2000
       = \<lparr> is360 = True, confidence = high,
           reason = ''2:1 aspect ratio with common 360 resolution'' \<rparr>
   \<and> detect360Video 41 20
       = \<lparr> is360 = True, confidence = medium, reason = ''2:1 aspect ratio detected'' \<rparr>
   \<and> \<not> \<bar>4100 / 2000 - 2\<bar> < (0.05 :: real)
   \<and> \<not> \<bar>41 / 20 - 2\<bar> < (0.05 :: real)"
proof -
  have a: "detect360Video 4100 2000
       = \<lparr> is360 = True, confidence = high,
           reason = ''2:1 aspect ratio with common 360 resolution'' \<rparr>"
    by (subst detect360Video_sizes) simp_all
  have b: "detect360Video 41 20
       = \<lparr> is360 = True, confidence = medium, reason = ''2:1 aspect ratio detected'' \<rparr>"
    by (subst detect360Video_sizes) simp_all
  show ?thesis
    using a b by simp
qed

text \<open>
  Claim C7, amended.  \<open>detect360Video\<close> is a function of the width and the height only, and
  classifies by the first rule that matches, in double arithmetic.  For sizes below \<open>2\<^sup>3\<^sup>2\<close>
  (the range of \<open>videoWidth\<close> and \<open>videoHeight\<close>) the outcome is the one of the policy on the
  exact aspect ratio, with one exception: an aspect ratio of exactly 2.05 counts as within
  0.05 of 2.  So: an aspect ratio within \<open>0.05\<close> of \<open>2\<close> (or equal to 2.05) and a width within
  100 and a height within 50 of a preset gives \<open>is360\<close> with confidence \<open>high\<close>; else an aspect
  ratio within \<open>0.05\<close> of \<open>2\<close> (or equal to 2.05) gives \<open>medium\<close>; else an aspect ratio in
  \<open>[1.9, 2.1]\<close> gives \<open>low\<close>; else the video is not 360, with confidence \<open>high\<close> (also for a
  height of \<open>0\<close>, where no comparison with the ratio holds).  So (3840, 1920) is 360/high,
  (1920, 1080) is not 360/high, (3000, 1500) is 360/medium.
\<close>

theorem detect360Video_policy:
  "(0 < height \<and> width < 2 ^ 32 \<and> height < 2 ^ 32 \<longrightarrow>
      detect360Video width height =
       (if (\<bar>real width / real height - 2\<bar> < 0.05 \<or> 20 * width = 41 * height)
           \<and> (\<exists>w \<in> set [7680, 5760, 4096, 3840, 2880, 2048, 1920].
                 \<bar>real width - w\<bar> < 100 \<and> \<bar>real height - w / 2\<bar> < 50)
        then \<lparr> is360 = True, confidence = high,
               reason = ''2:1 aspect ratio with common 360 resolution'' \<rparr>
        else if \<bar>real width / real height - 2\<bar> < 0.05 \<or> 20 * width = 41 * height
        then \<lparr> is360 = True, confidence = medium, reason = ''2:1 aspect ratio detected'' \<rparr>
        else if 1.9 \<le> real width / real height \<and> real width / real height \<le> 2.1
        then \<lparr> is360 = True, confidence = low, reason = ''Near 2:1 aspect ratio'' \<rparr>
        else \<lparr> is360 = False, confidence = high, reason = ''Non-equirectangular aspect ratio'' \<rparr>))
   \<and> detect360Video width 0
       = \<lparr> is360 = False, confidence = high, reason = ''Non-equirectangular aspect ratio'' \<rparr>
   \<and> is360 (detect360Video 3840 1920) \<and> confidence (detect360Video 3840 1920) = high
   \<and> \<not> is360 (detect360Video 1920 1080) \<and> confidence (detect360Video 1920 1080) = high
   \<and> is360 (detect360Video 3000 1500) \<and> confidence (detect360Video 3000 1500) = medium"
proof -
  have e1: "detect360Video 3840 1920
       = \<lparr> is360 = True, confidence = high,
           reason = ''2:1 aspect ratio with common 360 resolution'' \<rparr>"
    by (subst detect360Video_sizes) simp_all
  have e2: "detect360Video 1920 1080
       = \<lparr> is360 = False, confidence = high, reason = ''Non-equirectangular aspect ratio'' \<rparr>"
    by (subst detect360Video_sizes) simp_all
  have e3: "detect360Video 3000 1500
       = \<lparr> is360 = True, confidence = medium, reason = ''2:1 aspect ratio detected'' \<rparr>"
    by (subst detect360Video_sizes) simp_all
  show ?thesis
    unfolding e1 e2 e3 using detect360Video_sizes [of height width] detect360Video_zero_height [of width]
    by simp
qed

theorem detect360Video_policy_witness:
  "detect360Video 2000 1000 = \<lparr> is360 = True, confidence = high,
               reason = ''2:1 aspect ratio with common 360 resolution'' \<rparr>
   \<and> detect360Video 3000 1500
       = \<lparr> is360 = True, confidence = medium, reason = ''2:1 aspect ratio detected'' \<rparr>
   \<and> detect360Video 2050 1000
       = \<lparr> is360 = True, confidence = high,
           reason = ''2:1 aspect ratio with common 360 resolution'' \<rparr>
   \<and> detect360Video 2080 1000
       = \<lparr> is360 = True, confidence = low, reason = ''Near 2:1 aspect ratio'' \<rparr>
   \<and> detect360Video 1920 1080
       = \<lparr> is360 = False, confidence = high, reason = ''Non-equirectangular aspect ratio'' \<rparr>"
  using detect360Video_policy [of 1000 2000] detect360Video_policy [of 1500 3000]
    detect360Video_policy [of 1000 2050]
    detect360Video_policy [of 1000 2080] detect360Video_policy [of 1080 1920]
  by simp

subsection \<open>Custom views\<close>

lemma gcv_loop_nat:
  "i \<le> n \<Longrightarrow> gcv_loop (real n) p s f a i views =
     views @ map (\<lambda>k. \<lparr> cv_name = ''View '' @ show_nat (k + 1),
                      cv_yaw = js_rem (fl (s + fl (real k * a))) 360,
                      cv_pitch = p,
                      cv_fov = f \<rparr>) [i..<n]"
proof (induction "n - i" arbitrary: i views)
  case 0
  then have "i = n" by simp
  then show ?case by (simp add: gcv_loop.simps [of _ _ _ _ _ n])
next
  case (Suc d)
  then have lt: "i < n" and d: "d = n - (i + 1)" and le: "i + 1 \<le> n" by simp_all
  have "gcv_loop (real n) p s f a i views =
        gcv_loop (real n) p s f a (i + 1)
          (views @ [\<lparr> cv_name = ''View '' @ show_nat (i + 1),
                      cv_yaw = js_rem (fl (s + fl (real i * a))) 360,
                      cv_pitch = p, cv_fov = f \<rparr>])"
    using lt by (simp add: gcv_loop.simps [of _ _ _ _ _ i])
  also have "\<dots> = (views @ [\<lparr> cv_name = ''View '' @ show_nat (i + 1),
                      cv_yaw = js_rem (fl (s + fl (real i * a))) 360,
                      cv_pitch = p, cv_fov = f \<rparr>]) @
        map (\<lambda>k. \<lparr> cv_name = ''View '' @ show_nat (k + 1),
                      cv_yaw = js_rem (fl (s + fl (real k * a))) 360,
                      cv_pitch = p,
                      cv_fov = f \<rparr>) [i + 1..<n]"
    using Suc.hyps(1)[OF d le] .
  also have "\<dots> = views @ map (\<lambda>k. \<lparr> cv_name = ''View '' @ show_nat (k + 1),
                      cv_yaw = js_rem (fl (s + fl (real k * a))) 360,
                      cv_pitch = p,
                      cv_fov = f \<rparr>) [i..<n]"
    using lt by (simp add: upt_conv_Cons)
  finally show ?case .
qed

lemma generateCustomViews_nat:
  "generateCustomViews (real n) p s f =
     map (\<lambda>i. \<lparr> cv_name = ''View '' @ show_nat (i + 1),
                 cv_yaw = js_rem (fl (s + fl (real i * fl (360 / real n)))) 360,
                 cv_pitch = p, cv_fov = f \<rparr>) [0..<n]"
  unfolding generateCustomViews_def by (simp add: gcv_loop_nat)









subsection \<open>Selection\<close>

lemma sharpFrames_member:
  "f \<in> set (sharpFrames st) \<longleftrightarrow>
     f \<in> set (frameData st)
     \<and> js_ge (variance f) (effectiveThreshold (threshold st) (frameData st))
     \<and> \<not> (\<exists>r \<in> set (ranges st).
            action r = Some exclude \<and> start r \<le> time f \<and> time f \<le> end_time r)"
  by (auto simp: sharpFrames_def isTimeExcluded_def excludedRanges_def list_ex_iff)

lemma sharpFrames360_member:
  "f \<in> set (sharpFrames360 v) \<longleftrightarrow>
     f \<in> set (view_frameData v)
     \<and> js_ge (variance f) (Num (view_threshold v))
     \<and> \<not> (\<exists>r \<in> set (view_ranges v).
            action r = Some exclude \<and> start r \<le> time f \<and> time f \<le> end_time r)"
  by (auto simp: sharpFrames360_def isTimeExcluded_def excludedRanges_def list_ex_iff)

lemma selection_example:
  "sharpFrames (exampleEditor\<lparr> frameData := exampleFrames, threshold := 300,
                               ranges := exampleExclude \<rparr>)
     = [\<lparr> time = 3, variance = Num 500 \<rparr>]
   \<and> sharpFrames360 (exampleView exampleFrames 300 exampleExclude)
     = [\<lparr> time = 3, variance = Num 500 \<rparr>]"
  by (simp add: sharpFrames_def sharpFrames360_def exampleEditor_def exampleFrames_def
        exampleExclude_def exampleView_def effectiveThreshold_def maxVariance_def
        isTimeExcluded_def excludedRanges_def)

text \<open>
  Claim C1 at the input where the code departs from it.  In the planar editor a sample is
  exported exactly when its variance reaches the effective threshold and no exclude range
  covers its time, both ends included (\<open>sharpFrames_member\<close>), and the example of the
  specification selects the one sample at time 3 in both editors (\<open>selection_example\<close>).
  The export of the 360 editor compares with the view's configured threshold instead of
  the effective one.  For a view with variances 100 and 200 and the default threshold 300
  the effective threshold is 200 and the 360 timeline counts one frame above it; the
  planar export selects the sample at time 1; the 360 export selects nothing.
\<close>

theorem export360_threshold_not_clamped:
  "timeline360_effectiveThreshold (exampleView lowVarianceFrames 300 []) = Num 200
   \<and> framesAboveThreshold360 (exampleView lowVarianceFrames 300 []) = 1
   \<and> sharpFrames (exampleEditor\<lparr> frameData := lowVarianceFrames, threshold := 300, ranges := [] \<rparr>)
       = [\<lparr> time = 1, variance = Num 200 \<rparr>]
   \<and> sharpFrames360 (exampleView lowVarianceFrames 300 []) = []"
  by (simp add: timeline360_effectiveThreshold_def framesAboveThreshold360_def sharpFrames_def
        sharpFrames360_def exampleEditor_def lowVarianceFrames_def exampleView_def
        effectiveThreshold_def maxVariance_def isTimeExcluded_def excludedRanges_def)

lemma foldl_js_max:
  "\<forall>f \<in> set fd. \<exists>v. variance f = Num v \<and> 0 \<le> v \<Longrightarrow> 0 \<le> a \<Longrightarrow>
   \<exists>m. foldl (\<lambda>mx item. js_max mx (variance item)) (Num a) fd = Num m
       \<and> a \<le> m
       \<and> (m = a \<or> (\<exists>f \<in> set fd. variance f = Num m))
       \<and> (\<forall>f \<in> set fd. \<exists>v. variance f = Num v \<and> v \<le> m)"
proof (induction fd arbitrary: a)
  case Nil
  then show ?case by simp
next
  case (Cons x xs)
  from Cons.prems obtain v where v: "variance x = Num v" "0 \<le> v" by auto
  have rest: "\<forall>f \<in> set xs. \<exists>v. variance f = Num v \<and> 0 \<le> v"
    using Cons.prems by simp
  have pos: "0 \<le> max a v" using Cons.prems(2) by simp
  from Cons.IH [OF rest pos] obtain m where
    m: "foldl (\<lambda>mx item. js_max mx (variance item)) (Num (max a v)) xs = Num m"
       "max a v \<le> m"
       "m = max a v \<or> (\<exists>f \<in> set xs. variance f = Num m)"
       "\<forall>f \<in> set xs. \<exists>v. variance f = Num v \<and> v \<le> m"
    by blast
  have "foldl (\<lambda>mx item. js_max mx (variance item)) (Num a) (x # xs) = Num m"
    using m(1) v(1) by simp
  moreover have "a \<le> m" using m(2) by simp
  moreover have "m = a \<or> (\<exists>f \<in> set (x # xs). variance f = Num m)"
    using m(3) v(1) by (auto simp: max_def split: if_splits)
  moreover have "\<forall>f \<in> set (x # xs). \<exists>v. variance f = Num v \<and> v \<le> m"
    using m(2,4) v(1) by auto
  ultimately show ?case by blast
qed

text \<open>
  Claim C2, as stated, fails in the planar editor when the largest variance observed is 0
  (every sampled frame is uniform): \<open>maxVariance\<close> falls back to 1, the threshold applied
  is \<open>min 300 1 = 1\<close> and not \<open>min 300 0 = 0\<close>, and no frame passes.
\<close>

theorem effectiveThreshold_flat_frames:
  "maxVariance flatFrames = Num 1
   \<and> effectiveThreshold 300 flatFrames = Num 1
   \<and> effectiveThreshold 300 flatFrames \<noteq> Num (min 300 0)
   \<and> framesAboveThreshold (exampleEditor\<lparr> frameData := flatFrames, threshold := 300 \<rparr>) = 0
   \<and> sharpFrames (exampleEditor\<lparr> frameData := flatFrames, threshold := 300, ranges := [] \<rparr>) = []"
  by (simp add: maxVariance_def effectiveThreshold_def framesAboveThreshold_def sharpFrames_def
        flatFrames_def exampleEditor_def)

text \<open>
  Claim C2, amended, for the planar editor (count of frames above the threshold and
  export).  Let the frame data be not empty with finite variances \<open>\<ge> 0\<close>, and \<open>m\<close> the
  largest of them.  The threshold applied is \<open>min threshold m'\<close>, where \<open>m'\<close> is \<open>m\<close>, or 1
  when \<open>m = 0\<close>.  When \<open>m > 0\<close>, at least one frame passes the threshold however high the
  configured threshold is.
\<close>

theorem effectiveThreshold_planar:
  assumes ne: "frameData st \<noteq> []"
      and fin: "\<forall>f \<in> set (frameData st). \<exists>v. variance f = Num v \<and> 0 \<le> v"
  shows "\<exists>m. (\<exists>f \<in> set (frameData st). variance f = Num m)
           \<and> (\<forall>f \<in> set (frameData st). \<exists>v. variance f = Num v \<and> v \<le> m)
           \<and> effectiveThreshold (threshold st) (frameData st)
               = Num (min (threshold st) (if m = 0 then 1 else m))
           \<and> framesAboveThreshold st
               = length (filter (\<lambda>f. js_ge (variance f)
                                      (Num (min (threshold st) (if m = 0 then 1 else m))))
                          (frameData st))
           \<and> sharpFrames st
               = filter (\<lambda>f. js_ge (variance f) (Num (min (threshold st) (if m = 0 then 1 else m)))
                             \<and> \<not> isTimeExcluded (ranges st) (time f)) (frameData st)
           \<and> (0 < m \<longrightarrow> 0 < framesAboveThreshold st)"
proof -
  from foldl_js_max [OF fin, of 0] obtain m where
    m: "foldl (\<lambda>mx item. js_max mx (variance item)) (Num 0) (frameData st) = Num m"
       "0 \<le> m"
       "m = 0 \<or> (\<exists>f \<in> set (frameData st). variance f = Num m)"
       "\<forall>f \<in> set (frameData st). \<exists>v. variance f = Num v \<and> v \<le> m"
    by auto
  have attained: "\<exists>f \<in> set (frameData st). variance f = Num m"
  proof (cases "m = 0")
    case True
    from ne obtain f where f: "f \<in> set (frameData st)" by (cases "frameData st") auto
    with fin m(4) obtain v where "variance f = Num v" "0 \<le> v" "v \<le> m" by fastforce
    with True f show ?thesis by auto
  next
    case False
    with m(3) show ?thesis by simp
  qed
  have eff: "effectiveThreshold (threshold st) (frameData st)
               = Num (min (threshold st) (if m = 0 then 1 else m))"
    by (simp add: effectiveThreshold_def maxVariance_def m(1))
  have pass: "0 < framesAboveThreshold st" if "0 < m"
  proof -
    from attained obtain f where f: "f \<in> set (frameData st)" "variance f = Num m" by blast
    have "js_ge (variance f) (effectiveThreshold (threshold st) (frameData st))"
      using that f(2) by (simp add: eff)
    with f(1) have "filter (\<lambda>f. js_ge (variance f) (effectiveThreshold (threshold st) (frameData st)))
               (frameData st) \<noteq> []"
      by (auto simp: filter_empty_conv)
    then show ?thesis by (simp add: framesAboveThreshold_def)
  qed
  show ?thesis
    using attained m(4) eff pass
    by (intro exI [of _ m]) (simp add: framesAboveThreshold_def sharpFrames_def)
qed

theorem effectiveThreshold_planar_witness:
  "frameData (exampleEditor\<lparr> frameData := lowVarianceFrames \<rparr>) \<noteq> []
   \<and> effectiveThreshold (threshold (exampleEditor\<lparr> frameData := lowVarianceFrames \<rparr>))
        (frameData (exampleEditor\<lparr> frameData := lowVarianceFrames \<rparr>)) = Num 200
   \<and> 0 < framesAboveThreshold (exampleEditor\<lparr> frameData := lowVarianceFrames \<rparr>)"
proof -
  let ?st = "exampleEditor\<lparr> frameData := lowVarianceFrames \<rparr>"
  have ne: "frameData ?st \<noteq> []"
    by (simp add: lowVarianceFrames_def)
  have fin: "\<forall>f \<in> set (frameData ?st). \<exists>v. variance f = Num v \<and> 0 \<le> v"
    by (simp add: lowVarianceFrames_def)
  from effectiveThreshold_planar [OF ne fin] obtain m where
    m: "\<exists>f \<in> set (frameData ?st). variance f = Num m"
       "\<forall>f \<in> set (frameData ?st). \<exists>v. variance f = Num v \<and> v \<le> m"
       "effectiveThreshold (threshold ?st) (frameData ?st)
          = Num (min (threshold ?st) (if m = 0 then 1 else m))"
       "0 < m \<longrightarrow> 0 < framesAboveThreshold ?st"
    by blast
  from m(1,2) have "m = 200"
    by (auto simp: lowVarianceFrames_def)
  with m(3,4) ne show ?thesis
    by (simp add: exampleEditor_def)
qed

subsection \<open>Custom configuration\<close>

lemma length_createCustomFrameViews:
  "frameCount c = real n \<Longrightarrow> length (createCustomFrameViews c) = n"
  by (simp add: createCustomFrameViews_def generateCustomViews_nat)

lemma fresh_createCustomFrameViews:
  "v \<in> set (createCustomFrameViews c) \<Longrightarrow> view_frameData v = [] \<and> view_ranges v = []"
  by (auto simp: createCustomFrameViews_def)

text \<open>
  Claim C6, amended.  \<open>setCustomConfig\<close> checks no range: it always stores the merged
  configuration.  In custom mode it regenerates the views from it wholesale, and a whole
  frame count \<open>n\<close> gives exactly \<open>n\<close> fresh views, with no frame data and no ranges,
  whether or not \<open>n\<close> lies in 1..12; in skybox mode it leaves the views as they are.
  \<open>parseUrlConfig\<close> hands \<open>parseInt(frames)\<close> on without a range check.
\<close>

theorem setCustomConfig_unvalidated:
  "customConfig (setCustomConfig u st) = merge_config (customConfig st) u
   \<and> (editorMode st = custom \<longrightarrow>
        frameViews (setCustomConfig u st) = createCustomFrameViews (merge_config (customConfig st) u))
   \<and> (editorMode st = custom \<and> upd_frameCount u = Some (real n) \<longrightarrow>
        length (frameViews (setCustomConfig u st)) = n
        \<and> (\<forall>v \<in> set (frameViews (setCustomConfig u st)). view_frameData v = [] \<and> view_ranges v = []))
   \<and> (editorMode st = skybox \<longrightarrow> frameViews (setCustomConfig u st) = frameViews st)
   \<and> (truthy (searchParams ''frames'') \<longrightarrow>
        (\<exists>c. url_config (parseUrlConfig parseInt parseFloat searchParams) = Some c
             \<and> upd_frameCount c = Some (parseInt (the (searchParams ''frames'')))))"
proof (intro conjI impI)
  show "customConfig (setCustomConfig u st) = merge_config (customConfig st) u"
    by (simp add: setCustomConfig_def Let_def)
next
  assume "editorMode st = custom"
  then show "frameViews (setCustomConfig u st) = createCustomFrameViews (merge_config (customConfig st) u)"
    by (simp add: setCustomConfig_def Let_def)
next
  assume a: "editorMode st = custom \<and> upd_frameCount u = Some (real n)"
  then have fv: "frameViews (setCustomConfig u st) = createCustomFrameViews (merge_config (customConfig st) u)"
    by (simp add: setCustomConfig_def Let_def)
  have fc: "frameCount (merge_config (customConfig st) u) = real n"
    using a by (simp add: merge_config_def)
  show "length (frameViews (setCustomConfig u st)) = n"
    unfolding fv by (rule length_createCustomFrameViews [OF fc])
  show "\<forall>v \<in> set (frameViews (setCustomConfig u st)). view_frameData v = [] \<and> view_ranges v = []"
    unfolding fv using fresh_createCustomFrameViews by blast
next
  assume "editorMode st = skybox"
  then show "frameViews (setCustomConfig u st) = frameViews st"
    by (simp add: setCustomConfig_def Let_def)
next
  assume "truthy (searchParams ''frames'')"
  then show "\<exists>c. url_config (parseUrlConfig parseInt parseFloat searchParams) = Some c
             \<and> upd_frameCount c = Some (parseInt (the (searchParams ''frames'')))"
    by (simp add: parseUrlConfig_def Let_def)
qed

lemma customState_views: "editorMode customState = custom \<and> length (frameViews customState) = 4
  \<and> customConfig customState = DEFAULT_CUSTOM_CONFIG"
proof -
  have "frameCount DEFAULT_CUSTOM_CONFIG = real 4" by (simp add: DEFAULT_CUSTOM_CONFIG_def)
  from length_createCustomFrameViews [OF this] show ?thesis
    by (simp add: customState_def setEditorMode_def Let_def initialState360_def)
qed

theorem setCustomConfig_unvalidated_witness:
  "editorMode customState = custom
   \<and> length (frameViews (setCustomConfig (frameCountUpdate 7) customState)) = 7
   \<and> frameCount (customConfig (setCustomConfig (frameCountUpdate 7) customState)) = 7
   \<and> frameViews (setCustomConfig (frameCountUpdate 7) initialState360) = createSkyboxFrameViews
   \<and> truthy (exampleParams ''frames'')
   \<and> (\<exists>c. url_config (parseUrlConfig parseDigits parseDigits exampleParams) = Some c
          \<and> upd_frameCount c = Some 20)"
proof -
  have r7: "upd_frameCount (frameCountUpdate 7) = Some (real 7)"
    by (simp add: frameCountUpdate_def)
  have cm: "editorMode customState = custom"
    using customState_views by simp
  have sm: "editorMode initialState360 = skybox"
    by (simp add: initialState360_def)
  have tr: "truthy (exampleParams ''frames'')"
    by (simp add: truthy_def exampleParams_def)
  have pd: "parseDigits (the (exampleParams ''frames'')) = 20"
    by (simp add: parseDigits_def exampleParams_def)
  note t = setCustomConfig_unvalidated [where st = customState and u = "frameCountUpdate 7"
      and n = 7 and searchParams = exampleParams and parseInt = parseDigits
      and parseFloat = parseDigits]
  note t' = setCustomConfig_unvalidated [where st = initialState360 and u = "frameCountUpdate 7"
      and n = 7 and searchParams = exampleParams and parseInt = parseDigits
      and parseFloat = parseDigits]
  have a: "length (frameViews (setCustomConfig (frameCountUpdate 7) customState)) = 7"
    using t r7 cm by blast
  have b: "frameCount (customConfig (setCustomConfig (frameCountUpdate 7) customState)) = 7"
    using t customState_views
    by (simp add: merge_config_def frameCountUpdate_def DEFAULT_CUSTOM_CONFIG_def)
  have c: "frameViews (setCustomConfig (frameCountUpdate 7) initialState360) = createSkyboxFrameViews"
    using t' sm by (simp add: initialState360_def)
  have d: "\<exists>c. url_config (parseUrlConfig parseDigits parseDigits exampleParams) = Some c
          \<and> upd_frameCount c = Some 20"
    using t tr pd by simp
  show ?thesis using cm a b c tr d by blast
qed

text \<open>
  Claim C6, as stated, fails: nothing rejects a frame count outside 1..12.  In custom mode
  with the four default views, setting the frame count to 20 stores 20 and replaces the
  views by 20 new ones; setting it to 0 leaves no view at all; the query string
  \<open>?mode=custom&frames=20\<close> does the same on mount.
\<close>

theorem setCustomConfig_accepts_out_of_range:
  "editorMode customState = custom
   \<and> length (frameViews customState) = 4
   \<and> frameCount (customConfig (setCustomConfig (frameCountUpdate 20) customState)) = 20
   \<and> length (frameViews (setCustomConfig (frameCountUpdate 20) customState)) = 20
   \<and> frameViews (setCustomConfig (frameCountUpdate 20) customState) \<noteq> frameViews customState
   \<and> frameCount (customConfig (setCustomConfig (frameCountUpdate 0) customState)) = 0
   \<and> frameViews (setCustomConfig (frameCountUpdate 0) customState) = []
   \<and> length (frameViews (applyUrlConfig (parseUrlConfig parseDigits parseDigits exampleParams)
                initialState360)) = 20"
proof -
  note cs = customState_views
  have m20: "merge_config DEFAULT_CUSTOM_CONFIG (frameCountUpdate 20)
       = \<lparr> frameCount = 20, rigPitch = 0, startAngle = 0, config_fov = 90 \<rparr>"
    by (simp add: merge_config_def frameCountUpdate_def DEFAULT_CUSTOM_CONFIG_def)
  have m0: "merge_config DEFAULT_CUSTOM_CONFIG (frameCountUpdate 0)
       = \<lparr> frameCount = 0, rigPitch = 0, startAngle = 0, config_fov = 90 \<rparr>"
    by (simp add: merge_config_def frameCountUpdate_def DEFAULT_CUSTOM_CONFIG_def)
  have l20: "length (createCustomFrameViews \<lparr> frameCount = 20, rigPitch = 0, startAngle = 0, config_fov = 90 \<rparr>) = 20"
    by (rule length_createCustomFrameViews) simp
  have l0: "length (createCustomFrameViews \<lparr> frameCount = 0, rigPitch = 0, startAngle = 0, config_fov = 90 \<rparr>) = 0"
    by (rule length_createCustomFrameViews) simp
  have e0: "createCustomFrameViews \<lparr> frameCount = 0, rigPitch = 0, startAngle = 0, config_fov = 90 \<rparr> = []"
    using l0 by simp
  have v20: "frameViews (setCustomConfig (frameCountUpdate 20) customState)
        = createCustomFrameViews \<lparr> frameCount = 20, rigPitch = 0, startAngle = 0, config_fov = 90 \<rparr>"
    using cs by (simp add: setCustomConfig_def Let_def m20)
  have v0: "frameViews (setCustomConfig (frameCountUpdate 0) customState)
        = createCustomFrameViews \<lparr> frameCount = 0, rigPitch = 0, startAngle = 0, config_fov = 90 \<rparr>"
    using cs by (simp add: setCustomConfig_def Let_def m0)
  have c20: "frameCount (customConfig (setCustomConfig (frameCountUpdate 20) customState)) = 20"
    using cs by (simp add: setCustomConfig_def Let_def m20)
  have c0: "frameCount (customConfig (setCustomConfig (frameCountUpdate 0) customState)) = 0"
    using cs by (simp add: setCustomConfig_def Let_def m0)
  have ne: "frameViews (setCustomConfig (frameCountUpdate 20) customState) \<noteq> frameViews customState"
  proof
    assume "frameViews (setCustomConfig (frameCountUpdate 20) customState) = frameViews customState"
    then have "length (frameViews (setCustomConfig (frameCountUpdate 20) customState)) = length (frameViews customState)"
      by simp
    then show False using cs by (simp add: v20 l20)
  qed
  have url: "parseUrlConfig parseDigits parseDigits exampleParams
       = \<lparr> url_mode = Some custom, url_config = Some (frameCountUpdate 20) \<rparr>"
    by (simp add: parseUrlConfig_def exampleParams_def truthy_def parseDigits_def frameCountUpdate_def)
  have app: "applyUrlConfig (parseUrlConfig parseDigits parseDigits exampleParams) initialState360
       = setCustomConfig (frameCountUpdate 20) customState"
    by (simp add: url applyUrlConfig_def customState_def)
  show ?thesis
    using cs c20 c0 ne by (simp add: v20 l20 v0 e0 app)
qed

subsection \<open>Sharpness score\<close>

lemma foldl_sum_count:
  "foldl (\<lambda>(sum, count) i. (sum + f i, Suc count)) (s :: real, c) xs
     = (s + sum_list (map f xs), c + length xs)"
  by (induction xs arbitrary: s c) (simp_all add: algebra_simps)

lemma foldl_squares_nonneg:
  "0 \<le> a \<Longrightarrow> 0 \<le> foldl (\<lambda>acc i. acc + (f i - mu)\<^sup>2) (a :: real) xs"
  by (induction xs arbitrary: a) simp_all

lemma length_interiorIndices: "length (interiorIndices w h) = (w - 2) * (h - 2)"
proof -
  have rows: "length (concat (map (\<lambda>y. map (\<lambda>x. y * w + x) [1..<w - 1]) ys)) = length ys * (w - 2)"
    for ys
    by (induction ys) simp_all
  have "length [1..<h - 1] = h - 2"
    by simp
  then have "length (interiorIndices w h) = (h - 2) * (w - 2)"
    by (simp only: interiorIndices_def rows)
  then show ?thesis
    by (simp only: mult.commute)
qed

lemma laplacianVariance_cases:
  "laplacianVariance data w h =
     (if (w - 2) * (h - 2) = 0 then NaN
      else Num (foldl (\<lambda>acc i. acc + (laplacianAt (grayLoop data) w i
                   - sum_list (map (laplacianAt (grayLoop data) w) (interiorIndices w h))
                       / real ((w - 2) * (h - 2)))\<^sup>2) 0 (interiorIndices w h)
                / real ((w - 2) * (h - 2))))"
  by (simp add: laplacianVariance_def Let_def foldl_sum_count length_interiorIndices js_div_def)

text \<open>
  Claim C4, as stated, fails for a buffer smaller than 3 by 3: on a 2 by 2 canvas (and on
  a 1 by 5 one) \<open>computeLaplacianVariance\<close> signals nothing and returns \<open>NaN\<close>.
\<close>

theorem computeLaplacianVariance_small_is_NaN:
  "computeLaplacianVariance uniformCanvas 2 2 = Inr NaN
   \<and> computeLaplacianVariance stripes 1 5 = Inr NaN"
  by (simp add: computeLaplacianVariance_def getImageData_def laplacianVariance_cases)

text \<open>
  Claim C4, amended.  For a width and a height of at least 3 \<open>computeLaplacianVariance\<close>
  returns a finite value \<open>\<ge> 0\<close>.  For a width or a height of 1 or 2 (the other at least 1)
  it signals no error and returns \<open>NaN\<close>.  Only a width or height of 0 fails, with the
  \<open>IndexSizeError\<close> that \<open>getImageData\<close> throws.
\<close>

theorem computeLaplacianVariance_range:
  "(3 \<le> w \<and> 3 \<le> h \<longrightarrow> (\<exists>v. computeLaplacianVariance ctx w h = Inr (Num v) \<and> 0 \<le> v))
   \<and> (0 < w \<and> 0 < h \<and> (w < 3 \<or> h < 3) \<longrightarrow> computeLaplacianVariance ctx w h = Inr NaN)
   \<and> (w = 0 \<or> h = 0 \<longrightarrow> computeLaplacianVariance ctx w h = Inl IndexSizeError)"
proof (intro conjI impI)
  assume a: "3 \<le> w \<and> 3 \<le> h"
  then have pos: "(w - 2) * (h - 2) \<noteq> 0" by simp
  have nz: "w \<noteq> 0" "h \<noteq> 0" using a by auto
  show "\<exists>v. computeLaplacianVariance ctx w h = Inr (Num v) \<and> 0 \<le> v"
    using pos nz
    by (simp add: computeLaplacianVariance_def getImageData_def laplacianVariance_cases
          foldl_squares_nonneg del: mult_eq_0_iff)
next
  assume a: "0 < w \<and> 0 < h \<and> (w < 3 \<or> h < 3)"
  then have z: "(w - 2) * (h - 2) = 0" by auto
  show "computeLaplacianVariance ctx w h = Inr NaN"
    using a z by (simp add: computeLaplacianVariance_def getImageData_def laplacianVariance_cases
       del: mult_eq_0_iff)
next
  assume "w = 0 \<or> h = 0"
  then show "computeLaplacianVariance ctx w h = Inl IndexSizeError"
    by (auto simp: computeLaplacianVariance_def getImageData_def)
qed

lemma computeLaplacianVariance_uniform:
  "computeLaplacianVariance uniformCanvas 3 3 = Inr (Num 0)"
  by (simp add: computeLaplacianVariance_def getImageData_def laplacianVariance_cases
        uniformCanvas_def interiorIndices_def upt_rec laplacianAt_def grayAt_def toUint8_def)

theorem computeLaplacianVariance_range_witness:
  "(\<exists>v. computeLaplacianVariance stripes 5 4 = Inr (Num v) \<and> 0 \<le> v)
   \<and> computeLaplacianVariance stripes 2 7 = Inr NaN
   \<and> computeLaplacianVariance stripes 0 7 = Inl IndexSizeError"
  using computeLaplacianVariance_range [of 5 4 stripes]
    computeLaplacianVariance_range [of 2 7 stripes]
    computeLaplacianVariance_range [of 0 7 stripes]
  by simp

subsection \<open>Analysis drivers\<close>

lemma analysisLoop_done:
  "\<not> int i \<le> totalFrames \<Longrightarrow>
   analysisLoop seeked frameAt duration interval totalFrames i results st video
     = (Completed, st, video)"
  by (simp add: analysisLoop.simps [of _ _ _ _ _ i])

lemma analysisLoop_break:
  "duration < sampleTime interval i \<Longrightarrow>
   analysisLoop seeked frameAt duration interval totalFrames i results st video
     = (Completed, st, video)"
  by (simp add: analysisLoop.simps [of _ _ _ _ _ i])

lemma analysisLoop_stall:
  "int i \<le> totalFrames \<Longrightarrow> sampleTime interval i \<le> duration \<Longrightarrow>
   \<not> seeked (sampleTime interval i) \<Longrightarrow>
   analysisLoop seeked frameAt duration interval totalFrames i results st video
     = (Suspended, st, video\<lparr> vid_currentTime := sampleTime interval i \<rparr>)"
  by (simp add: analysisLoop.simps [of _ _ _ _ _ i])

lemma analysisLoop_fail:
  "int i \<le> totalFrames \<Longrightarrow> sampleTime interval i \<le> duration \<Longrightarrow>
   seeked (sampleTime interval i) \<Longrightarrow>
   analyseFrame frameAt video (sampleTime interval i) = Inl e \<Longrightarrow>
   analysisLoop seeked frameAt duration interval totalFrames i results st video
     = (Threw e, st, video\<lparr> vid_currentTime := sampleTime interval i \<rparr>)"
  by (simp add: analysisLoop.simps [of _ _ _ _ _ i])

lemma analysisLoop_step:
  "int i \<le> totalFrames \<Longrightarrow> sampleTime interval i \<le> duration \<Longrightarrow>
   seeked (sampleTime interval i) \<Longrightarrow>
   analyseFrame frameAt video (sampleTime interval i) = Inr sample \<Longrightarrow>
   analysisLoop seeked frameAt duration interval totalFrames i results st video
     = analysisLoop seeked frameAt duration interval totalFrames (i + 1) (results @ [sample])
                  (st\<lparr> frameData := results @ [sample], progress := percent (i + 1) totalFrames \<rparr>)
                  (video\<lparr> vid_currentTime := sampleTime interval i \<rparr>)"
  by (simp add: analysisLoop.simps [of _ _ _ _ _ i])

lemma analyseFrame_video:
  "analyseFrame frameAt (video\<lparr> vid_currentTime := t' \<rparr>) t = analyseFrame frameAt video t"
  "analyseFrame frameAt (video\<lparr> vid_paused := b \<rparr>) t = analyseFrame frameAt video t"
  by (simp_all add: analyseFrame_def split: sum.splits)

lemma analysisLoop_prefix:
  assumes k: "int k \<le> totalFrames + 1"
      and ok: "\<forall>j < k. sampleTime interval j \<le> duration \<and> seeked (sampleTime interval j)
                 \<and> analyseFrame frameAt video (sampleTime interval j) = Inr (s j)"
  shows "analysisLoop seeked frameAt duration interval totalFrames 0 [] st video
     = analysisLoop seeked frameAt duration interval totalFrames k (map s [0..<k])
         (fst (planarAfter s interval totalFrames k (st, video)))
         (snd (planarAfter s interval totalFrames k (st, video)))"
  using k ok
proof (induction k)
  case 0
  then show ?case by (simp add: planarAfter_def)
next
  case (Suc k)
  have k: "int k \<le> totalFrames + 1" "int k \<le> totalFrames"
    using Suc.prems(1) by simp_all
  have okk: "sampleTime interval k \<le> duration" "seeked (sampleTime interval k)"
            "analyseFrame frameAt video (sampleTime interval k) = Inr (s k)"
    using Suc.prems(2) by simp_all
  have ok': "\<forall>j < k. sampleTime interval j \<le> duration \<and> seeked (sampleTime interval j)
                 \<and> analyseFrame frameAt video (sampleTime interval j) = Inr (s j)"
    using Suc.prems(2) by simp
  have vid: "analyseFrame frameAt (snd (planarAfter s interval totalFrames k (st, video)))
               (sampleTime interval k) = Inr (s k)"
    using okk(3) by (auto simp: planarAfter_def analyseFrame_video)
  show ?case
    unfolding Suc.IH [OF k(1) ok']
    by (subst analysisLoop_step [where seeked = seeked, OF k(2) okk(1) okk(2) vid])
       (simp add: planarAfter_def)
qed

lemma planar_steps:
  assumes ok: "\<forall>j < k. sampleTime c j \<le> d \<and> seeked (sampleTime c j)
                 \<and> analyseFrame frameAt video (sampleTime c j) = Inr (s j)"
  shows "\<forall>j < k. sampleTime c j \<le> d \<and> seeked (sampleTime c j)
               \<and> analyseFrame frameAt (video\<lparr> vid_paused := True \<rparr>) (sampleTime c j) = Inr (s j)"
  using ok by (simp add: analyseFrame_video)

text \<open>
  A run that takes \<open>k\<close> samples and then leaves the loop, at its bound or at the guard
  \<open>time > duration\<close>.
\<close>

lemma runAnalysis_complete:
  assumes refs: "refsSet" and fpos: "0 < fps st"
      and k: "int k \<le> \<lfloor>fl (vid_duration video * fps st)\<rfloor> + 1"
      and ok: "\<forall>j < k. sampleTime (fl (1 / fps st)) j \<le> vid_duration video
                 \<and> seeked (sampleTime (fl (1 / fps st)) j)
                 \<and> analyseFrame frameAt video (sampleTime (fl (1 / fps st)) j) = Inr (s j)"
      and stop: "int k = \<lfloor>fl (vid_duration video * fps st)\<rfloor> + 1
                 \<or> vid_duration video < sampleTime (fl (1 / fps st)) k"
  shows "runAnalysis refsSet seeked frameAt st video =
     \<lparr> out_editor = st\<lparr> isProcessing := False,
                         frameData := map s [0..<k],
                         progress := (if k = 0 then Num 0
                                      else percent k \<lfloor>fl (vid_duration video * fps st)\<rfloor>) \<rparr>,
       out_video = video\<lparr> vid_paused := True \<rparr>,
       out_console = [], out_promise = Resolved \<rparr>"
proof -
  let ?d = "vid_duration video" and ?c = "fl (1 / fps st)"
  let ?N = "\<lfloor>fl (vid_duration video * fps st)\<rfloor>"
  let ?st1 = "st\<lparr> isProcessing := True, frameData := [], progress := Num 0 \<rparr>"
  let ?v1 = "video\<lparr> vid_paused := True \<rparr>"
  note okj = planar_steps [OF ok]
  have "analysisLoop seeked frameAt ?d ?c ?N k (map s [0..<k])
          (fst (planarAfter s ?c ?N k (?st1, ?v1))) (snd (planarAfter s ?c ?N k (?st1, ?v1)))
        = (Completed, fst (planarAfter s ?c ?N k (?st1, ?v1)), snd (planarAfter s ?c ?N k (?st1, ?v1)))"
    using stop
  proof
    assume "int k = ?N + 1"
    then have "\<not> int k \<le> ?N" by simp
    then show ?thesis by (rule analysisLoop_done)
  next
    assume "?d < sampleTime ?c k"
    then show ?thesis by (rule analysisLoop_break)
  qed
  then have loop: "analysisLoop seeked frameAt ?d ?c ?N 0 [] ?st1 ?v1
        = (Completed, fst (planarAfter s ?c ?N k (?st1, ?v1)), snd (planarAfter s ?c ?N k (?st1, ?v1)))"
    unfolding analysisLoop_prefix [where seeked = seeked, OF k okj] .
  have f0: "fps st \<noteq> 0" using fpos by simp
  show ?thesis
    using refs f0 by (simp add: runAnalysis_def Let_def loop planarAfter_def)
qed

lemma runAnalysis_failure:
  assumes refs: "refsSet" and fpos: "0 < fps st"
      and k: "int k \<le> \<lfloor>fl (vid_duration video * fps st)\<rfloor>"
      and ok: "\<forall>j < k. sampleTime (fl (1 / fps st)) j \<le> vid_duration video
                 \<and> seeked (sampleTime (fl (1 / fps st)) j)
                 \<and> analyseFrame frameAt video (sampleTime (fl (1 / fps st)) j) = Inr (s j)"
      and tk: "sampleTime (fl (1 / fps st)) k \<le> vid_duration video"
      and seekk: "seeked (sampleTime (fl (1 / fps st)) k)"
      and fail: "analyseFrame frameAt video (sampleTime (fl (1 / fps st)) k) = Inl e"
  shows "runAnalysis refsSet seeked frameAt st video =
     \<lparr> out_editor = st\<lparr> isProcessing := False,
                         frameData := map s [0..<k],
                         progress := (if k = 0 then Num 0
                                      else percent k \<lfloor>fl (vid_duration video * fps st)\<rfloor>) \<rparr>,
       out_video = video\<lparr> vid_paused := True \<rparr>,
       out_console = [e], out_promise = Resolved \<rparr>"
proof -
  let ?d = "vid_duration video" and ?c = "fl (1 / fps st)"
  let ?N = "\<lfloor>fl (vid_duration video * fps st)\<rfloor>"
  let ?st1 = "st\<lparr> isProcessing := True, frameData := [], progress := Num 0 \<rparr>"
  let ?v1 = "video\<lparr> vid_paused := True \<rparr>"
  have k1: "int k \<le> ?N + 1"
    using k by simp
  note okj = planar_steps [OF ok]
  have failk: "analyseFrame frameAt (snd (planarAfter s ?c ?N k (?st1, ?v1)))
                 (sampleTime ?c k) = Inl e"
    using fail by (auto simp: planarAfter_def analyseFrame_video)
  have loop: "analysisLoop seeked frameAt ?d ?c ?N 0 [] ?st1 ?v1
        = (Threw e, fst (planarAfter s ?c ?N k (?st1, ?v1)),
             (snd (planarAfter s ?c ?N k (?st1, ?v1)))\<lparr> vid_currentTime := sampleTime ?c k \<rparr>)"
    unfolding analysisLoop_prefix [where seeked = seeked, OF k1 okj]
    by (rule analysisLoop_fail [where seeked = seeked, OF k tk seekk failk])
  have f0: "fps st \<noteq> 0" using fpos by simp
  show ?thesis
    using refs f0 by (simp add: runAnalysis_def Let_def loop planarAfter_def)
qed

lemma runAnalysis_stall:
  assumes refs: "refsSet" and fpos: "0 < fps st"
      and k: "int k \<le> \<lfloor>fl (vid_duration video * fps st)\<rfloor>"
      and ok: "\<forall>j < k. sampleTime (fl (1 / fps st)) j \<le> vid_duration video
                 \<and> seeked (sampleTime (fl (1 / fps st)) j)
                 \<and> analyseFrame frameAt video (sampleTime (fl (1 / fps st)) j) = Inr (s j)"
      and tk: "sampleTime (fl (1 / fps st)) k \<le> vid_duration video"
      and stall: "\<not> seeked (sampleTime (fl (1 / fps st)) k)"
  shows "runAnalysis refsSet seeked frameAt st video =
     \<lparr> out_editor = st\<lparr> isProcessing := True,
                         frameData := map s [0..<k],
                         progress := (if k = 0 then Num 0
                                      else percent k \<lfloor>fl (vid_duration video * fps st)\<rfloor>) \<rparr>,
       out_video = video\<lparr> vid_paused := True,
                          vid_currentTime := sampleTime (fl (1 / fps st)) k \<rparr>,
       out_console = [], out_promise = Pending \<rparr>"
proof -
  let ?d = "vid_duration video" and ?c = "fl (1 / fps st)"
  let ?N = "\<lfloor>fl (vid_duration video * fps st)\<rfloor>"
  let ?st1 = "st\<lparr> isProcessing := True, frameData := [], progress := Num 0 \<rparr>"
  let ?v1 = "video\<lparr> vid_paused := True \<rparr>"
  have k1: "int k \<le> ?N + 1"
    using k by simp
  note okj = planar_steps [OF ok]
  have loop: "analysisLoop seeked frameAt ?d ?c ?N 0 [] ?st1 ?v1
        = (Suspended, fst (planarAfter s ?c ?N k (?st1, ?v1)),
             (snd (planarAfter s ?c ?N k (?st1, ?v1)))\<lparr> vid_currentTime := sampleTime ?c k \<rparr>)"
    unfolding analysisLoop_prefix [where seeked = seeked, OF k1 okj]
    by (rule analysisLoop_stall [where seeked = seeked, OF k tk stall])
  have f0: "fps st \<noteq> 0" using fpos by simp
  show ?thesis
    using refs f0 by (simp add: runAnalysis_def Let_def loop planarAfter_def)
qed

lemma view_id_appendFrame: "map view_id (appendFrame i smp vs) = map view_id vs"
  by (induction vs) (simp_all add: appendFrame_def)

lemma viewsLoop_ok:
  assumes "distinct (map view_id cs)"
      and "\<forall>c \<in> set cs. analyseView dec src c = Inr (f c)"
  shows "\<exists>st'. viewsLoop dec src t tot cs opc st = (None, opc + length cs, st')
           \<and> frameViews st' = stampViews t (map_of (map (\<lambda>c. (view_id c, f c)) cs)) (frameViews st)
           \<and> progress360 st' = (if cs = [] then progress360 st else percent (opc + length cs) tot)
           \<and> st' = st\<lparr> frameViews := frameViews st', progress360 := progress360 st' \<rparr>"
  using assms
proof (induction cs arbitrary: opc st)
  case Nil
  show ?case by (simp add: stampViews_def)
next
  case (Cons c cs)
  let ?st1 = "st\<lparr> frameViews := appendFrame (view_id c) \<lparr> time = t, variance = f c \<rparr> (frameViews st),
                  progress360 := percent (opc + 1) tot \<rparr>"
  have d: "distinct (map view_id cs)" and notin: "view_id c \<notin> view_id ` set cs"
    using Cons.prems(1) by auto
  have ok: "\<forall>c \<in> set cs. analyseView dec src c = Inr (f c)" and okc: "analyseView dec src c = Inr (f c)"
    using Cons.prems(2) by auto
  from Cons.IH [OF d ok, of "opc + 1" ?st1] obtain st' where
    st': "viewsLoop dec src t tot cs (opc + 1) ?st1 = (None, opc + 1 + length cs, st')"
         "frameViews st' = stampViews t (map_of (map (\<lambda>c. (view_id c, f c)) cs)) (frameViews ?st1)"
         "progress360 st' = (if cs = [] then progress360 ?st1 else percent (opc + 1 + length cs) tot)"
         "st' = ?st1\<lparr> frameViews := frameViews st', progress360 := progress360 st' \<rparr>"
    by blast
  have none: "map_of (map (\<lambda>c. (view_id c, f c)) cs) (view_id c) = None"
    using notin by (simp add: map_of_eq_None_iff image_image)
  have fv: "stampViews t (map_of (map (\<lambda>c. (view_id c, f c)) cs))
              (appendFrame (view_id c) \<lparr> time = t, variance = f c \<rparr> (frameViews st))
          = stampViews t (map_of (map (\<lambda>c. (view_id c, f c)) (c # cs))) (frameViews st)"
    using none by (auto simp: stampViews_def appendFrame_def)
  have "viewsLoop dec src t tot (c # cs) opc st = (None, opc + length (c # cs), st')"
    using st'(1) okc by simp
  moreover have "frameViews st' = stampViews t (map_of (map (\<lambda>c. (view_id c, f c)) (c # cs))) (frameViews st)"
    using st'(2) fv by simp
  moreover have "progress360 st' = (if c # cs = [] then progress360 st
                                     else percent (opc + length (c # cs)) tot)"
    using st'(3) by (simp add: add.commute add.left_commute)
  moreover have "st' = st\<lparr> frameViews := frameViews st', progress360 := progress360 st' \<rparr>"
    using st'(4) by simp
  ultimately show ?case by blast
qed

lemma viewsLoop_append:
  "viewsLoop dec src t tot (pre @ rest) opc st =
     (case viewsLoop dec src t tot pre opc st of
        (None, opc', st') \<Rightarrow> viewsLoop dec src t tot rest opc' st'
      | (Some e, opc', st') \<Rightarrow> (Some e, opc', st'))"
  by (induction pre arbitrary: opc st) (simp_all split: sum.splits)

lemma viewsLoop_fail:
  assumes "distinct (map view_id pre)"
      and "\<forall>c \<in> set pre. analyseView dec src c = Inr (f c)"
      and "analyseView dec src c = Inl e"
  shows "\<exists>st'. viewsLoop dec src t tot (pre @ c # post) opc st = (Some e, opc + length pre, st')
           \<and> frameViews st' = stampViews t (map_of (map (\<lambda>c. (view_id c, f c)) pre)) (frameViews st)
           \<and> progress360 st' = (if pre = [] then progress360 st else percent (opc + length pre) tot)
           \<and> st' = st\<lparr> frameViews := frameViews st', progress360 := progress360 st' \<rparr>"
proof -
  from viewsLoop_ok [OF assms(1,2), of t tot opc st] obtain st' where
    st': "viewsLoop dec src t tot pre opc st = (None, opc + length pre, st')"
         "frameViews st' = stampViews t (map_of (map (\<lambda>c. (view_id c, f c)) pre)) (frameViews st)"
         "progress360 st' = (if pre = [] then progress360 st else percent (opc + length pre) tot)"
         "st' = st\<lparr> frameViews := frameViews st', progress360 := progress360 st' \<rparr>"
    by blast
  have "viewsLoop dec src t tot (pre @ c # post) opc st = (Some e, opc + length pre, st')"
    using st'(1) assms(3) by (simp add: viewsLoop_append)
  with st'(2,3,4) show ?thesis by blast
qed

lemma map_of_view_id:
  "distinct (map view_id cs) \<Longrightarrow> c \<in> set cs \<Longrightarrow>
   map_of (map (\<lambda>c. (view_id c, f c)) cs) (view_id c) = Some (f c)"
  by (induction cs) (auto simp: rev_image_eqI)

lemma stampViews_viewsAfter:
  assumes "distinct (map view_id cs)"
  shows "stampViews t (map_of (map (\<lambda>c. (view_id c, f c)) cs))
           (viewsAfter (\<lambda>j c. \<lparr> time = tm j, variance = sc j c \<rparr>) k cs)
         = map (\<lambda>c. c\<lparr> view_frameData := map (\<lambda>j. \<lparr> time = tm j, variance = sc j c \<rparr>) [0..<k]
                                              @ [\<lparr> time = t, variance = f c \<rparr>] \<rparr>) cs"
  using map_of_view_id [OF assms, of _ f]
  by (simp add: stampViews_def viewsAfter_def)

lemma multiViewLoop_done:
  "\<not> int i \<le> totalFrames \<Longrightarrow>
   multiViewLoop dec duration interval totalFrames tot views i opc st video = (Completed, st, video)"
  by (simp add: multiViewLoop.simps [of _ _ _ _ _ _ i])

lemma multiViewLoop_break:
  "duration < sampleTime interval i \<Longrightarrow>
   multiViewLoop dec duration interval totalFrames tot views i opc st video = (Completed, st, video)"
  by (simp add: multiViewLoop.simps [of _ _ _ _ _ _ i])

lemma multiViewLoop_stall:
  "int i \<le> totalFrames \<Longrightarrow> sampleTime interval i \<le> duration \<Longrightarrow>
   \<not> seekCompletes dec (sampleTime interval i) \<Longrightarrow>
   multiViewLoop dec duration interval totalFrames tot views i opc st video
     = (Suspended, st, video\<lparr> vid_currentTime := sampleTime interval i \<rparr>)"
  by (simp add: multiViewLoop.simps [of _ _ _ _ _ _ i])

lemma multiViewLoop_fail_source:
  "int i \<le> totalFrames \<Longrightarrow> sampleTime interval i \<le> duration \<Longrightarrow>
   seekCompletes dec (sampleTime interval i) \<Longrightarrow>
   sourceAt dec (sampleTime interval i) = Inl e \<Longrightarrow>
   multiViewLoop dec duration interval totalFrames tot views i opc st video
     = (Threw e, st, video\<lparr> vid_currentTime := sampleTime interval i \<rparr>)"
  by (simp add: multiViewLoop.simps [of _ _ _ _ _ _ i])

lemma multiViewLoop_fail_view:
  "int i \<le> totalFrames \<Longrightarrow> sampleTime interval i \<le> duration \<Longrightarrow>
   seekCompletes dec (sampleTime interval i) \<Longrightarrow>
   sourceAt dec (sampleTime interval i) = Inr src \<Longrightarrow>
   viewsLoop dec src (sampleTime interval i) tot views opc st = (Some e, opc', st') \<Longrightarrow>
   multiViewLoop dec duration interval totalFrames tot views i opc st video
     = (Threw e, st', video\<lparr> vid_currentTime := sampleTime interval i \<rparr>)"
  by (simp add: multiViewLoop.simps [of _ _ _ _ _ _ i])

lemma multiViewLoop_step:
  "int i \<le> totalFrames \<Longrightarrow> sampleTime interval i \<le> duration \<Longrightarrow>
   seekCompletes dec (sampleTime interval i) \<Longrightarrow>
   sourceAt dec (sampleTime interval i) = Inr src \<Longrightarrow>
   viewsLoop dec src (sampleTime interval i) tot views opc st = (None, opc', st') \<Longrightarrow>
   multiViewLoop dec duration interval totalFrames tot views i opc st video
     = multiViewLoop dec duration interval totalFrames tot views (i + 1) opc' st'
         (video\<lparr> vid_currentTime := sampleTime interval i \<rparr>)"
  by (simp add: multiViewLoop.simps [of _ _ _ _ _ _ i])

lemma frameViews_multiAfter:
  "frameViews st = viewsAfter smp 0 views \<Longrightarrow>
   frameViews (fst (multiAfter smp interval tot views k (st, video))) = viewsAfter smp k views"
  by (simp add: multiAfter_def)

lemma multiViewLoop_prefix:
  assumes d: "distinct (map view_id views)"
      and init: "frameViews st = viewsAfter (\<lambda>j c. \<lparr> time = sampleTime interval j, variance = sc j c \<rparr>) 0 views"
      and k: "int k \<le> totalFrames + 1"
      and ok: "\<forall>j < k. sampleTime interval j \<le> duration
                 \<and> seekCompletes dec (sampleTime interval j)
                 \<and> sourceAt dec (sampleTime interval j) = Inr (src j)
                 \<and> (\<forall>c \<in> set views. analyseView dec (src j) c = Inr (sc j c))"
  shows "multiViewLoop dec duration interval totalFrames tot views 0 0 st video
     = multiViewLoop dec duration interval totalFrames tot views k (k * length views)
         (fst (multiAfter (\<lambda>j c. \<lparr> time = sampleTime interval j, variance = sc j c \<rparr>) interval tot views k (st, video)))
         (snd (multiAfter (\<lambda>j c. \<lparr> time = sampleTime interval j, variance = sc j c \<rparr>) interval tot views k (st, video)))"
  using k ok
proof (induction k)
  case 0
  then show ?case by (simp add: multiAfter_def)
next
  case (Suc k)
  let ?smp = "\<lambda>j c. \<lparr> time = sampleTime interval j, variance = sc j c \<rparr>"
  let ?sk = "fst (multiAfter ?smp interval tot views k (st, video))"
  let ?vk = "snd (multiAfter ?smp interval tot views k (st, video))"
  have k: "int k \<le> totalFrames + 1" "int k \<le> totalFrames"
    using Suc.prems(1) by simp_all
  have okk: "sampleTime interval k \<le> duration" "seekCompletes dec (sampleTime interval k)"
            "sourceAt dec (sampleTime interval k) = Inr (src k)"
            "\<forall>c \<in> set views. analyseView dec (src k) c = Inr (sc k c)"
    using Suc.prems(2) by simp_all
  have ok': "\<forall>j < k. sampleTime interval j \<le> duration
                 \<and> seekCompletes dec (sampleTime interval j)
                 \<and> sourceAt dec (sampleTime interval j) = Inr (src j)
                 \<and> (\<forall>c \<in> set views. analyseView dec (src j) c = Inr (sc j c))"
    using Suc.prems(2) by simp
  from viewsLoop_ok [OF d okk(4), of "sampleTime interval k" tot "k * length views" ?sk] obtain st' where
    st': "viewsLoop dec (src k) (sampleTime interval k) tot views (k * length views) ?sk
            = (None, k * length views + length views, st')"
         "frameViews st' = stampViews (sampleTime interval k)
                             (map_of (map (\<lambda>c. (view_id c, sc k c)) views)) (frameViews ?sk)"
         "progress360 st' = (if views = [] then progress360 ?sk
                             else percent (k * length views + length views) tot)"
         "st' = ?sk\<lparr> frameViews := frameViews st', progress360 := progress360 st' \<rparr>"
    by blast
  have fv: "frameViews st' = viewsAfter ?smp (Suc k) views"
    unfolding st'(2) frameViews_multiAfter [OF init] stampViews_viewsAfter [OF d]
    by (simp add: viewsAfter_def)
  have pr: "progress360 st' = (if views = [] then progress360 st
                              else percent (Suc k * length views) tot)"
    unfolding st'(3) by (simp add: multiAfter_def add.commute)
  have st'_eq: "st' = fst (multiAfter ?smp interval tot views (Suc k) (st, video))"
    by (subst st'(4)) (simp add: fv pr multiAfter_def)
  have v_eq: "?vk\<lparr> vid_currentTime := sampleTime interval k \<rparr>
                = snd (multiAfter ?smp interval tot views (Suc k) (st, video))"
    by (simp add: multiAfter_def)
  have cnt: "k * length views + length views = Suc k * length views"
    by simp
  show ?case
    unfolding Suc.IH [OF k(1) ok']
    by (subst multiViewLoop_step [OF k(2) okk(1) okk(2) okk(3) st'(1)])
       (simp only: st'_eq v_eq cnt Suc_eq_plus1)
qed

text \<open>
  A run of the 360 driver that processes \<open>k\<close> frames and then leaves the loop, at its bound
  or at the guard \<open>time > duration\<close>.
\<close>

lemma runMultiViewAnalysis_complete:
  assumes refs: "refsSet" and fpos: "0 < fps360 st"
      and d: "distinct (map view_id (frameViews st))"
      and k: "int k \<le> \<lfloor>fl (vid_duration video * fps360 st)\<rfloor> + 1"
      and ok: "\<forall>j < k. sampleTime (fl (1 / fps360 st)) j \<le> vid_duration video
                 \<and> seekCompletes dec (sampleTime (fl (1 / fps360 st)) j)
                 \<and> sourceAt dec (sampleTime (fl (1 / fps360 st)) j) = Inr (src j)
                 \<and> (\<forall>c \<in> set (frameViews st). analyseView dec (src j) c = Inr (sc j c))"
      and stop: "int k = \<lfloor>fl (vid_duration video * fps360 st)\<rfloor> + 1
                 \<or> vid_duration video < sampleTime (fl (1 / fps360 st)) k"
  shows "runMultiViewAnalysis refsSet dec st video =
     \<lparr> out_editor360 =
         st\<lparr> isProcessing360 := False,
             frameViews := viewsAfter (\<lambda>j c. \<lparr> time = sampleTime (fl (1 / fps360 st)) j,
                                              variance = sc j c \<rparr>) k (frameViews st),
             progress360 :=
               (if k = 0 \<or> frameViews st = [] then Num 0
                else percent (k * length (frameViews st))
                       (\<lfloor>fl (vid_duration video * fps360 st)\<rfloor> * int (length (frameViews st)))) \<rparr>,
       out_video360 = video\<lparr> vid_paused := True \<rparr>,
       out_console360 = [], out_promise360 = Resolved \<rparr>"
proof -
  let ?d = "vid_duration video" and ?c = "fl (1 / fps360 st)" and ?vs = "frameViews st"
  let ?N = "\<lfloor>fl (vid_duration video * fps360 st)\<rfloor>"
  let ?tot = "\<lfloor>fl (vid_duration video * fps360 st)\<rfloor> * int (length (frameViews st))"
  let ?st1 = "st\<lparr> isProcessing360 := True, progress360 := Num 0,
                  frameViews := map (\<lambda>v. v\<lparr> view_frameData := [] \<rparr>) ?vs \<rparr>"
  let ?v1 = "video\<lparr> vid_paused := True \<rparr>"
  let ?smp = "\<lambda>j c. \<lparr> time = sampleTime ?c j, variance = sc j c \<rparr>"
  have init: "frameViews ?st1 = viewsAfter ?smp 0 ?vs"
    by (simp add: viewsAfter_def)
  have "multiViewLoop dec ?d ?c ?N ?tot ?vs k (k * length ?vs)
          (fst (multiAfter ?smp ?c ?tot ?vs k (?st1, ?v1))) (snd (multiAfter ?smp ?c ?tot ?vs k (?st1, ?v1)))
        = (Completed, fst (multiAfter ?smp ?c ?tot ?vs k (?st1, ?v1)),
                      snd (multiAfter ?smp ?c ?tot ?vs k (?st1, ?v1)))"
    using stop
  proof
    assume "int k = ?N + 1"
    then have "\<not> int k \<le> ?N" by simp
    then show ?thesis by (rule multiViewLoop_done)
  next
    assume "?d < sampleTime ?c k"
    then show ?thesis by (rule multiViewLoop_break)
  qed
  then have loop: "multiViewLoop dec ?d ?c ?N ?tot ?vs 0 0 ?st1 ?v1
        = (Completed, fst (multiAfter ?smp ?c ?tot ?vs k (?st1, ?v1)),
                      snd (multiAfter ?smp ?c ?tot ?vs k (?st1, ?v1)))"
    unfolding multiViewLoop_prefix [OF d init k ok] .
  have f0: "fps360 st \<noteq> 0" using fpos by simp
  show ?thesis
    using refs f0 by (auto simp: runMultiViewAnalysis_def Let_def loop multiAfter_def viewsAfter_def)
qed

lemma runMultiViewAnalysis_failure_source:
  assumes refs: "refsSet" and fpos: "0 < fps360 st"
      and d: "distinct (map view_id (frameViews st))"
      and k: "int k \<le> \<lfloor>fl (vid_duration video * fps360 st)\<rfloor>"
      and ok: "\<forall>j < k. sampleTime (fl (1 / fps360 st)) j \<le> vid_duration video
                 \<and> seekCompletes dec (sampleTime (fl (1 / fps360 st)) j)
                 \<and> sourceAt dec (sampleTime (fl (1 / fps360 st)) j) = Inr (src j)
                 \<and> (\<forall>c \<in> set (frameViews st). analyseView dec (src j) c = Inr (sc j c))"
      and tk: "sampleTime (fl (1 / fps360 st)) k \<le> vid_duration video"
      and seekk: "seekCompletes dec (sampleTime (fl (1 / fps360 st)) k)"
      and fail: "sourceAt dec (sampleTime (fl (1 / fps360 st)) k) = Inl e"
  shows "runMultiViewAnalysis refsSet dec st video =
     \<lparr> out_editor360 =
         st\<lparr> isProcessing360 := False,
             frameViews := viewsAfter (\<lambda>j c. \<lparr> time = sampleTime (fl (1 / fps360 st)) j,
                                              variance = sc j c \<rparr>) k (frameViews st),
             progress360 :=
               (if k = 0 \<or> frameViews st = [] then Num 0
                else percent (k * length (frameViews st))
                       (\<lfloor>fl (vid_duration video * fps360 st)\<rfloor> * int (length (frameViews st)))) \<rparr>,
       out_video360 = video\<lparr> vid_paused := True \<rparr>,
       out_console360 = [e], out_promise360 = Resolved \<rparr>"
proof -
  let ?d = "vid_duration video" and ?c = "fl (1 / fps360 st)" and ?vs = "frameViews st"
  let ?N = "\<lfloor>fl (vid_duration video * fps360 st)\<rfloor>"
  let ?tot = "\<lfloor>fl (vid_duration video * fps360 st)\<rfloor> * int (length (frameViews st))"
  let ?st1 = "st\<lparr> isProcessing360 := True, progress360 := Num 0,
                  frameViews := map (\<lambda>v. v\<lparr> view_frameData := [] \<rparr>) ?vs \<rparr>"
  let ?v1 = "video\<lparr> vid_paused := True \<rparr>"
  let ?smp = "\<lambda>j c. \<lparr> time = sampleTime ?c j, variance = sc j c \<rparr>"
  have k1: "int k \<le> ?N + 1"
    using k by simp
  have init: "frameViews ?st1 = viewsAfter ?smp 0 ?vs"
    by (simp add: viewsAfter_def)
  have loop: "multiViewLoop dec ?d ?c ?N ?tot ?vs 0 0 ?st1 ?v1
        = (Threw e, fst (multiAfter ?smp ?c ?tot ?vs k (?st1, ?v1)),
             (snd (multiAfter ?smp ?c ?tot ?vs k (?st1, ?v1)))\<lparr> vid_currentTime := sampleTime ?c k \<rparr>)"
    unfolding multiViewLoop_prefix [OF d init k1 ok]
    by (rule multiViewLoop_fail_source [OF k tk seekk fail])
  have f0: "fps360 st \<noteq> 0" using fpos by simp
  show ?thesis
    using refs f0 by (auto simp: runMultiViewAnalysis_def Let_def loop multiAfter_def viewsAfter_def)
qed

lemma runMultiViewAnalysis_failure_view:
  assumes refs: "refsSet" and fpos: "0 < fps360 st"
      and d: "distinct (map view_id (frameViews st))"
      and k: "int k \<le> \<lfloor>fl (vid_duration video * fps360 st)\<rfloor>"
      and ok: "\<forall>j < k. sampleTime (fl (1 / fps360 st)) j \<le> vid_duration video
                 \<and> seekCompletes dec (sampleTime (fl (1 / fps360 st)) j)
                 \<and> sourceAt dec (sampleTime (fl (1 / fps360 st)) j) = Inr (src j)
                 \<and> (\<forall>c \<in> set (frameViews st). analyseView dec (src j) c = Inr (sc j c))"
      and tk: "sampleTime (fl (1 / fps360 st)) k \<le> vid_duration video"
      and seekk: "seekCompletes dec (sampleTime (fl (1 / fps360 st)) k)"
      and srck: "sourceAt dec (sampleTime (fl (1 / fps360 st)) k) = Inr (src k)"
      and split: "frameViews st = pre @ c # post"
      and okpre: "\<forall>c' \<in> set pre. analyseView dec (src k) c' = Inr (sc k c')"
      and fail: "analyseView dec (src k) c = Inl e"
  shows "runMultiViewAnalysis refsSet dec st video =
     \<lparr> out_editor360 =
         st\<lparr> isProcessing360 := False,
             frameViews :=
               stampViews (sampleTime (fl (1 / fps360 st)) k)
                 (map_of (map (\<lambda>c. (view_id c, sc k c)) pre))
                 (viewsAfter (\<lambda>j c. \<lparr> time = sampleTime (fl (1 / fps360 st)) j,
                                      variance = sc j c \<rparr>) k (frameViews st)),
             progress360 :=
               (if k = 0 \<and> pre = [] then Num 0
                else percent (k * length (frameViews st) + length pre)
                       (\<lfloor>fl (vid_duration video * fps360 st)\<rfloor> * int (length (frameViews st)))) \<rparr>,
       out_video360 = video\<lparr> vid_paused := True \<rparr>,
       out_console360 = [e], out_promise360 = Resolved \<rparr>"
proof -
  let ?d = "vid_duration video" and ?c = "fl (1 / fps360 st)" and ?vs = "frameViews st"
  let ?N = "\<lfloor>fl (vid_duration video * fps360 st)\<rfloor>"
  let ?tot = "\<lfloor>fl (vid_duration video * fps360 st)\<rfloor> * int (length (frameViews st))"
  let ?st1 = "st\<lparr> isProcessing360 := True, progress360 := Num 0,
                  frameViews := map (\<lambda>v. v\<lparr> view_frameData := [] \<rparr>) ?vs \<rparr>"
  let ?v1 = "video\<lparr> vid_paused := True \<rparr>"
  let ?smp = "\<lambda>j c. \<lparr> time = sampleTime ?c j, variance = sc j c \<rparr>"
  let ?sk = "fst (multiAfter ?smp ?c ?tot ?vs k (?st1, ?v1))"
  let ?vk = "snd (multiAfter ?smp ?c ?tot ?vs k (?st1, ?v1))"
  have k1: "int k \<le> ?N + 1"
    using k by simp
  have init: "frameViews ?st1 = viewsAfter ?smp 0 ?vs"
    by (simp add: viewsAfter_def)
  have dpre: "distinct (map view_id pre)"
    using d split by simp
  from viewsLoop_fail [OF dpre okpre fail, of "sampleTime ?c k" ?tot post "k * length ?vs" ?sk]
  obtain st' where
    st': "viewsLoop dec (src k) (sampleTime ?c k) ?tot (pre @ c # post) (k * length ?vs) ?sk
            = (Some e, k * length ?vs + length pre, st')"
         "frameViews st' = stampViews (sampleTime ?c k)
                             (map_of (map (\<lambda>c. (view_id c, sc k c)) pre)) (frameViews ?sk)"
         "progress360 st' = (if pre = [] then progress360 ?sk
                             else percent (k * length ?vs + length pre) ?tot)"
         "st' = ?sk\<lparr> frameViews := frameViews st', progress360 := progress360 st' \<rparr>"
    by blast
  have vl: "viewsLoop dec (src k) (sampleTime ?c k) ?tot ?vs (k * length ?vs) ?sk
            = (Some e, k * length ?vs + length pre, st')"
    using st'(1) split by simp
  have loop: "multiViewLoop dec ?d ?c ?N ?tot ?vs 0 0 ?st1 ?v1
        = (Threw e, st', ?vk\<lparr> vid_currentTime := sampleTime ?c k \<rparr>)"
    unfolding multiViewLoop_prefix [OF d init k1 ok]
    by (rule multiViewLoop_fail_view [OF k tk seekk srck vl])
  have fv: "frameViews st' = stampViews (sampleTime ?c k)
               (map_of (map (\<lambda>c. (view_id c, sc k c)) pre))
               (viewsAfter ?smp k ?vs)"
    unfolding st'(2) frameViews_multiAfter [OF init] by simp
  have ne: "?vs \<noteq> []" using split by simp
  have pr: "progress360 st' = (if k = 0 \<and> pre = [] then Num 0
                else percent (k * length ?vs + length pre) ?tot)"
    unfolding st'(3) using ne by (simp add: multiAfter_def)
  have st'_eq: "st' = st\<lparr> isProcessing360 := True, frameViews := frameViews st',
                          progress360 := progress360 st' \<rparr>"
    by (subst st'(4)) (simp add: multiAfter_def)
  have f0: "fps360 st \<noteq> 0" using fpos by simp
  have run: "runMultiViewAnalysis refsSet dec st video =
       \<lparr> out_editor360 = st'\<lparr> isProcessing360 := False \<rparr>,
         out_video360 = video\<lparr> vid_paused := True \<rparr>,
         out_console360 = [e], out_promise360 = Resolved \<rparr>"
    using refs f0 by (simp add: runMultiViewAnalysis_def Let_def loop multiAfter_def)
  show ?thesis
    unfolding run by (subst st'_eq) (simp add: fv pr)
qed

lemma runMultiViewAnalysis_stall:
  assumes refs: "refsSet" and fpos: "0 < fps360 st"
      and d: "distinct (map view_id (frameViews st))"
      and k: "int k \<le> \<lfloor>fl (vid_duration video * fps360 st)\<rfloor>"
      and ok: "\<forall>j < k. sampleTime (fl (1 / fps360 st)) j \<le> vid_duration video
                 \<and> seekCompletes dec (sampleTime (fl (1 / fps360 st)) j)
                 \<and> sourceAt dec (sampleTime (fl (1 / fps360 st)) j) = Inr (src j)
                 \<and> (\<forall>c \<in> set (frameViews st). analyseView dec (src j) c = Inr (sc j c))"
      and tk: "sampleTime (fl (1 / fps360 st)) k \<le> vid_duration video"
      and stall: "\<not> seekCompletes dec (sampleTime (fl (1 / fps360 st)) k)"
  shows "runMultiViewAnalysis refsSet dec st video =
     \<lparr> out_editor360 =
         st\<lparr> isProcessing360 := True,
             frameViews := viewsAfter (\<lambda>j c. \<lparr> time = sampleTime (fl (1 / fps360 st)) j,
                                              variance = sc j c \<rparr>) k (frameViews st),
             progress360 :=
               (if k = 0 \<or> frameViews st = [] then Num 0
                else percent (k * length (frameViews st))
                       (\<lfloor>fl (vid_duration video * fps360 st)\<rfloor> * int (length (frameViews st)))) \<rparr>,
       out_video360 = video\<lparr> vid_paused := True,
                             vid_currentTime := sampleTime (fl (1 / fps360 st)) k \<rparr>,
       out_console360 = [], out_promise360 = Pending \<rparr>"
proof -
  let ?d = "vid_duration video" and ?c = "fl (1 / fps360 st)" and ?vs = "frameViews st"
  let ?N = "\<lfloor>fl (vid_duration video * fps360 st)\<rfloor>"
  let ?tot = "\<lfloor>fl (vid_duration video * fps360 st)\<rfloor> * int (length (frameViews st))"
  let ?st1 = "st\<lparr> isProcessing360 := True, progress360 := Num 0,
                  frameViews := map (\<lambda>v. v\<lparr> view_frameData := [] \<rparr>) ?vs \<rparr>"
  let ?v1 = "video\<lparr> vid_paused := True \<rparr>"
  let ?smp = "\<lambda>j c. \<lparr> time = sampleTime ?c j, variance = sc j c \<rparr>"
  have k1: "int k \<le> ?N + 1"
    using k by simp
  have init: "frameViews ?st1 = viewsAfter ?smp 0 ?vs"
    by (simp add: viewsAfter_def)
  have loop: "multiViewLoop dec ?d ?c ?N ?tot ?vs 0 0 ?st1 ?v1
        = (Suspended, fst (multiAfter ?smp ?c ?tot ?vs k (?st1, ?v1)),
             (snd (multiAfter ?smp ?c ?tot ?vs k (?st1, ?v1)))\<lparr> vid_currentTime := sampleTime ?c k \<rparr>)"
    unfolding multiViewLoop_prefix [OF d init k1 ok]
    by (rule multiViewLoop_stall [OF k tk stall])
  have f0: "fps360 st \<noteq> 0" using fpos by simp
  show ?thesis
    using refs f0 by (auto simp: runMultiViewAnalysis_def Let_def loop multiAfter_def viewsAfter_def)
qed

lemma analyseFrame_time:
  "analyseFrame frameAt video t = Inr smp \<Longrightarrow> time smp = t"
  by (auto simp: analyseFrame_def split: sum.splits prod.splits)

text \<open>
  The indices that pass the guard \<open>time > duration\<close> form an initial segment, because the
  sample times increase.
\<close>

lemma filter_prefix:
  assumes "\<forall>j k. j < k \<and> k < n \<and> P k \<longrightarrow> P j"
  shows "\<exists>m \<le> n. filter P [0..<n] = [0..<m] \<and> (\<forall>j < m. P j) \<and> (m < n \<longrightarrow> \<not> P m)"
  using assms
proof (induction n)
  case 0
  then show ?case by simp
next
  case (Suc n)
  have down: "\<forall>j k. j < k \<and> k < n \<and> P k \<longrightarrow> P j"
    using Suc.prems by (meson less_Suc_eq)
  from Suc.IH [OF down] obtain m where
    m: "m \<le> n" "filter P [0..<n] = [0..<m]" "\<forall>j < m. P j" "m < n \<longrightarrow> \<not> P m"
    by blast
  show ?case
  proof (cases "P n")
    case True
    have all: "\<forall>j < n. P j"
      using Suc.prems True by (meson lessI)
    have "m = n"
      using m(1,4) all by (cases "m < n") simp_all
    then have "filter P [0..<Suc n] = [0..<Suc n]"
      using m(2) True by simp
    moreover have "\<forall>j < Suc n. P j"
      using all True by (simp add: less_Suc_eq)
    ultimately show ?thesis by blast
  next
    case False
    have "filter P [0..<Suc n] = [0..<m]"
      using m(2) False by simp
    moreover have "m < Suc n \<longrightarrow> \<not> P m"
      using m(1,4) False by (cases "m = n") simp_all
    ultimately show ?thesis
      using m(1,3) by (intro exI [of _ m]) simp
  qed
qed

lemma sample_indices:
  assumes c: "0 < c" and n: "real n \<le> 2 ^ 52"
  shows "\<exists>m \<le> n. filter (\<lambda>i. sampleTime c i \<le> d) [0..<n] = [0..<m]
           \<and> (\<forall>j < m. sampleTime c j \<le> d)
           \<and> (m < n \<longrightarrow> d < sampleTime c m)
           \<and> (0 < n \<and> sampleTime c (n - 1) \<le> d \<longrightarrow> m = n)"
proof -
  have down: "sampleTime c j \<le> d" if "j < k" "k < n" "sampleTime c k \<le> d" for j k
  proof -
    have "real k \<le> 2 ^ 52" using that(2) n by simp
    from sampleTime_less [OF c that(1) this] that(3) show ?thesis by simp
  qed
  then have "\<forall>j k. j < k \<and> k < n \<and> sampleTime c k \<le> d \<longrightarrow> sampleTime c j \<le> d"
    by blast
  from filter_prefix [of n "\<lambda>i. sampleTime c i \<le> d", OF this] obtain m where
    m: "m \<le> n" "filter (\<lambda>i. sampleTime c i \<le> d) [0..<n] = [0..<m]"
       "\<forall>j < m. sampleTime c j \<le> d" "m < n \<longrightarrow> \<not> sampleTime c m \<le> d"
    by blast
  have last: "m = n" if l: "0 < n" "sampleTime c (n - 1) \<le> d"
  proof (rule ccontr)
    assume "m \<noteq> n"
    then have mn: "m < n" using m(1) by simp
    have "sampleTime c m \<le> d"
    proof (cases "m = n - 1")
      case True
      then show ?thesis using l(2) by simp
    next
      case False
      then have "m < n - 1" using mn by simp
      from down [OF this _ l(2)] l(1) show ?thesis by simp
    qed
    then show False using m(4) mn by simp
  qed
  have "m \<le> n \<and> filter (\<lambda>i. sampleTime c i \<le> d) [0..<n] = [0..<m]
           \<and> (\<forall>j < m. sampleTime c j \<le> d)
           \<and> (m < n \<longrightarrow> d < sampleTime c m)
           \<and> (0 < n \<and> sampleTime c (n - 1) \<le> d \<longrightarrow> m = n)"
    using m last by (simp add: not_le)
  then show ?thesis by blast
qed

lemma sorted_sampleTimes:
  assumes c: "0 < c" and m: "real m \<le> 2 ^ 52"
  shows "sorted_wrt (<) (map (sampleTime c) [0..<m])"
proof -
  have "sorted_wrt (\<lambda>j k. sampleTime c j < sampleTime c k) [0..<m]"
  proof (rule sorted_wrt_mono_rel [of _ "(<)"])
    fix j k assume "j \<in> set [0..<m]" "k \<in> set [0..<m]" "j < k"
    then have "real k \<le> 2 ^ 52" using m by simp
    from sampleTime_less [OF c \<open>j < k\<close> this] show "sampleTime c j < sampleTime c k" .
  qed simp
  then show ?thesis by (simp add: sorted_wrt_map)
qed

lemma frames_bound:
  assumes f: "0 < f" and x: "fl (d * f) < 2 ^ 52" and d: "0 \<le> d"
  shows "0 \<le> \<lfloor>fl (d * f)\<rfloor>" and "real (nat \<lfloor>fl (d * f)\<rfloor> + 1) \<le> 2 ^ 52"
proof -
  have "0 \<le> fl (d * f)" using f d by (intro fl_nonneg) simp
  then show nn: "0 \<le> \<lfloor>fl (d * f)\<rfloor>" by simp
  have "\<lfloor>fl (d * f)\<rfloor> < 2 ^ 52"
    using x by (simp add: floor_less_iff)
  then have "nat \<lfloor>fl (d * f)\<rfloor> + 1 \<le> 2 ^ 52"
    using nn by (simp add: nat_less_iff Suc_le_eq)
  then have "real (nat \<lfloor>fl (d * f)\<rfloor> + 1) \<le> real (2 ^ 52)"
    by (rule of_nat_mono)
  then show "real (nat \<lfloor>fl (d * f)\<rfloor> + 1) \<le> 2 ^ 52" by simp
qed

lemma sample_count:
  assumes c: "0 < c" and N: "0 \<le> N" and n: "real (nat N + 1) \<le> 2 ^ 52"
  shows "\<exists>m. m \<le> nat N + 1 \<and> int m \<le> N + 1
           \<and> filter (\<lambda>i. sampleTime c i \<le> d) [0..<nat N + 1] = [0..<m]
           \<and> (\<forall>j < m. int j \<le> N \<and> sampleTime c j \<le> d)
           \<and> (int m = N + 1 \<or> d < sampleTime c m)
           \<and> (sampleTime c (nat N) \<le> d \<longrightarrow> m = nat N + 1)"
proof -
  define n where "n = nat N + 1"
  have n': "real n \<le> 2 ^ 52" using n by (simp add: n_def)
  from sample_indices [OF c n', of d] obtain m where
    m: "m \<le> n" "filter (\<lambda>i. sampleTime c i \<le> d) [0..<n] = [0..<m]"
       "\<forall>j < m. sampleTime c j \<le> d" "m < n \<longrightarrow> d < sampleTime c m"
       "0 < n \<and> sampleTime c (n - 1) \<le> d \<longrightarrow> m = n"
    by blast
  have 1: "int m \<le> N + 1" using m(1) N by (simp add: n_def)
  have 2: "\<forall>j < m. int j \<le> N \<and> sampleTime c j \<le> d"
  proof (intro allI impI conjI)
    fix j assume "j < m"
    then have "j < n" using m(1) by simp
    then show "int j \<le> N" using N by (simp add: n_def)
    show "sampleTime c j \<le> d" using m(3) \<open>j < m\<close> by simp
  qed
  have 3: "int m = N + 1 \<or> d < sampleTime c m"
  proof (cases "m < n")
    case True
    then show ?thesis using m(4) by simp
  next
    case False
    then have "m = n" using m(1) by simp
    then show ?thesis using N by (simp add: n_def)
  qed
  have 4: "sampleTime c (nat N) \<le> d \<longrightarrow> m = nat N + 1"
    using m(5) by (simp add: n_def)
  show ?thesis
    using m(1,2) 1 2 3 4 unfolding n_def by blast
qed

text \<open>The planar run when every sample within the duration can be taken.\<close>

lemma runAnalysis_samples:
  assumes refs: "refsSet" and fpos: "0 < fps st" and dur: "0 \<le> vid_duration video"
      and big: "fl (vid_duration video * fps st) < 2 ^ 52"
      and ok: "\<forall>i. int i \<le> \<lfloor>fl (vid_duration video * fps st)\<rfloor>
                   \<and> sampleTime (fl (1 / fps st)) i \<le> vid_duration video \<longrightarrow>
                 seeked (sampleTime (fl (1 / fps st)) i)
                 \<and> analyseFrame frameAt video (sampleTime (fl (1 / fps st)) i) = Inr (s i)"
  shows "\<exists>m \<le> nat \<lfloor>fl (vid_duration video * fps st)\<rfloor> + 1.
     filter (\<lambda>i. sampleTime (fl (1 / fps st)) i \<le> vid_duration video)
         [0..<nat \<lfloor>fl (vid_duration video * fps st)\<rfloor> + 1] = [0..<m]
     \<and> (\<forall>j < m. sampleTime (fl (1 / fps st)) j \<le> vid_duration video)
     \<and> (sampleTime (fl (1 / fps st)) (nat \<lfloor>fl (vid_duration video * fps st)\<rfloor>) \<le> vid_duration video
          \<longrightarrow> m = nat \<lfloor>fl (vid_duration video * fps st)\<rfloor> + 1)
     \<and> runAnalysis refsSet seeked frameAt st video =
        \<lparr> out_editor = st\<lparr> isProcessing := False,
                            frameData := map s [0..<m],
                            progress := (if m = 0 then Num 0
                                         else percent m \<lfloor>fl (vid_duration video * fps st)\<rfloor>) \<rparr>,
          out_video = video\<lparr> vid_paused := True \<rparr>,
          out_console = [], out_promise = Resolved \<rparr>"
proof -
  let ?d = "vid_duration video" and ?c = "fl (1 / fps st)"
  let ?N = "\<lfloor>fl (vid_duration video * fps st)\<rfloor>"
  have c: "0 < ?c" using fpos by (intro fl_pos) simp
  note nb = frames_bound [OF fpos big dur]
  from sample_count [OF c nb, of ?d] obtain m where
    m: "m \<le> nat ?N + 1" "int m \<le> ?N + 1"
       "filter (\<lambda>i. sampleTime ?c i \<le> ?d) [0..<nat ?N + 1] = [0..<m]"
       "\<forall>j < m. int j \<le> ?N \<and> sampleTime ?c j \<le> ?d"
       "int m = ?N + 1 \<or> ?d < sampleTime ?c m"
       "sampleTime ?c (nat ?N) \<le> ?d \<longrightarrow> m = nat ?N + 1"
    by (elim exE conjE)
  have okm: "\<forall>j < m. sampleTime ?c j \<le> ?d \<and> seeked (sampleTime ?c j)
               \<and> analyseFrame frameAt video (sampleTime ?c j) = Inr (s j)"
  proof (intro allI impI)
    fix j assume jm: "j < m"
    from m(4) [rule_format, OF jm] have a: "int j \<le> ?N \<and> sampleTime ?c j \<le> ?d" .
    from ok [rule_format, OF a] a
    show "sampleTime ?c j \<le> ?d \<and> seeked (sampleTime ?c j)
               \<and> analyseFrame frameAt video (sampleTime ?c j) = Inr (s j)"
      by (intro conjI) (elim conjE, assumption)+
  qed
  have tm: "\<forall>j < m. sampleTime ?c j \<le> ?d"
    using m(4) by (intro allI impI) (elim allE impE, assumption, elim conjE, assumption)
  note run = runAnalysis_complete [where seeked = seeked, OF refs fpos m(2) okm m(5)]
  show ?thesis
    using m(1) by (intro exI [of _ m] conjI m(3) tm m(6) run)
qed

text \<open>The 360 run when every frame within the duration can be processed for every view.\<close>

lemma runMultiViewAnalysis_samples:
  assumes refs: "refsSet" and fpos: "0 < fps360 st" and dur: "0 \<le> vid_duration video"
      and big: "fl (vid_duration video * fps360 st) < 2 ^ 52"
      and d: "distinct (map view_id (frameViews st))"
      and ok: "\<forall>i. int i \<le> \<lfloor>fl (vid_duration video * fps360 st)\<rfloor>
                   \<and> sampleTime (fl (1 / fps360 st)) i \<le> vid_duration video \<longrightarrow>
                 seekCompletes dec (sampleTime (fl (1 / fps360 st)) i)
                 \<and> sourceAt dec (sampleTime (fl (1 / fps360 st)) i) = Inr (src i)
                 \<and> (\<forall>c \<in> set (frameViews st). analyseView dec (src i) c = Inr (sc i c))"
  shows "\<exists>m \<le> nat \<lfloor>fl (vid_duration video * fps360 st)\<rfloor> + 1.
     filter (\<lambda>i. sampleTime (fl (1 / fps360 st)) i \<le> vid_duration video)
         [0..<nat \<lfloor>fl (vid_duration video * fps360 st)\<rfloor> + 1] = [0..<m]
     \<and> (\<forall>j < m. sampleTime (fl (1 / fps360 st)) j \<le> vid_duration video)
     \<and> (sampleTime (fl (1 / fps360 st)) (nat \<lfloor>fl (vid_duration video * fps360 st)\<rfloor>)
            \<le> vid_duration video
          \<longrightarrow> m = nat \<lfloor>fl (vid_duration video * fps360 st)\<rfloor> + 1)
     \<and> runMultiViewAnalysis refsSet dec st video =
        \<lparr> out_editor360 =
            st\<lparr> isProcessing360 := False,
                frameViews := viewsAfter (\<lambda>j c. \<lparr> time = sampleTime (fl (1 / fps360 st)) j,
                                                 variance = sc j c \<rparr>) m (frameViews st),
                progress360 :=
                  (if m = 0 \<or> frameViews st = [] then Num 0
                   else percent (m * length (frameViews st))
                          (\<lfloor>fl (vid_duration video * fps360 st)\<rfloor> * int (length (frameViews st)))) \<rparr>,
          out_video360 = video\<lparr> vid_paused := True \<rparr>,
          out_console360 = [], out_promise360 = Resolved \<rparr>"
proof -
  let ?d = "vid_duration video" and ?c = "fl (1 / fps360 st)"
  let ?N = "\<lfloor>fl (vid_duration video * fps360 st)\<rfloor>"
  have c: "0 < ?c" using fpos by (intro fl_pos) simp
  note nb = frames_bound [OF fpos big dur]
  from sample_count [OF c nb, of ?d] obtain m where
    m: "m \<le> nat ?N + 1" "int m \<le> ?N + 1"
       "filter (\<lambda>i. sampleTime ?c i \<le> ?d) [0..<nat ?N + 1] = [0..<m]"
       "\<forall>j < m. int j \<le> ?N \<and> sampleTime ?c j \<le> ?d"
       "int m = ?N + 1 \<or> ?d < sampleTime ?c m"
       "sampleTime ?c (nat ?N) \<le> ?d \<longrightarrow> m = nat ?N + 1"
    by (elim exE conjE)
  have okm: "\<forall>j < m. sampleTime ?c j \<le> ?d \<and> seekCompletes dec (sampleTime ?c j)
               \<and> sourceAt dec (sampleTime ?c j) = Inr (src j)
               \<and> (\<forall>c \<in> set (frameViews st). analyseView dec (src j) c = Inr (sc j c))"
  proof (intro allI impI)
    fix j assume jm: "j < m"
    from m(4) [rule_format, OF jm] have a: "int j \<le> ?N \<and> sampleTime ?c j \<le> ?d" .
    from ok [rule_format, OF a] a
    show "sampleTime ?c j \<le> ?d \<and> seekCompletes dec (sampleTime ?c j)
               \<and> sourceAt dec (sampleTime ?c j) = Inr (src j)
               \<and> (\<forall>c \<in> set (frameViews st). analyseView dec (src j) c = Inr (sc j c))"
      by (intro conjI) (elim conjE, assumption)+
  qed
  have tm: "\<forall>j < m. sampleTime ?c j \<le> ?d"
    using m(4) by (intro allI impI) (elim allE impE, assumption, elim conjE, assumption)
  note run = runMultiViewAnalysis_complete [OF refs fpos d m(2) okm m(5)]
  show ?thesis
    using m(1) by (intro exI [of _ m] conjI m(3) tm m(6) run)
qed

lemma computeLaplacianVariance_returns:
  "w \<noteq> 0 \<Longrightarrow> h \<noteq> 0 \<Longrightarrow> \<exists>x. computeLaplacianVariance ctx w h = Inr x"
  by (simp add: computeLaplacianVariance_def getImageData_def)

lemma analyseFrame_uniform:
  "analyseFrame (\<lambda>t. Inr uniformCanvas) (exampleVideo d) t = Inr \<lparr> time = t, variance = Num 0 \<rparr>"
  by (simp add: analyseFrame_def exampleVideo_def analysisSize_def computeLaplacianVariance_uniform)

lemma distinct_skybox: "distinct (map view_id createSkyboxFrameViews)"
  by (simp add: createSkyboxFrameViews_def CUBEMAP_FACES_def)

text \<open>The intervals of the rates 2, 3 and 6, and some of their sample times.\<close>

lemma fl_half: "fl (1 / 2) = 1 / 2"
  by (subst fl_eval [where e = "- 1"]) (simp_all add: round_even_def)

lemma fl_third: "fl (1 / 3) = 6004799503160661 / 2 ^ 54"
  by (subst fl_eval [where e = "- 2"]) (simp_all add: round_even_def)

lemma fl_sixth: "fl (1 / 6) = 6004799503160661 / 2 ^ 55"
  by (subst fl_eval [where e = "- 3"]) (simp_all add: round_even_def)

lemma sampleTime_half: "sampleTime (1 / 2) 1 = 1 / 2" "sampleTime (1 / 2) 2 = 1"
  unfolding sampleTime_def
  by (simp_all add: fl_half fl_one)

lemma sampleTime_third_4:
  "sampleTime (6004799503160661 / 2 ^ 54) 4 = 6004799503160661 / 4503599627370496"
  unfolding sampleTime_def
  by (subst fl_eval [where e = 0]) (simp_all add: round_even_def)

lemma sampleTime_sixth:
  "sampleTime (6004799503160661 / 2 ^ 55) 1 = 6004799503160661 / 2 ^ 55"
  "sampleTime (6004799503160661 / 2 ^ 55) 2 = 6004799503160661 / 2 ^ 54"
  "sampleTime (6004799503160661 / 2 ^ 55) 3 = 1 / 2"
  "sampleTime (6004799503160661 / 2 ^ 55) 12 = 2"
  unfolding sampleTime_def
     apply (subst fl_eval [where e = "- 3"]; simp add: round_even_def)
    apply (subst fl_eval [where e = "- 2"]; simp add: round_even_def)
   apply (subst fl_eval [where e = "- 2"]; simp add: round_even_def)
  apply (subst fl_eval [where e = 0]; simp add: round_even_def)
  done

text \<open>
  Claim C5, as stated, gives the wrong count where the product \<open>d * fps\<close> is rounded up to a
  whole number.  For the duration 1.3333333333333333, the double just below \<open>4 / 3\<close>, and 3
  samples per second, \<open>\<lfloor>d * fps\<rfloor> + 1\<close> is 4 over the reals; but the product is the double
  \<open>4.0\<close>, the loop runs up to index 4, the time \<open>4 * (1 / 3)\<close> of that index is rounded to \<open>d\<close>
  itself and passes the guard, and 5 samples are taken.
\<close>

theorem analysis_samples_rounded_count:
  "length (frameData (out_editor (runAnalysis True (\<lambda>t. True) (\<lambda>t. Inr uniformCanvas)
             (exampleEditor\<lparr> fps := 3 \<rparr>) (exampleVideo (6004799503160661 / 4503599627370496))))) = 5
   \<and> out_promise (runAnalysis True (\<lambda>t. True) (\<lambda>t. Inr uniformCanvas)
             (exampleEditor\<lparr> fps := 3 \<rparr>) (exampleVideo (6004799503160661 / 4503599627370496)))
       = Resolved
   \<and> nat \<lfloor>(6004799503160661 / 4503599627370496 :: real) * 3\<rfloor> + 1 = 4"
proof -
  let ?st = "exampleEditor\<lparr> fps := 3 \<rparr>"
  let ?v = "exampleVideo (6004799503160661 / 4503599627370496)"
  let ?s = "\<lambda>i. \<lparr> time = sampleTime (fl (1 / fps ?st)) i, variance = Num 0 \<rparr>"
  have f: "fps ?st = 3" by simp
  have d: "vid_duration ?v = 6004799503160661 / 4503599627370496"
    by (simp add: exampleVideo_def)
  have x: "fl (vid_duration ?v * fps ?st) = 4"
    unfolding f d by (subst fl_eval [where e = 1]) (simp_all add: round_even_def)
  have n: "nat \<lfloor>fl (vid_duration ?v * fps ?st)\<rfloor> = 4"
    unfolding x by simp
  have t4: "sampleTime (fl (1 / fps ?st)) 4 \<le> vid_duration ?v"
    unfolding f d fl_third sampleTime_third_4 by simp
  have ok: "\<forall>i. int i \<le> \<lfloor>fl (vid_duration ?v * fps ?st)\<rfloor>
                   \<and> sampleTime (fl (1 / fps ?st)) i \<le> vid_duration ?v \<longrightarrow>
                 (\<lambda>t. True) (sampleTime (fl (1 / fps ?st)) i)
                 \<and> analyseFrame (\<lambda>t. Inr uniformCanvas) ?v (sampleTime (fl (1 / fps ?st)) i) = Inr (?s i)"
    by (simp add: analyseFrame_uniform)
  from runAnalysis_samples [where seeked = "\<lambda>t. True" and s = ?s, OF TrueI _ _ _ ok]
  obtain m where
    m: "sampleTime (fl (1 / fps ?st)) (nat \<lfloor>fl (vid_duration ?v * fps ?st)\<rfloor>) \<le> vid_duration ?v
          \<longrightarrow> m = nat \<lfloor>fl (vid_duration ?v * fps ?st)\<rfloor> + 1"
       "runAnalysis True (\<lambda>t. True) (\<lambda>t. Inr uniformCanvas) ?st ?v =
        \<lparr> out_editor = ?st\<lparr> isProcessing := False,
                            frameData := map ?s [0..<m],
                            progress := (if m = 0 then Num 0
                                         else percent m \<lfloor>fl (vid_duration ?v * fps ?st)\<rfloor>) \<rparr>,
          out_video = ?v\<lparr> vid_paused := True \<rparr>,
          out_console = [], out_promise = Resolved \<rparr>"
    unfolding x by (auto simp: d)
  have "m = 5" using m(1) t4 unfolding n by simp
  then show ?thesis
    unfolding m(2) by simp
qed

text \<open>
  Claim C5, amended.  Times and counts are the doubles the driver computes: the interval
  is \<open>1 / fps\<close>, rounded; the time of sample \<open>i\<close> is \<open>i * interval\<close>, rounded; the last index
  is the floor of the rounded product \<open>d * fps\<close>.  Over a video of duration \<open>d \<ge> 0\<close> at a
  rate \<open>fps\<close> between \<open>2\<^sup>-\<^sup>1\<^sup>0\<^sup>2\<^sup>2\<close> and \<open>2\<^sup>1\<^sup>0\<^sup>2\<^sup>2\<close>, where the interval neither overflows nor
  underflows (with \<open>d * fps\<close> below \<open>2\<^sup>5\<^sup>2\<close>), when every seek completes and every frame decodes,
  the run returns (its promise resolves, nothing is logged) and leaves in the planar editor,
  and in every view of the 360 editor (view ids are distinct), exactly the samples of the
  indices \<open>i = 0, \<dots>, \<lfloor>d * fps\<rfloor>\<close> whose time is at most \<open>d\<close>, in this order: at most
  \<open>\<lfloor>d * fps\<rfloor> + 1\<close> samples, and exactly that many when the time of the last index is at
  most \<open>d\<close>; their times increase strictly and lie between \<open>0\<close> and \<open>d\<close>.  The frame data held
  before the run is replaced, not extended.
\<close>

theorem analysis_samples:
  "(refsSet \<and> 1 / 2 ^ 1022 \<le> fps st \<and> fps st \<le> 2 ^ 1022
      \<and> 0 \<le> vid_duration video \<and> fl (vid_duration video * fps st) < 2 ^ 52
      \<and> (\<forall>i. int i \<le> \<lfloor>fl (vid_duration video * fps st)\<rfloor>
                \<and> sampleTime (fl (1 / fps st)) i \<le> vid_duration video \<longrightarrow>
               seeked (sampleTime (fl (1 / fps st)) i)
               \<and> analyseFrame frameAt video (sampleTime (fl (1 / fps st)) i)
                   = Inr \<lparr> time = sampleTime (fl (1 / fps st)) i, variance = score i \<rparr>)
    \<longrightarrow> out_promise (runAnalysis refsSet seeked frameAt st video) = Resolved
        \<and> out_console (runAnalysis refsSet seeked frameAt st video) = []
        \<and> frameData (out_editor (runAnalysis refsSet seeked frameAt st video))
          = map (\<lambda>i. \<lparr> time = sampleTime (fl (1 / fps st)) i, variance = score i \<rparr>)
              (filter (\<lambda>i. sampleTime (fl (1 / fps st)) i \<le> vid_duration video)
                 [0..<nat \<lfloor>fl (vid_duration video * fps st)\<rfloor> + 1])
        \<and> length (frameData (out_editor (runAnalysis refsSet seeked frameAt st video)))
          \<le> nat \<lfloor>fl (vid_duration video * fps st)\<rfloor> + 1
        \<and> (sampleTime (fl (1 / fps st)) (nat \<lfloor>fl (vid_duration video * fps st)\<rfloor>)
              \<le> vid_duration video \<longrightarrow>
            frameData (out_editor (runAnalysis refsSet seeked frameAt st video))
              = map (\<lambda>i. \<lparr> time = sampleTime (fl (1 / fps st)) i, variance = score i \<rparr>)
                  [0..<nat \<lfloor>fl (vid_duration video * fps st)\<rfloor> + 1])
        \<and> sorted_wrt (<) (map time (frameData (out_editor (runAnalysis refsSet seeked frameAt st video))))
        \<and> (\<forall>f \<in> set (frameData (out_editor (runAnalysis refsSet seeked frameAt st video))).
              0 \<le> time f \<and> time f \<le> vid_duration video)
        \<and> frameData (out_editor (runAnalysis refsSet seeked frameAt (st\<lparr> frameData := old \<rparr>) video))
          = frameData (out_editor (runAnalysis refsSet seeked frameAt st video)))
   \<and> (refsSet \<and> 1 / 2 ^ 1022 \<le> fps360 st' \<and> fps360 st' \<le> 2 ^ 1022
      \<and> 0 \<le> vid_duration video
      \<and> fl (vid_duration video * fps360 st') < 2 ^ 52
      \<and> distinct (map view_id (frameViews st'))
      \<and> (\<forall>i. int i \<le> \<lfloor>fl (vid_duration video * fps360 st')\<rfloor>
                \<and> sampleTime (fl (1 / fps360 st')) i \<le> vid_duration video \<longrightarrow>
               seekCompletes dec (sampleTime (fl (1 / fps360 st')) i)
               \<and> sourceAt dec (sampleTime (fl (1 / fps360 st')) i) = Inr (src i)
               \<and> (\<forall>c \<in> set (frameViews st'). analyseView dec (src i) c = Inr (score' i c)))
    \<longrightarrow> out_promise360 (runMultiViewAnalysis refsSet dec st' video) = Resolved
        \<and> out_console360 (runMultiViewAnalysis refsSet dec st' video) = []
        \<and> frameViews (out_editor360 (runMultiViewAnalysis refsSet dec st' video))
          = map (\<lambda>c. c\<lparr> view_frameData :=
                          map (\<lambda>i. \<lparr> time = sampleTime (fl (1 / fps360 st')) i, variance = score' i c \<rparr>)
                            (filter (\<lambda>i. sampleTime (fl (1 / fps360 st')) i \<le> vid_duration video)
                               [0..<nat \<lfloor>fl (vid_duration video * fps360 st')\<rfloor> + 1]) \<rparr>)
              (frameViews st')
        \<and> (sampleTime (fl (1 / fps360 st')) (nat \<lfloor>fl (vid_duration video * fps360 st')\<rfloor>)
              \<le> vid_duration video \<longrightarrow>
            frameViews (out_editor360 (runMultiViewAnalysis refsSet dec st' video))
              = map (\<lambda>c. c\<lparr> view_frameData :=
                          map (\<lambda>i. \<lparr> time = sampleTime (fl (1 / fps360 st')) i, variance = score' i c \<rparr>)
                            [0..<nat \<lfloor>fl (vid_duration video * fps360 st')\<rfloor> + 1] \<rparr>)
                  (frameViews st'))
        \<and> (\<forall>v \<in> set (frameViews (out_editor360 (runMultiViewAnalysis refsSet dec st' video))).
              length (view_frameData v) \<le> nat \<lfloor>fl (vid_duration video * fps360 st')\<rfloor> + 1
              \<and> sorted_wrt (<) (map time (view_frameData v))
              \<and> (\<forall>f \<in> set (view_frameData v). 0 \<le> time f \<and> time f \<le> vid_duration video)))"
proof (intro conjI impI)
  assume a: "refsSet \<and> 1 / 2 ^ 1022 \<le> fps st \<and> fps st \<le> 2 ^ 1022
      \<and> 0 \<le> vid_duration video \<and> fl (vid_duration video * fps st) < 2 ^ 52
      \<and> (\<forall>i. int i \<le> \<lfloor>fl (vid_duration video * fps st)\<rfloor>
                \<and> sampleTime (fl (1 / fps st)) i \<le> vid_duration video \<longrightarrow>
               seeked (sampleTime (fl (1 / fps st)) i)
               \<and> analyseFrame frameAt video (sampleTime (fl (1 / fps st)) i)
                   = Inr \<lparr> time = sampleTime (fl (1 / fps st)) i, variance = score i \<rparr>)"
  let ?d = "vid_duration video" and ?c = "fl (1 / fps st)"
  let ?n = "nat \<lfloor>fl (vid_duration video * fps st)\<rfloor> + 1"
  let ?s = "\<lambda>i. \<lparr> time = sampleTime ?c i, variance = score i \<rparr>"
  let ?run = "runAnalysis refsSet seeked frameAt st video"
  have low: "1 / 2 ^ 1022 \<le> fps st" using a by blast
  have "(0 :: real) < 1 / 2 ^ 1022" by simp
  then have fpos: "0 < fps st" using low by (rule less_le_trans)
  have refs: refsSet and dur: "0 \<le> ?d"
    and big: "fl (?d * fps st) < 2 ^ 52"
    and ok: "\<forall>i. int i \<le> \<lfloor>fl (?d * fps st)\<rfloor> \<and> sampleTime ?c i \<le> ?d \<longrightarrow>
               seeked (sampleTime ?c i) \<and> analyseFrame frameAt video (sampleTime ?c i) = Inr (?s i)"
    using a by blast+
  have c: "0 < ?c" using fpos by (intro fl_pos) simp
  note nb = frames_bound [OF fpos big dur]
  from runAnalysis_samples [where seeked = seeked, OF refs fpos dur big ok] obtain m where
    m: "m \<le> ?n" "filter (\<lambda>i. sampleTime ?c i \<le> ?d) [0..<?n] = [0..<m]"
       "\<forall>j < m. sampleTime ?c j \<le> ?d"
       "sampleTime ?c (nat \<lfloor>fl (?d * fps st)\<rfloor>) \<le> ?d \<longrightarrow> m = ?n"
    and run: "?run = \<lparr> out_editor = st\<lparr> isProcessing := False, frameData := map ?s [0..<m],
                            progress := (if m = 0 then Num 0
                                         else percent m \<lfloor>fl (?d * fps st)\<rfloor>) \<rparr>,
          out_video = video\<lparr> vid_paused := True \<rparr>, out_console = [], out_promise = Resolved \<rparr>"
    by (elim exE conjE)
  have fd: "frameData (out_editor ?run) = map ?s [0..<m]"
    by (simp add: run)
  have rm: "real m \<le> 2 ^ 52"
    using m(1) nb(2) by (meson of_nat_mono order_trans)
  show "out_promise ?run = Resolved" by (simp add: run)
  show "out_console ?run = []" by (simp add: run)
  show "frameData (out_editor ?run) = map ?s (filter (\<lambda>i. sampleTime ?c i \<le> ?d) [0..<?n])"
    unfolding fd m(2) ..
  show "length (frameData (out_editor ?run)) \<le> ?n"
    unfolding fd using m(1) by simp
  show "frameData (out_editor ?run) = map ?s [0..<?n]"
    if "sampleTime ?c (nat \<lfloor>fl (?d * fps st)\<rfloor>) \<le> ?d"
    unfolding fd using m(4) that by simp
  have times: "map time (map ?s [0..<m]) = map (sampleTime ?c) [0..<m]"
    by simp
  show "sorted_wrt (<) (map time (frameData (out_editor ?run)))"
    unfolding fd times by (rule sorted_sampleTimes [OF c rm])
  show "\<forall>f \<in> set (frameData (out_editor ?run)). 0 \<le> time f \<and> time f \<le> ?d"
  proof
    fix f assume "f \<in> set (frameData (out_editor ?run))"
    then have "f \<in> ?s ` set [0..<m]"
      unfolding fd by (simp only: set_map)
    then obtain i where i0: "i \<in> set [0..<m]" and i2: "f = ?s i"
      by (rule imageE)
    then have i: "i < m" by simp
    have "0 \<le> sampleTime ?c i" using c by (intro sampleTime_nonneg) simp
    moreover have "sampleTime ?c i \<le> ?d" using m(3) i by simp
    ultimately show "0 \<le> time f \<and> time f \<le> ?d" unfolding i2 by simp
  qed
  let ?st2 = "st\<lparr> frameData := old \<rparr>"
  have fpos2: "0 < fps ?st2" using fpos by simp
  have big2: "fl (?d * fps ?st2) < 2 ^ 52" using big by simp
  have ok2: "\<forall>i. int i \<le> \<lfloor>fl (?d * fps ?st2)\<rfloor> \<and> sampleTime (fl (1 / fps ?st2)) i \<le> ?d \<longrightarrow>
               seeked (sampleTime (fl (1 / fps ?st2)) i)
               \<and> analyseFrame frameAt video (sampleTime (fl (1 / fps ?st2)) i) = Inr (?s i)"
    using ok by simp
  from runAnalysis_samples [where seeked = seeked, OF refs fpos2 dur big2 ok2] obtain m' where
    m': "filter (\<lambda>i. sampleTime (fl (1 / fps ?st2)) i \<le> ?d)
            [0..<nat \<lfloor>fl (?d * fps ?st2)\<rfloor> + 1] = [0..<m']"
    and run': "runAnalysis refsSet seeked frameAt ?st2 video
        = \<lparr> out_editor = ?st2\<lparr> isProcessing := False, frameData := map ?s [0..<m'],
                            progress := (if m' = 0 then Num 0
                                         else percent m' \<lfloor>fl (?d * fps ?st2)\<rfloor>) \<rparr>,
          out_video = video\<lparr> vid_paused := True \<rparr>, out_console = [], out_promise = Resolved \<rparr>"
    by (elim exE conjE)
  have "[0..<m'] = [0..<m]"
    using m' m(2) by simp
  then show "frameData (out_editor (runAnalysis refsSet seeked frameAt ?st2 video))
          = frameData (out_editor ?run)"
    unfolding fd by (simp add: run')
next
  assume a: "refsSet \<and> 1 / 2 ^ 1022 \<le> fps360 st' \<and> fps360 st' \<le> 2 ^ 1022
      \<and> 0 \<le> vid_duration video
      \<and> fl (vid_duration video * fps360 st') < 2 ^ 52
      \<and> distinct (map view_id (frameViews st'))
      \<and> (\<forall>i. int i \<le> \<lfloor>fl (vid_duration video * fps360 st')\<rfloor>
                \<and> sampleTime (fl (1 / fps360 st')) i \<le> vid_duration video \<longrightarrow>
               seekCompletes dec (sampleTime (fl (1 / fps360 st')) i)
               \<and> sourceAt dec (sampleTime (fl (1 / fps360 st')) i) = Inr (src i)
               \<and> (\<forall>c \<in> set (frameViews st'). analyseView dec (src i) c = Inr (score' i c)))"
  let ?d = "vid_duration video" and ?c = "fl (1 / fps360 st')"
  let ?n = "nat \<lfloor>fl (vid_duration video * fps360 st')\<rfloor> + 1"
  let ?s = "\<lambda>c i. \<lparr> time = sampleTime ?c i, variance = score' i c \<rparr>"
  let ?run = "runMultiViewAnalysis refsSet dec st' video"
  have low: "1 / 2 ^ 1022 \<le> fps360 st'" using a by blast
  have "(0 :: real) < 1 / 2 ^ 1022" by simp
  then have fpos: "0 < fps360 st'" using low by (rule less_le_trans)
  have refs: refsSet and dur: "0 \<le> ?d"
    and big: "fl (?d * fps360 st') < 2 ^ 52"
    and d: "distinct (map view_id (frameViews st'))"
    and ok: "\<forall>i. int i \<le> \<lfloor>fl (?d * fps360 st')\<rfloor> \<and> sampleTime ?c i \<le> ?d \<longrightarrow>
               seekCompletes dec (sampleTime ?c i)
               \<and> sourceAt dec (sampleTime ?c i) = Inr (src i)
               \<and> (\<forall>c \<in> set (frameViews st'). analyseView dec (src i) c = Inr (score' i c))"
    using a by blast+
  have c: "0 < ?c" using fpos by (intro fl_pos) simp
  note nb = frames_bound [OF fpos big dur]
  from runMultiViewAnalysis_samples [OF refs fpos dur big d ok] obtain m where
    m: "m \<le> ?n" "filter (\<lambda>i. sampleTime ?c i \<le> ?d) [0..<?n] = [0..<m]"
       "\<forall>j < m. sampleTime ?c j \<le> ?d"
       "sampleTime ?c (nat \<lfloor>fl (?d * fps360 st')\<rfloor>) \<le> ?d \<longrightarrow> m = ?n"
    and run: "?run = \<lparr> out_editor360 =
            st'\<lparr> isProcessing360 := False,
                frameViews := viewsAfter (\<lambda>j c. \<lparr> time = sampleTime ?c j, variance = score' j c \<rparr>)
                                m (frameViews st'),
                progress360 :=
                  (if m = 0 \<or> frameViews st' = [] then Num 0
                   else percent (m * length (frameViews st'))
                          (\<lfloor>fl (?d * fps360 st')\<rfloor> * int (length (frameViews st')))) \<rparr>,
          out_video360 = video\<lparr> vid_paused := True \<rparr>,
          out_console360 = [], out_promise360 = Resolved \<rparr>"
    by (elim exE conjE)
  have fv: "frameViews (out_editor360 ?run)
          = map (\<lambda>c. c\<lparr> view_frameData := map (?s c) [0..<m] \<rparr>) (frameViews st')"
    by (simp add: run viewsAfter_def)
  have rm: "real m \<le> 2 ^ 52"
    using m(1) nb(2) by (meson of_nat_mono order_trans)
  show "out_promise360 ?run = Resolved" by (simp add: run)
  show "out_console360 ?run = []" by (simp add: run)
  show "frameViews (out_editor360 ?run)
          = map (\<lambda>c. c\<lparr> view_frameData :=
                    map (?s c) (filter (\<lambda>i. sampleTime ?c i \<le> ?d) [0..<?n]) \<rparr>) (frameViews st')"
    unfolding fv m(2) ..
  show "frameViews (out_editor360 ?run)
          = map (\<lambda>c. c\<lparr> view_frameData := map (?s c) [0..<?n] \<rparr>) (frameViews st')"
    if "sampleTime ?c (nat \<lfloor>fl (?d * fps360 st')\<rfloor>) \<le> ?d"
    unfolding fv using m(4) that by simp
  show "\<forall>v \<in> set (frameViews (out_editor360 ?run)).
              length (view_frameData v) \<le> ?n
              \<and> sorted_wrt (<) (map time (view_frameData v))
              \<and> (\<forall>f \<in> set (view_frameData v). 0 \<le> time f \<and> time f \<le> ?d)"
  proof
    fix v assume "v \<in> set (frameViews (out_editor360 ?run))"
    then have "v \<in> (\<lambda>c. c\<lparr> view_frameData := map (?s c) [0..<m] \<rparr>) ` set (frameViews st')"
      unfolding fv by (simp only: set_map)
    then obtain c where "v = c\<lparr> view_frameData := map (?s c) [0..<m] \<rparr>"
      by (rule imageE)
    then have v: "view_frameData v = map (?s c) [0..<m]"
      by simp
    have times: "map time (map (?s c) [0..<m]) = map (sampleTime ?c) [0..<m]"
      by simp
    have bound: "\<forall>f \<in> set (view_frameData v). 0 \<le> time f \<and> time f \<le> ?d"
    proof
      fix f assume "f \<in> set (view_frameData v)"
      then have "f \<in> ?s c ` set [0..<m]"
        unfolding v by (simp only: set_map)
      then obtain i where i0: "i \<in> set [0..<m]" and i2: "f = ?s c i"
        by (rule imageE)
      then have i: "i < m" by simp
      have "0 \<le> sampleTime ?c i" using \<open>0 < ?c\<close> by (intro sampleTime_nonneg) simp
      moreover have "sampleTime ?c i \<le> ?d" using m(3) i by simp
      ultimately show "0 \<le> time f \<and> time f \<le> ?d" unfolding i2 by simp
    qed
    show "length (view_frameData v) \<le> ?n
              \<and> sorted_wrt (<) (map time (view_frameData v))
              \<and> (\<forall>f \<in> set (view_frameData v). 0 \<le> time f \<and> time f \<le> ?d)"
    proof (intro conjI)
      show "length (view_frameData v) \<le> ?n"
        using m(1) by (simp add: v)
      show "sorted_wrt (<) (map time (view_frameData v))"
        unfolding v times by (rule sorted_sampleTimes [OF \<open>0 < ?c\<close> rm])
      show "\<forall>f \<in> set (view_frameData v). 0 \<le> time f \<and> time f \<le> ?d"
        by (rule bound)
    qed
  qed
qed

theorem analysis_samples_witness:
  "out_promise (runAnalysis True (\<lambda>t. True) (\<lambda>t. Inr uniformCanvas)
             (exampleEditor\<lparr> frameData := lowVarianceFrames \<rparr>) (exampleVideo 2)) = Resolved
   \<and> out_promise360 (runMultiViewAnalysis True (exampleDecoder 100 100 ''nz'')
             initialState360 (exampleVideo 2)) = Resolved
   \<and> length (frameData (out_editor (runAnalysis True (\<lambda>t. True) (\<lambda>t. Inr uniformCanvas)
             (exampleEditor\<lparr> frameData := lowVarianceFrames \<rparr>) (exampleVideo 2)))) = 13
   \<and> map time (frameData (out_editor (runAnalysis True (\<lambda>t. True) (\<lambda>t. Inr uniformCanvas)
             (exampleEditor\<lparr> frameData := lowVarianceFrames \<rparr>) (exampleVideo 2))))
       = map (sampleTime (fl (1 / 6))) [0..<13]
   \<and> sampleTime (fl (1 / 6)) 12 = 2
   \<and> map (\<lambda>v. length (view_frameData v))
         (frameViews (out_editor360 (runMultiViewAnalysis True (exampleDecoder 100 100 ''nz'')
             initialState360 (exampleVideo 2))))
       = [13, 13, 13, 13, 13, 13]"
proof -
  let ?st = "exampleEditor\<lparr> frameData := lowVarianceFrames \<rparr>"
  let ?v = "exampleVideo 2"
  let ?dec = "exampleDecoder 100 100 ''nz''"
  let ?T = "sampleTime (fl (1 / 6))"
  define x0 where "x0 = projr (computeLaplacianVariance uniformCanvas faceSize faceSize)"
  have f6: "fps ?st = 6" "fps360 initialState360 = 6"
    by (simp_all add: exampleEditor_def initialState360_def)
  have d2: "vid_duration ?v = 2"
    by (simp add: exampleVideo_def)
  have vs: "frameViews initialState360 = createSkyboxFrameViews"
    by (simp add: initialState360_def)
  have x: "fl (2 * 6) = 12"
    by (simp add: fl_numeral)
  have t12: "?T 12 = 2"
    unfolding fl_sixth by (rule sampleTime_sixth(4))
  have h1: "True \<and> 1 / 2 ^ 1022 \<le> fps ?st \<and> fps ?st \<le> 2 ^ 1022
      \<and> 0 \<le> vid_duration ?v \<and> fl (vid_duration ?v * fps ?st) < 2 ^ 52
      \<and> (\<forall>i. int i \<le> \<lfloor>fl (vid_duration ?v * fps ?st)\<rfloor>
                \<and> sampleTime (fl (1 / fps ?st)) i \<le> vid_duration ?v \<longrightarrow>
               (\<lambda>t. True) (sampleTime (fl (1 / fps ?st)) i)
               \<and> analyseFrame (\<lambda>t. Inr uniformCanvas) ?v (sampleTime (fl (1 / fps ?st)) i)
                   = Inr \<lparr> time = sampleTime (fl (1 / fps ?st)) i, variance = Num 0 \<rparr>)"
    unfolding f6 d2 x by (simp add: analyseFrame_uniform)
  have l1: "sampleTime (fl (1 / fps ?st)) (nat \<lfloor>fl (vid_duration ?v * fps ?st)\<rfloor>) \<le> vid_duration ?v"
    unfolding f6 d2 x by (simp add: t12)
  have av: "analyseView ?dec t c = Inr x0" if "t < 100" for t c
  proof -
    from computeLaplacianVariance_returns [of faceSize faceSize uniformCanvas]
    have "computeLaplacianVariance uniformCanvas faceSize faceSize = Inr x0"
      unfolding x0_def by (auto simp: faceSize_def)
    then show ?thesis
      using that by (simp add: analyseView_def exampleDecoder_def split: option.splits)
  qed
  have h2: "True \<and> 1 / 2 ^ 1022 \<le> fps360 initialState360 \<and> fps360 initialState360 \<le> 2 ^ 1022
      \<and> 0 \<le> vid_duration ?v
      \<and> fl (vid_duration ?v * fps360 initialState360) < 2 ^ 52
      \<and> distinct (map view_id (frameViews initialState360))
      \<and> (\<forall>i. int i \<le> \<lfloor>fl (vid_duration ?v * fps360 initialState360)\<rfloor>
                \<and> sampleTime (fl (1 / fps360 initialState360)) i \<le> vid_duration ?v \<longrightarrow>
               seekCompletes ?dec (sampleTime (fl (1 / fps360 initialState360)) i)
               \<and> sourceAt ?dec (sampleTime (fl (1 / fps360 initialState360)) i) = Inr (?T i)
               \<and> (\<forall>c \<in> set (frameViews initialState360). analyseView ?dec (?T i) c = Inr x0))"
    unfolding f6 d2 x
  proof (intro conjI allI impI ballI)
    fix i c
    assume "int i \<le> \<lfloor>12 :: real\<rfloor> \<and> ?T i \<le> 2"
    then have le: "?T i \<le> 2" by simp
    show "seekCompletes ?dec (?T i)"
      using le by (simp add: exampleDecoder_def)
    show "sourceAt ?dec (?T i) = Inr (?T i)"
      using le by (simp add: exampleDecoder_def)
    show "analyseView ?dec (?T i) c = Inr x0"
      using le by (intro av) simp
  qed (simp_all add: vs distinct_skybox)
  have l2: "sampleTime (fl (1 / fps360 initialState360))
              (nat \<lfloor>fl (vid_duration ?v * fps360 initialState360)\<rfloor>) \<le> vid_duration ?v"
    unfolding f6 d2 x by (simp add: t12)
  note t = analysis_samples [where refsSet = True and st = ?st and video = ?v
      and seeked = "\<lambda>t. True"
      and frameAt = "\<lambda>t. Inr uniformCanvas" and score = "\<lambda>i. Num 0" and old = "[]"
      and st' = initialState360 and dec = ?dec and src = ?T
      and score' = "\<lambda>i c. x0"]
  note p = t [THEN conjunct1, rule_format, OF h1]
  note q = t [THEN conjunct2, rule_format, OF h2]
  have r1: "out_promise (runAnalysis True (\<lambda>t. True) (\<lambda>t. Inr uniformCanvas) ?st ?v) = Resolved"
    using p by blast
  have r2: "out_promise360 (runMultiViewAnalysis True ?dec initialState360 ?v) = Resolved"
    using q by blast
  have n13: "nat \<lfloor>12 :: real\<rfloor> + 1 = 13"
    by simp
  have "frameData (out_editor (runAnalysis True (\<lambda>t. True) (\<lambda>t. Inr uniformCanvas) ?st ?v))
          = map (\<lambda>i. \<lparr> time = sampleTime (fl (1 / fps ?st)) i, variance = Num 0 \<rparr>)
              [0..<nat \<lfloor>fl (vid_duration ?v * fps ?st)\<rfloor> + 1]"
    using p l1 by blast
  then have fd: "frameData (out_editor (runAnalysis True (\<lambda>t. True) (\<lambda>t. Inr uniformCanvas) ?st ?v))
          = map (\<lambda>i. \<lparr> time = ?T i, variance = Num 0 \<rparr>) [0..<13]"
    unfolding f6 d2 x n13 .
  have "frameViews (out_editor360 (runMultiViewAnalysis True ?dec initialState360 ?v))
          = map (\<lambda>c. c\<lparr> view_frameData :=
                          map (\<lambda>i. \<lparr> time = sampleTime (fl (1 / fps360 initialState360)) i,
                                     variance = x0 \<rparr>)
                            [0..<nat \<lfloor>fl (vid_duration ?v * fps360 initialState360)\<rfloor> + 1] \<rparr>)
              (frameViews initialState360)"
    using q l2 by blast
  then have fv: "frameViews (out_editor360 (runMultiViewAnalysis True ?dec initialState360 ?v))
          = map (\<lambda>c. c\<lparr> view_frameData := map (\<lambda>i. \<lparr> time = ?T i, variance = x0 \<rparr>) [0..<13] \<rparr>)
              createSkyboxFrameViews"
    unfolding f6 d2 x n13 vs .
  have a: "length (frameData (out_editor (runAnalysis True (\<lambda>t. True) (\<lambda>t. Inr uniformCanvas) ?st ?v))) = 13"
    unfolding fd by simp
  have b: "map time (frameData (out_editor (runAnalysis True (\<lambda>t. True) (\<lambda>t. Inr uniformCanvas) ?st ?v)))
             = map ?T [0..<13]"
    unfolding fd by simp
  have c: "map (\<lambda>v. length (view_frameData v))
         (frameViews (out_editor360 (runMultiViewAnalysis True ?dec initialState360 ?v)))
       = [13, 13, 13, 13, 13, 13]"
    unfolding fv by (simp add: createSkyboxFrameViews_def CUBEMAP_FACES_def comp_def)
  show ?thesis
    using r1 r2 a b c t12 by blast
qed


text \<open>
  Claim C3, as stated, fails on two points.  In a run at 2 samples per second over a
  one-second video whose third frame fails to decode (every seek completes), the error is
  caught and written to the console only, so the promise the caller awaits resolves; and
  progress stays at the 100 reported after the second sample.  The two samples taken are
  kept.
\<close>

theorem analysis_error_swallowed:
  "out_promise (runAnalysis True (\<lambda>t. True) (failingFrom 1) (exampleEditor\<lparr> fps := 2 \<rparr>) (exampleVideo 1))
     = Resolved
   \<and> out_console (runAnalysis True (\<lambda>t. True) (failingFrom 1) (exampleEditor\<lparr> fps := 2 \<rparr>) (exampleVideo 1))
       = [DecodeError]
   \<and> progress (out_editor (runAnalysis True (\<lambda>t. True) (failingFrom 1) (exampleEditor\<lparr> fps := 2 \<rparr>) (exampleVideo 1)))
       = Num 100
   \<and> frameData (out_editor (runAnalysis True (\<lambda>t. True) (failingFrom 1) (exampleEditor\<lparr> fps := 2 \<rparr>) (exampleVideo 1)))
       = [\<lparr> time = 0, variance = Num 0 \<rparr>, \<lparr> time = 1 / 2, variance = Num 0 \<rparr>]"
proof -
  let ?st = "exampleEditor\<lparr> fps := 2 \<rparr>"
  let ?T = "sampleTime (fl (1 / fps ?st))"
  let ?s = "\<lambda>j. \<lparr> time = ?T j, variance = Num 0 \<rparr>"
  have f2: "fl (1 / fps ?st) = 1 / 2"
    by (simp add: fl_half)
  have T: "?T 0 = 0" "?T 1 = 1 / 2" "?T 2 = 1"
    unfolding f2 by (rule sampleTime_0 sampleTime_half)+
  have d: "vid_duration (exampleVideo 1) = 1" by (simp add: exampleVideo_def)
  have fpos: "0 < fps ?st" by simp
  have x: "fl (vid_duration (exampleVideo 1) * fps ?st) = 2"
    by (simp add: d fl_numeral)
  have k: "int 2 \<le> \<lfloor>fl (vid_duration (exampleVideo 1) * fps ?st)\<rfloor>"
    unfolding x by simp
  have ok: "\<forall>j < 2. ?T j \<le> vid_duration (exampleVideo 1) \<and> (\<lambda>t. True) (?T j)
                     \<and> analyseFrame (failingFrom 1) (exampleVideo 1) (?T j) = Inr (?s j)"
  proof (intro allI impI)
    fix j :: nat assume "j < 2"
    then have "j = 0 \<or> j = 1" by auto
    then have "?T j < 1" using T by auto
    then show "?T j \<le> vid_duration (exampleVideo 1) \<and> (\<lambda>t. True) (?T j)
                     \<and> analyseFrame (failingFrom 1) (exampleVideo 1) (?T j) = Inr (?s j)"
      by (simp add: d analyseFrame_def failingFrom_def exampleVideo_def analysisSize_def
            computeLaplacianVariance_uniform)
  qed
  have tk: "?T 2 \<le> vid_duration (exampleVideo 1)"
    using T by (simp add: d)
  have fail: "analyseFrame (failingFrom 1) (exampleVideo 1) (?T 2) = Inl DecodeError"
    using T by (simp add: analyseFrame_def failingFrom_def)
  have two: "[0..<2] = [0, 1 :: nat]" by (simp add: upt_rec)
  have pc: "percent 2 2 = Num 100"
    by (simp add: percent_def fl_div_def fl_one fl_numeral js_round_def)
  show ?thesis
    unfolding runAnalysis_failure [where seeked = "\<lambda>t. True", OF TrueI fpos k ok tk TrueI fail] x
    using T by (simp add: two pc)
qed

text \<open>
  Claim C3, amended.  When sample \<open>k\<close> of an analysis run throws (decode or draw, or in the
  360 editor the extraction or scoring of one view), the run stops there and takes no
  later sample; the playback position from before the run is restored and the processing
  flag is cleared; the samples accumulated before the failure are kept as they are (in the
  360 editor, per view: samples \<open>0, \<dots>, k - 1\<close>, and sample \<open>k\<close> for the views scored before
  the failing one).  The error is written to the console and not passed on to the caller.
  Progress is not cleared: it keeps the value reported after the last sample scored, and
  is 0 only when none was.  The sample times are the ones the driver computes in double
  arithmetic, and sample \<open>k\<close> is one the loop reaches: its index is at most \<open>\<lfloor>d * fps\<rfloor>\<close> and
  its time at most \<open>d\<close>.

  A seek that fails raises nothing: the driver waits for the \<open>seeked\<close> event alone, so when
  the seek to sample \<open>k\<close> never completes the run stays suspended there.  The promise stays
  pending, nothing is logged, the processing flag stays set and the playback position stays
  at the sample time; the samples \<open>0, \<dots>, k - 1\<close> are kept and progress keeps its last value.
\<close>

theorem analysis_failure:
  "(refsSet \<and> 0 < fps st \<and> int k \<le> \<lfloor>fl (vid_duration video * fps st)\<rfloor>
      \<and> (\<forall>j < k. sampleTime (fl (1 / fps st)) j \<le> vid_duration video \<and> seeked (sampleTime (fl (1 / fps st)) j)
                   \<and> analyseFrame frameAt video (sampleTime (fl (1 / fps st)) j) = Inr (s j))
      \<and> sampleTime (fl (1 / fps st)) k \<le> vid_duration video
      \<and> seeked (sampleTime (fl (1 / fps st)) k)
      \<and> analyseFrame frameAt video (sampleTime (fl (1 / fps st)) k) = Inl e
    \<longrightarrow> out_promise (runAnalysis refsSet seeked frameAt st video) = Resolved
        \<and> out_console (runAnalysis refsSet seeked frameAt st video) = [e]
        \<and> \<not> isProcessing (out_editor (runAnalysis refsSet seeked frameAt st video))
        \<and> vid_currentTime (out_video (runAnalysis refsSet seeked frameAt st video)) = vid_currentTime video
        \<and> frameData (out_editor (runAnalysis refsSet seeked frameAt st video)) = map s [0..<k]
        \<and> progress (out_editor (runAnalysis refsSet seeked frameAt st video))
            = (if k = 0 then Num 0 else percent k \<lfloor>fl (vid_duration video * fps st)\<rfloor>))
   \<and> (refsSet \<and> 0 < fps360 st' \<and> distinct (map view_id (frameViews st'))
      \<and> int ks \<le> \<lfloor>fl (vid_duration video * fps360 st')\<rfloor>
      \<and> (\<forall>j < ks. sampleTime (fl (1 / fps360 st')) j \<le> vid_duration video
                    \<and> seekCompletes decs (sampleTime (fl (1 / fps360 st')) j)
                    \<and> sourceAt decs (sampleTime (fl (1 / fps360 st')) j) = Inr (srcs j)
                    \<and> (\<forall>c \<in> set (frameViews st'). analyseView decs (srcs j) c = Inr (scs j c)))
      \<and> sampleTime (fl (1 / fps360 st')) ks \<le> vid_duration video
      \<and> seekCompletes decs (sampleTime (fl (1 / fps360 st')) ks)
      \<and> sourceAt decs (sampleTime (fl (1 / fps360 st')) ks) = Inl es
    \<longrightarrow> out_promise360 (runMultiViewAnalysis refsSet decs st' video) = Resolved
        \<and> out_console360 (runMultiViewAnalysis refsSet decs st' video) = [es]
        \<and> \<not> isProcessing360 (out_editor360 (runMultiViewAnalysis refsSet decs st' video))
        \<and> vid_currentTime (out_video360 (runMultiViewAnalysis refsSet decs st' video))
            = vid_currentTime video
        \<and> frameViews (out_editor360 (runMultiViewAnalysis refsSet decs st' video))
            = viewsAfter (\<lambda>j c. \<lparr> time = sampleTime (fl (1 / fps360 st')) j, variance = scs j c \<rparr>) ks (frameViews st')
        \<and> progress360 (out_editor360 (runMultiViewAnalysis refsSet decs st' video))
            = (if ks = 0 \<or> frameViews st' = [] then Num 0
               else percent (ks * length (frameViews st'))
                      (\<lfloor>fl (vid_duration video * fps360 st')\<rfloor> * int (length (frameViews st')))))
   \<and> (refsSet \<and> 0 < fps360 st' \<and> distinct (map view_id (frameViews st'))
      \<and> int kv \<le> \<lfloor>fl (vid_duration video * fps360 st')\<rfloor>
      \<and> (\<forall>j < kv. sampleTime (fl (1 / fps360 st')) j \<le> vid_duration video
                    \<and> seekCompletes decv (sampleTime (fl (1 / fps360 st')) j)
                    \<and> sourceAt decv (sampleTime (fl (1 / fps360 st')) j) = Inr (srcv j)
                    \<and> (\<forall>c \<in> set (frameViews st'). analyseView decv (srcv j) c = Inr (scv j c)))
      \<and> sampleTime (fl (1 / fps360 st')) kv \<le> vid_duration video
      \<and> seekCompletes decv (sampleTime (fl (1 / fps360 st')) kv)
      \<and> sourceAt decv (sampleTime (fl (1 / fps360 st')) kv) = Inr (srcv kv)
      \<and> frameViews st' = pre @ c # post
      \<and> (\<forall>c' \<in> set pre. analyseView decv (srcv kv) c' = Inr (scv kv c'))
      \<and> analyseView decv (srcv kv) c = Inl ev
    \<longrightarrow> out_promise360 (runMultiViewAnalysis refsSet decv st' video) = Resolved
        \<and> out_console360 (runMultiViewAnalysis refsSet decv st' video) = [ev]
        \<and> \<not> isProcessing360 (out_editor360 (runMultiViewAnalysis refsSet decv st' video))
        \<and> vid_currentTime (out_video360 (runMultiViewAnalysis refsSet decv st' video))
            = vid_currentTime video
        \<and> frameViews (out_editor360 (runMultiViewAnalysis refsSet decv st' video))
            = stampViews (sampleTime (fl (1 / fps360 st')) kv) (map_of (map (\<lambda>c. (view_id c, scv kv c)) pre))
                (viewsAfter (\<lambda>j c. \<lparr> time = sampleTime (fl (1 / fps360 st')) j, variance = scv j c \<rparr>) kv
                   (frameViews st'))
        \<and> progress360 (out_editor360 (runMultiViewAnalysis refsSet decv st' video))
            = (if kv = 0 \<and> pre = [] then Num 0
               else percent (kv * length (frameViews st') + length pre)
                      (\<lfloor>fl (vid_duration video * fps360 st')\<rfloor> * int (length (frameViews st')))))
   \<and> (refsSet \<and> 0 < fps st \<and> int kp \<le> \<lfloor>fl (vid_duration video * fps st)\<rfloor>
      \<and> (\<forall>j < kp. sampleTime (fl (1 / fps st)) j \<le> vid_duration video \<and> seekedp (sampleTime (fl (1 / fps st)) j)
                    \<and> analyseFrame frameAtp video (sampleTime (fl (1 / fps st)) j) = Inr (sp j))
      \<and> sampleTime (fl (1 / fps st)) kp \<le> vid_duration video
      \<and> \<not> seekedp (sampleTime (fl (1 / fps st)) kp)
    \<longrightarrow> out_promise (runAnalysis refsSet seekedp frameAtp st video) = Pending
        \<and> out_console (runAnalysis refsSet seekedp frameAtp st video) = []
        \<and> isProcessing (out_editor (runAnalysis refsSet seekedp frameAtp st video))
        \<and> vid_currentTime (out_video (runAnalysis refsSet seekedp frameAtp st video))
            = sampleTime (fl (1 / fps st)) kp
        \<and> frameData (out_editor (runAnalysis refsSet seekedp frameAtp st video)) = map sp [0..<kp]
        \<and> progress (out_editor (runAnalysis refsSet seekedp frameAtp st video))
            = (if kp = 0 then Num 0 else percent kp \<lfloor>fl (vid_duration video * fps st)\<rfloor>))
   \<and> (refsSet \<and> 0 < fps360 st' \<and> distinct (map view_id (frameViews st'))
      \<and> int kq \<le> \<lfloor>fl (vid_duration video * fps360 st')\<rfloor>
      \<and> (\<forall>j < kq. sampleTime (fl (1 / fps360 st')) j \<le> vid_duration video
                    \<and> seekCompletes decq (sampleTime (fl (1 / fps360 st')) j)
                    \<and> sourceAt decq (sampleTime (fl (1 / fps360 st')) j) = Inr (srcq j)
                    \<and> (\<forall>c \<in> set (frameViews st'). analyseView decq (srcq j) c = Inr (scq j c)))
      \<and> sampleTime (fl (1 / fps360 st')) kq \<le> vid_duration video
      \<and> \<not> seekCompletes decq (sampleTime (fl (1 / fps360 st')) kq)
    \<longrightarrow> out_promise360 (runMultiViewAnalysis refsSet decq st' video) = Pending
        \<and> out_console360 (runMultiViewAnalysis refsSet decq st' video) = []
        \<and> isProcessing360 (out_editor360 (runMultiViewAnalysis refsSet decq st' video))
        \<and> vid_currentTime (out_video360 (runMultiViewAnalysis refsSet decq st' video))
            = sampleTime (fl (1 / fps360 st')) kq
        \<and> frameViews (out_editor360 (runMultiViewAnalysis refsSet decq st' video))
            = viewsAfter (\<lambda>j c. \<lparr> time = sampleTime (fl (1 / fps360 st')) j, variance = scq j c \<rparr>) kq (frameViews st')
        \<and> progress360 (out_editor360 (runMultiViewAnalysis refsSet decq st' video))
            = (if kq = 0 \<or> frameViews st' = [] then Num 0
               else percent (kq * length (frameViews st'))
                      (\<lfloor>fl (vid_duration video * fps360 st')\<rfloor> * int (length (frameViews st')))))"
proof (intro conjI impI)
  assume a: "refsSet \<and> 0 < fps st \<and> int k \<le> \<lfloor>fl (vid_duration video * fps st)\<rfloor>
      \<and> (\<forall>j < k. sampleTime (fl (1 / fps st)) j \<le> vid_duration video \<and> seeked (sampleTime (fl (1 / fps st)) j)
                   \<and> analyseFrame frameAt video (sampleTime (fl (1 / fps st)) j) = Inr (s j))
      \<and> sampleTime (fl (1 / fps st)) k \<le> vid_duration video
      \<and> seeked (sampleTime (fl (1 / fps st)) k)
      \<and> analyseFrame frameAt video (sampleTime (fl (1 / fps st)) k) = Inl e"
  then have refs: refsSet and fpos: "0 < fps st"
    and k: "int k \<le> \<lfloor>fl (vid_duration video * fps st)\<rfloor>"
    and ok: "\<forall>j < k. sampleTime (fl (1 / fps st)) j \<le> vid_duration video \<and> seeked (sampleTime (fl (1 / fps st)) j)
                   \<and> analyseFrame frameAt video (sampleTime (fl (1 / fps st)) j) = Inr (s j)"
    and tk: "sampleTime (fl (1 / fps st)) k \<le> vid_duration video"
    and seekk: "seeked (sampleTime (fl (1 / fps st)) k)"
    and fail: "analyseFrame frameAt video (sampleTime (fl (1 / fps st)) k) = Inl e"
    by blast+
  note run = runAnalysis_failure [where seeked = seeked, OF refs fpos k ok tk seekk fail]
  show "out_promise (runAnalysis refsSet seeked frameAt st video) = Resolved"
    by (simp add: run)
  show "out_console (runAnalysis refsSet seeked frameAt st video) = [e]"
    by (simp add: run)
  show "\<not> isProcessing (out_editor (runAnalysis refsSet seeked frameAt st video))"
    by (simp add: run)
  show "vid_currentTime (out_video (runAnalysis refsSet seeked frameAt st video)) = vid_currentTime video"
    by (simp add: run)
  show "frameData (out_editor (runAnalysis refsSet seeked frameAt st video)) = map s [0..<k]"
    by (simp add: run)
  show "progress (out_editor (runAnalysis refsSet seeked frameAt st video))
            = (if k = 0 then Num 0 else percent k \<lfloor>fl (vid_duration video * fps st)\<rfloor>)"
    by (simp add: run)
next
  assume a: "refsSet \<and> 0 < fps360 st' \<and> distinct (map view_id (frameViews st'))
      \<and> int ks \<le> \<lfloor>fl (vid_duration video * fps360 st')\<rfloor>
      \<and> (\<forall>j < ks. sampleTime (fl (1 / fps360 st')) j \<le> vid_duration video
                    \<and> seekCompletes decs (sampleTime (fl (1 / fps360 st')) j)
                    \<and> sourceAt decs (sampleTime (fl (1 / fps360 st')) j) = Inr (srcs j)
                    \<and> (\<forall>c \<in> set (frameViews st'). analyseView decs (srcs j) c = Inr (scs j c)))
      \<and> sampleTime (fl (1 / fps360 st')) ks \<le> vid_duration video
      \<and> seekCompletes decs (sampleTime (fl (1 / fps360 st')) ks)
      \<and> sourceAt decs (sampleTime (fl (1 / fps360 st')) ks) = Inl es"
  then have refs: refsSet and fpos: "0 < fps360 st'"
    and d: "distinct (map view_id (frameViews st'))"
    and k: "int ks \<le> \<lfloor>fl (vid_duration video * fps360 st')\<rfloor>"
    and ok: "\<forall>j < ks. sampleTime (fl (1 / fps360 st')) j \<le> vid_duration video
                    \<and> seekCompletes decs (sampleTime (fl (1 / fps360 st')) j)
                    \<and> sourceAt decs (sampleTime (fl (1 / fps360 st')) j) = Inr (srcs j)
                    \<and> (\<forall>c \<in> set (frameViews st'). analyseView decs (srcs j) c = Inr (scs j c))"
    and tk: "sampleTime (fl (1 / fps360 st')) ks \<le> vid_duration video"
    and seekk: "seekCompletes decs (sampleTime (fl (1 / fps360 st')) ks)"
    and fail: "sourceAt decs (sampleTime (fl (1 / fps360 st')) ks) = Inl es"
    by blast+
  note run = runMultiViewAnalysis_failure_source [OF refs fpos d k ok tk seekk fail]
  show "out_promise360 (runMultiViewAnalysis refsSet decs st' video) = Resolved"
    by (simp add: run)
  show "out_console360 (runMultiViewAnalysis refsSet decs st' video) = [es]"
    by (simp add: run)
  show "\<not> isProcessing360 (out_editor360 (runMultiViewAnalysis refsSet decs st' video))"
    by (simp add: run)
  show "vid_currentTime (out_video360 (runMultiViewAnalysis refsSet decs st' video))
            = vid_currentTime video"
    by (simp add: run)
  show "frameViews (out_editor360 (runMultiViewAnalysis refsSet decs st' video))
            = viewsAfter (\<lambda>j c. \<lparr> time = sampleTime (fl (1 / fps360 st')) j, variance = scs j c \<rparr>) ks (frameViews st')"
    by (simp add: run)
  show "progress360 (out_editor360 (runMultiViewAnalysis refsSet decs st' video))
            = (if ks = 0 \<or> frameViews st' = [] then Num 0
               else percent (ks * length (frameViews st'))
                      (\<lfloor>fl (vid_duration video * fps360 st')\<rfloor> * int (length (frameViews st'))))"
    by (simp add: run)
next
  assume a: "refsSet \<and> 0 < fps360 st' \<and> distinct (map view_id (frameViews st'))
      \<and> int kv \<le> \<lfloor>fl (vid_duration video * fps360 st')\<rfloor>
      \<and> (\<forall>j < kv. sampleTime (fl (1 / fps360 st')) j \<le> vid_duration video
                    \<and> seekCompletes decv (sampleTime (fl (1 / fps360 st')) j)
                    \<and> sourceAt decv (sampleTime (fl (1 / fps360 st')) j) = Inr (srcv j)
                    \<and> (\<forall>c \<in> set (frameViews st'). analyseView decv (srcv j) c = Inr (scv j c)))
      \<and> sampleTime (fl (1 / fps360 st')) kv \<le> vid_duration video
      \<and> seekCompletes decv (sampleTime (fl (1 / fps360 st')) kv)
      \<and> sourceAt decv (sampleTime (fl (1 / fps360 st')) kv) = Inr (srcv kv)
      \<and> frameViews st' = pre @ c # post
      \<and> (\<forall>c' \<in> set pre. analyseView decv (srcv kv) c' = Inr (scv kv c'))
      \<and> analyseView decv (srcv kv) c = Inl ev"
  then have refs: refsSet and fpos: "0 < fps360 st'"
    and d: "distinct (map view_id (frameViews st'))"
    and k: "int kv \<le> \<lfloor>fl (vid_duration video * fps360 st')\<rfloor>"
    and ok: "\<forall>j < kv. sampleTime (fl (1 / fps360 st')) j \<le> vid_duration video
                    \<and> seekCompletes decv (sampleTime (fl (1 / fps360 st')) j)
                    \<and> sourceAt decv (sampleTime (fl (1 / fps360 st')) j) = Inr (srcv j)
                    \<and> (\<forall>c \<in> set (frameViews st'). analyseView decv (srcv j) c = Inr (scv j c))"
    and tk: "sampleTime (fl (1 / fps360 st')) kv \<le> vid_duration video"
    and seekk: "seekCompletes decv (sampleTime (fl (1 / fps360 st')) kv)"
    and srck: "sourceAt decv (sampleTime (fl (1 / fps360 st')) kv) = Inr (srcv kv)"
    and split: "frameViews st' = pre @ c # post"
    and okpre: "\<forall>c' \<in> set pre. analyseView decv (srcv kv) c' = Inr (scv kv c')"
    and fail: "analyseView decv (srcv kv) c = Inl ev"
    by blast+
  note run = runMultiViewAnalysis_failure_view [OF refs fpos d k ok tk seekk srck split okpre fail]
  show "out_promise360 (runMultiViewAnalysis refsSet decv st' video) = Resolved"
    by (simp add: run)
  show "out_console360 (runMultiViewAnalysis refsSet decv st' video) = [ev]"
    by (simp add: run)
  show "\<not> isProcessing360 (out_editor360 (runMultiViewAnalysis refsSet decv st' video))"
    by (simp add: run)
  show "vid_currentTime (out_video360 (runMultiViewAnalysis refsSet decv st' video))
            = vid_currentTime video"
    by (simp add: run)
  show "frameViews (out_editor360 (runMultiViewAnalysis refsSet decv st' video))
            = stampViews (sampleTime (fl (1 / fps360 st')) kv) (map_of (map (\<lambda>c. (view_id c, scv kv c)) pre))
                (viewsAfter (\<lambda>j c. \<lparr> time = sampleTime (fl (1 / fps360 st')) j, variance = scv j c \<rparr>) kv
                   (frameViews st'))"
    by (simp add: run)
  show "progress360 (out_editor360 (runMultiViewAnalysis refsSet decv st' video))
            = (if kv = 0 \<and> pre = [] then Num 0
               else percent (kv * length (frameViews st') + length pre)
                      (\<lfloor>fl (vid_duration video * fps360 st')\<rfloor> * int (length (frameViews st'))))"
    by (simp add: run)
next
  assume a: "refsSet \<and> 0 < fps st \<and> int kp \<le> \<lfloor>fl (vid_duration video * fps st)\<rfloor>
      \<and> (\<forall>j < kp. sampleTime (fl (1 / fps st)) j \<le> vid_duration video \<and> seekedp (sampleTime (fl (1 / fps st)) j)
                    \<and> analyseFrame frameAtp video (sampleTime (fl (1 / fps st)) j) = Inr (sp j))
      \<and> sampleTime (fl (1 / fps st)) kp \<le> vid_duration video
      \<and> \<not> seekedp (sampleTime (fl (1 / fps st)) kp)"
  then have refs: refsSet and fpos: "0 < fps st"
    and k: "int kp \<le> \<lfloor>fl (vid_duration video * fps st)\<rfloor>"
    and ok: "\<forall>j < kp. sampleTime (fl (1 / fps st)) j \<le> vid_duration video \<and> seekedp (sampleTime (fl (1 / fps st)) j)
                    \<and> analyseFrame frameAtp video (sampleTime (fl (1 / fps st)) j) = Inr (sp j)"
    and tk: "sampleTime (fl (1 / fps st)) kp \<le> vid_duration video"
    and stall: "\<not> seekedp (sampleTime (fl (1 / fps st)) kp)"
    by blast+
  note run = runAnalysis_stall [where seeked = seekedp, OF refs fpos k ok tk stall]
  show "out_promise (runAnalysis refsSet seekedp frameAtp st video) = Pending"
    by (simp add: run)
  show "out_console (runAnalysis refsSet seekedp frameAtp st video) = []"
    by (simp add: run)
  show "isProcessing (out_editor (runAnalysis refsSet seekedp frameAtp st video))"
    by (simp add: run)
  show "vid_currentTime (out_video (runAnalysis refsSet seekedp frameAtp st video))
            = sampleTime (fl (1 / fps st)) kp"
    by (simp add: run)
  show "frameData (out_editor (runAnalysis refsSet seekedp frameAtp st video)) = map sp [0..<kp]"
    by (simp add: run)
  show "progress (out_editor (runAnalysis refsSet seekedp frameAtp st video))
            = (if kp = 0 then Num 0 else percent kp \<lfloor>fl (vid_duration video * fps st)\<rfloor>)"
    by (simp add: run)
next
  assume a: "refsSet \<and> 0 < fps360 st' \<and> distinct (map view_id (frameViews st'))
      \<and> int kq \<le> \<lfloor>fl (vid_duration video * fps360 st')\<rfloor>
      \<and> (\<forall>j < kq. sampleTime (fl (1 / fps360 st')) j \<le> vid_duration video
                    \<and> seekCompletes decq (sampleTime (fl (1 / fps360 st')) j)
                    \<and> sourceAt decq (sampleTime (fl (1 / fps360 st')) j) = Inr (srcq j)
                    \<and> (\<forall>c \<in> set (frameViews st'). analyseView decq (srcq j) c = Inr (scq j c)))
      \<and> sampleTime (fl (1 / fps360 st')) kq \<le> vid_duration video
      \<and> \<not> seekCompletes decq (sampleTime (fl (1 / fps360 st')) kq)"
  then have refs: refsSet and fpos: "0 < fps360 st'"
    and d: "distinct (map view_id (frameViews st'))"
    and k: "int kq \<le> \<lfloor>fl (vid_duration video * fps360 st')\<rfloor>"
    and ok: "\<forall>j < kq. sampleTime (fl (1 / fps360 st')) j \<le> vid_duration video
                    \<and> seekCompletes decq (sampleTime (fl (1 / fps360 st')) j)
                    \<and> sourceAt decq (sampleTime (fl (1 / fps360 st')) j) = Inr (srcq j)
                    \<and> (\<forall>c \<in> set (frameViews st'). analyseView decq (srcq j) c = Inr (scq j c))"
    and tk: "sampleTime (fl (1 / fps360 st')) kq \<le> vid_duration video"
    and stall: "\<not> seekCompletes decq (sampleTime (fl (1 / fps360 st')) kq)"
    by blast+
  note run = runMultiViewAnalysis_stall [OF refs fpos d k ok tk stall]
  show "out_promise360 (runMultiViewAnalysis refsSet decq st' video) = Pending"
    by (simp add: run)
  show "out_console360 (runMultiViewAnalysis refsSet decq st' video) = []"
    by (simp add: run)
  show "isProcessing360 (out_editor360 (runMultiViewAnalysis refsSet decq st' video))"
    by (simp add: run)
  show "vid_currentTime (out_video360 (runMultiViewAnalysis refsSet decq st' video))
            = sampleTime (fl (1 / fps360 st')) kq"
    by (simp add: run)
  show "frameViews (out_editor360 (runMultiViewAnalysis refsSet decq st' video))
            = viewsAfter (\<lambda>j c. \<lparr> time = sampleTime (fl (1 / fps360 st')) j, variance = scq j c \<rparr>) kq (frameViews st')"
    by (simp add: run)
  show "progress360 (out_editor360 (runMultiViewAnalysis refsSet decq st' video))
            = (if kq = 0 \<or> frameViews st' = [] then Num 0
               else percent (kq * length (frameViews st'))
                      (\<lfloor>fl (vid_duration video * fps360 st')\<rfloor> * int (length (frameViews st'))))"
    by (simp add: run)
qed



theorem analysis_failure_witness:
  "out_console (runAnalysis True (\<lambda>t. True) (failingFrom 1) (exampleEditor\<lparr> fps := 2 \<rparr>) (exampleVideo 1))
     = [DecodeError]
   \<and> \<not> isProcessing (out_editor (runAnalysis True (\<lambda>t. True) (failingFrom 1) (exampleEditor\<lparr> fps := 2 \<rparr>)
                          (exampleVideo 1)))
   \<and> vid_currentTime (out_video (runAnalysis True (\<lambda>t. True) (failingFrom 1) (exampleEditor\<lparr> fps := 2 \<rparr>)
                          (exampleVideo 1))) = 0.7
   \<and> map time (frameData (out_editor (runAnalysis True (\<lambda>t. True) (failingFrom 1) (exampleEditor\<lparr> fps := 2 \<rparr>)
                          (exampleVideo 1)))) = [0, 1 / 2]
   \<and> out_console360 (runMultiViewAnalysis True (exampleDecoder (1 / 2) 100 ''nz'') initialState360
                          (exampleVideo 1)) = [DecodeError]
   \<and> map (\<lambda>v. length (view_frameData v))
        (frameViews (out_editor360 (runMultiViewAnalysis True (exampleDecoder (1 / 2) 100 ''nz'')
                          initialState360 (exampleVideo 1))))
       = [3, 3, 3, 3, 3, 3]
   \<and> out_console360 (runMultiViewAnalysis True (exampleDecoder 100 (1 / 2) ''nz'') initialState360
                          (exampleVideo 1)) = [DecodeError]
   \<and> out_promise360 (runMultiViewAnalysis True (exampleDecoder 100 (1 / 2) ''nz'') initialState360
                          (exampleVideo 1)) = Resolved
   \<and> map (\<lambda>v. length (view_frameData v))
        (frameViews (out_editor360 (runMultiViewAnalysis True (exampleDecoder 100 (1 / 2) ''nz'')
                          initialState360 (exampleVideo 1))))
       = [4, 4, 3, 3, 3, 3]
   \<and> progress360 (out_editor360 (runMultiViewAnalysis True (exampleDecoder 100 (1 / 2) ''nz'')
                          initialState360 (exampleVideo 1))) = Num 56
   \<and> out_promise (runAnalysis True (\<lambda>t. t < 1 / 2) (\<lambda>t. Inr uniformCanvas)
                          (exampleEditor\<lparr> fps := 2 \<rparr>) (exampleVideo 1)) = Pending
   \<and> isProcessing (out_editor (runAnalysis True (\<lambda>t. t < 1 / 2) (\<lambda>t. Inr uniformCanvas)
                          (exampleEditor\<lparr> fps := 2 \<rparr>) (exampleVideo 1)))
   \<and> vid_currentTime (out_video (runAnalysis True (\<lambda>t. t < 1 / 2) (\<lambda>t. Inr uniformCanvas)
                          (exampleEditor\<lparr> fps := 2 \<rparr>) (exampleVideo 1))) = 1 / 2
   \<and> map time (frameData (out_editor (runAnalysis True (\<lambda>t. t < 1 / 2) (\<lambda>t. Inr uniformCanvas)
                          (exampleEditor\<lparr> fps := 2 \<rparr>) (exampleVideo 1)))) = [0]
   \<and> out_promise360 (runMultiViewAnalysis True
                          ((exampleDecoder 100 100 ''nz'')\<lparr> seekCompletes := (\<lambda>t. t < 0.3) \<rparr>)
                          initialState360 (exampleVideo 1)) = Pending
   \<and> isProcessing360 (out_editor360 (runMultiViewAnalysis True
                          ((exampleDecoder 100 100 ''nz'')\<lparr> seekCompletes := (\<lambda>t. t < 0.3) \<rparr>)
                          initialState360 (exampleVideo 1)))
   \<and> map (\<lambda>v. length (view_frameData v))
        (frameViews (out_editor360 (runMultiViewAnalysis True
                          ((exampleDecoder 100 100 ''nz'')\<lparr> seekCompletes := (\<lambda>t. t < 0.3) \<rparr>)
                          initialState360 (exampleVideo 1))))
       = [2, 2, 2, 2, 2, 2]"
proof -
  let ?st = "exampleEditor\<lparr> fps := 2 \<rparr>"
  let ?v = "exampleVideo 1"
  let ?dec1 = "exampleDecoder (1 / 2) 100 ''nz''"
  let ?dec2 = "exampleDecoder 100 (1 / 2) ''nz''"
  let ?dec3 = "(exampleDecoder 100 100 ''nz'')\<lparr> seekCompletes := (\<lambda>t. t < 0.3) \<rparr>"
  let ?sk = "\<lambda>t :: real. t < 1 / 2"
  let ?ok = "\<lambda>t :: real. Inr uniformCanvas :: js_error + Canvas2D"
  let ?T = "sampleTime (fl (1 / fps ?st))"
  let ?U = "sampleTime (fl (1 / fps360 initialState360))"
  let ?s = "\<lambda>j. \<lparr> time = ?T j, variance = Num 0 \<rparr>"
  let ?pre = "[\<lparr> view_id = ''skybox_pz'', view_name = ''PZ (Front)'', face = Some pz, yaw = 0, pitch = 0,
            fov = 90, view_frameData = [], view_threshold = 300, view_ranges = [] \<rparr>,
          \<lparr> view_id = ''skybox_px'', view_name = ''PX (Right)'', face = Some px, yaw = 90, pitch = 0,
            fov = 90, view_frameData = [], view_threshold = 300, view_ranges = [] \<rparr>]"
  let ?c = "\<lparr> view_id = ''skybox_nz'', view_name = ''NZ (Back)'', face = Some nz, yaw = 180, pitch = 0,
            fov = 90, view_frameData = [], view_threshold = 300, view_ranges = [] \<rparr>"
  let ?post = "[\<lparr> view_id = ''skybox_nx'', view_name = ''NX (Left)'', face = Some nx, yaw = 270, pitch = 0,
            fov = 90, view_frameData = [], view_threshold = 300, view_ranges = [] \<rparr>,
          \<lparr> view_id = ''skybox_py'', view_name = ''PY (Top)'', face = Some py, yaw = 0, pitch = 90,
            fov = 90, view_frameData = [], view_threshold = 300, view_ranges = [] \<rparr>,
          \<lparr> view_id = ''skybox_ny'', view_name = ''NY (Bottom)'', face = Some ny, yaw = 0, pitch = - 90,
            fov = 90, view_frameData = [], view_threshold = 300, view_ranges = [] \<rparr>]"
  define x0 where "x0 = projr (computeLaplacianVariance uniformCanvas faceSize faceSize)"
  have clv: "computeLaplacianVariance uniformCanvas faceSize faceSize = Inr x0"
    using computeLaplacianVariance_returns [of faceSize faceSize uniformCanvas]
    unfolding x0_def by (auto simp: faceSize_def)
  have d: "vid_duration ?v = 1" and ct: "vid_currentTime ?v = 0.7"
    by (simp_all add: exampleVideo_def)
  have f6: "fps360 initialState360 = 6" and vs: "frameViews initialState360 = createSkyboxFrameViews"
    by (simp_all add: initialState360_def)
  have sky: "createSkyboxFrameViews = ?pre @ ?c # ?post"
    by (simp add: createSkyboxFrameViews_def CUBEMAP_FACES_def)
  have f2: "fl (1 / fps ?st) = 1 / 2"
    by (simp add: fl_half)
  have T: "?T 0 = 0" "?T 1 = 1 / 2" "?T 2 = 1"
    unfolding f2 by (rule sampleTime_0 sampleTime_half)+
  have c6: "fl (1 / fps360 initialState360) = 6004799503160661 / 2 ^ 55"
    unfolding f6 by (rule fl_sixth)
  have U: "?U 0 = 0" "?U 1 = 6004799503160661 / 2 ^ 55" "?U 2 = 6004799503160661 / 2 ^ 54"
          "?U 3 = 1 / 2"
    unfolding c6 by (rule sampleTime_0 sampleTime_sixth)+
  have x2: "fl (vid_duration ?v * fps ?st) = 2"
    by (simp add: d fl_numeral)
  have x6: "fl (vid_duration ?v * fps360 initialState360) = 6"
    by (simp add: d f6 fl_numeral)
  have T2: "?T j < 1" if "j < 2" for j
  proof -
    have "j = 0 \<or> j = 1" using that by auto
    then show ?thesis using T by auto
  qed
  have U3: "?U j < 1 / 2" if "j < 3" for j
  proof -
    have "j = 0 \<or> j = 1 \<or> j = 2" using that by auto
    then show ?thesis using U by auto
  qed
  have U2: "?U j < 0.3" if "j < 2" for j
  proof -
    have "j = 0 \<or> j = 1" using that by auto
    then show ?thesis using U by auto
  qed
  have h0: "True \<and> 0 < fps ?st \<and> int 2 \<le> \<lfloor>fl (vid_duration ?v * fps ?st)\<rfloor>
      \<and> (\<forall>j < 2. ?T j \<le> vid_duration ?v \<and> (\<lambda>t. True) (?T j)
                   \<and> analyseFrame (failingFrom 1) ?v (?T j) = Inr (?s j))
      \<and> ?T 2 \<le> vid_duration ?v
      \<and> (\<lambda>t. True) (?T 2)
      \<and> analyseFrame (failingFrom 1) ?v (?T 2) = Inl DecodeError"
  proof (intro conjI allI impI)
    fix j :: nat assume "j < 2"
    from T2 [OF this]
    show "analyseFrame (failingFrom 1) ?v (?T j) = Inr (?s j)"
      by (simp add: analyseFrame_def failingFrom_def exampleVideo_def analysisSize_def
            computeLaplacianVariance_uniform)
    from T2 [OF \<open>j < 2\<close>] show "?T j \<le> vid_duration ?v" by (simp add: d)
  next
    show "int 2 \<le> \<lfloor>fl (vid_duration ?v * fps ?st)\<rfloor>" unfolding x2 by simp
    show "?T 2 \<le> vid_duration ?v" unfolding T d by simp
    show "analyseFrame (failingFrom 1) ?v (?T 2) = Inl DecodeError"
      unfolding T by (simp add: analyseFrame_def failingFrom_def)
  qed simp_all
  have h3: "True \<and> 0 < fps ?st \<and> int 1 \<le> \<lfloor>fl (vid_duration ?v * fps ?st)\<rfloor>
      \<and> (\<forall>j < 1. ?T j \<le> vid_duration ?v \<and> ?sk (?T j)
                   \<and> analyseFrame ?ok ?v (?T j) = Inr (?s j))
      \<and> ?T 1 \<le> vid_duration ?v
      \<and> \<not> ?sk (?T 1)"
  proof (intro conjI allI impI)
    fix j :: nat assume "j < 1"
    then have j0: "j = 0" by simp
    show "?T j \<le> vid_duration ?v" unfolding j0 T d by simp
    show "?sk (?T j)" unfolding j0 T by simp
    show "analyseFrame ?ok ?v (?T j) = Inr (?s j)" by (rule analyseFrame_uniform)
  next
    show "int 1 \<le> \<lfloor>fl (vid_duration ?v * fps ?st)\<rfloor>" unfolding x2 by simp
    show "?T 1 \<le> vid_duration ?v" unfolding T d by simp
    show "\<not> ?sk (?T 1)" unfolding T by simp
  qed simp_all
  have av1: "analyseView ?dec1 t c = Inr x0" if "t < 100" for t c
    using that by (simp add: analyseView_def exampleDecoder_def clv split: option.splits)
  have h1: "True \<and> 0 < fps360 initialState360 \<and> distinct (map view_id (frameViews initialState360))
      \<and> int 3 \<le> \<lfloor>fl (vid_duration ?v * fps360 initialState360)\<rfloor>
      \<and> (\<forall>j < 3. ?U j \<le> vid_duration ?v
                    \<and> seekCompletes ?dec1 (?U j)
                    \<and> sourceAt ?dec1 (?U j) = Inr (?U j)
                    \<and> (\<forall>c \<in> set (frameViews initialState360).
                          analyseView ?dec1 (?U j) c = Inr x0))
      \<and> ?U 3 \<le> vid_duration ?v
      \<and> seekCompletes ?dec1 (?U 3)
      \<and> sourceAt ?dec1 (?U 3) = Inl DecodeError"
  proof (intro conjI allI impI ballI)
    fix j :: nat and c assume "j < 3"
    note lt = U3 [OF this]
    show "?U j \<le> vid_duration ?v" using lt by (simp add: d)
    show "seekCompletes ?dec1 (?U j)" using lt by (simp add: exampleDecoder_def)
    show "sourceAt ?dec1 (?U j) = Inr (?U j)" using lt by (simp add: exampleDecoder_def)
    show "analyseView ?dec1 (?U j) c = Inr x0"
      using lt by (intro av1) simp
  next
    show "int 3 \<le> \<lfloor>fl (vid_duration ?v * fps360 initialState360)\<rfloor>" unfolding x6 by simp
    show "?U 3 \<le> vid_duration ?v" unfolding U d by simp
    show "seekCompletes ?dec1 (?U 3)" unfolding U by (simp add: exampleDecoder_def)
    show "sourceAt ?dec1 (?U 3) = Inl DecodeError" unfolding U by (simp add: exampleDecoder_def)
  qed (simp_all add: f6 vs distinct_skybox)
  have av2: "analyseView ?dec2 t c = Inr x0" if "t < 1 / 2 \<or> face c \<noteq> Some nz" for t c
  proof (cases "face c")
    case None
    then show ?thesis by (simp add: analyseView_def exampleDecoder_def clv)
  next
    case (Some f)
    then have "t < 1 / 2 \<or> face_tag f \<noteq> ''nz''"
      using that by (cases f) auto
    then show ?thesis
      using Some by (auto simp: analyseView_def exampleDecoder_def clv)
  qed
  have h2: "True \<and> 0 < fps360 initialState360 \<and> distinct (map view_id (frameViews initialState360))
      \<and> int 3 \<le> \<lfloor>fl (vid_duration ?v * fps360 initialState360)\<rfloor>
      \<and> (\<forall>j < 3. ?U j \<le> vid_duration ?v
                    \<and> seekCompletes ?dec2 (?U j)
                    \<and> sourceAt ?dec2 (?U j) = Inr (?U j)
                    \<and> (\<forall>c \<in> set (frameViews initialState360).
                          analyseView ?dec2 (?U j) c = Inr x0))
      \<and> ?U 3 \<le> vid_duration ?v
      \<and> seekCompletes ?dec2 (?U 3)
      \<and> sourceAt ?dec2 (?U 3) = Inr (?U 3)
      \<and> frameViews initialState360 = ?pre @ ?c # ?post
      \<and> (\<forall>c' \<in> set ?pre. analyseView ?dec2 (?U 3) c' = Inr x0)
      \<and> analyseView ?dec2 (?U 3) ?c = Inl DecodeError"
  proof (intro conjI allI impI ballI)
    fix j :: nat and c assume j: "j < 3"
    note lt = U3 [OF this]
    show "?U j \<le> vid_duration ?v" using lt by (simp add: d)
    show "seekCompletes ?dec2 (?U j)" using lt by (simp add: exampleDecoder_def)
    show "sourceAt ?dec2 (?U j) = Inr (?U j)" using lt by (simp add: exampleDecoder_def)
    show "analyseView ?dec2 (?U j) c = Inr x0"
      using lt by (intro av2) simp
  next
    fix c' assume "c' \<in> set ?pre"
    then have "face c' \<noteq> Some nz" by auto
    then show "analyseView ?dec2 (?U 3) c' = Inr x0"
      by (intro av2) simp
  next
    show "frameViews initialState360 = ?pre @ ?c # ?post"
      unfolding vs by (rule sky)
    show "int 3 \<le> \<lfloor>fl (vid_duration ?v * fps360 initialState360)\<rfloor>" unfolding x6 by simp
    show "?U 3 \<le> vid_duration ?v" unfolding U d by simp
    show "seekCompletes ?dec2 (?U 3)" unfolding U by (simp add: exampleDecoder_def)
    show "sourceAt ?dec2 (?U 3) = Inr (?U 3)" unfolding U by (simp add: exampleDecoder_def)
    show "analyseView ?dec2 (?U 3) ?c = Inl DecodeError"
      unfolding U by (simp add: exampleDecoder_def analyseView_def)
  qed (simp_all add: f6 vs distinct_skybox)
  have av3: "analyseView ?dec3 t c = Inr x0" if "t < 100" for t c
    using that by (simp add: analyseView_def exampleDecoder_def clv split: option.splits)
  have h4: "True \<and> 0 < fps360 initialState360 \<and> distinct (map view_id (frameViews initialState360))
      \<and> int 2 \<le> \<lfloor>fl (vid_duration ?v * fps360 initialState360)\<rfloor>
      \<and> (\<forall>j < 2. ?U j \<le> vid_duration ?v
                    \<and> seekCompletes ?dec3 (?U j)
                    \<and> sourceAt ?dec3 (?U j) = Inr (?U j)
                    \<and> (\<forall>c \<in> set (frameViews initialState360).
                          analyseView ?dec3 (?U j) c = Inr x0))
      \<and> ?U 2 \<le> vid_duration ?v
      \<and> \<not> seekCompletes ?dec3 (?U 2)"
  proof (intro conjI allI impI ballI)
    fix j :: nat and c assume "j < 2"
    note lt = U2 [OF this]
    show "?U j \<le> vid_duration ?v" using lt by (simp add: d)
    show "seekCompletes ?dec3 (?U j)" using lt by simp
    show "sourceAt ?dec3 (?U j) = Inr (?U j)" using lt by (simp add: exampleDecoder_def)
    show "analyseView ?dec3 (?U j) c = Inr x0"
      using lt by (intro av3) simp
  next
    show "int 2 \<le> \<lfloor>fl (vid_duration ?v * fps360 initialState360)\<rfloor>" unfolding x6 by simp
    show "?U 2 \<le> vid_duration ?v" unfolding U d by simp
    show "\<not> seekCompletes ?dec3 (?U 2)" unfolding U by simp
  qed (simp_all add: f6 vs distinct_skybox)
  note t = analysis_failure [where refsSet = True and st = ?st and video = ?v
      and seeked = "\<lambda>t. True" and seekedp = ?sk and frameAtp = ?ok and kp = 1 and sp = ?s
      and decq = ?dec3 and kq = 2 and srcq = ?U and scq = "\<lambda>j c. x0"
      and frameAt = "failingFrom 1" and k = 2 and s = ?s and e = DecodeError
      and st' = initialState360
      and decs = ?dec1 and ks = 3 and srcs = ?U and scs = "\<lambda>j c. x0" and es = DecodeError
      and decv = ?dec2 and kv = 3 and srcv = ?U and scv = "\<lambda>j c. x0" and ev = DecodeError
      and pre = ?pre and c = ?c and post = ?post]
  note p0 = t [THEN conjunct1, rule_format, OF h0]
  note p1 = t [THEN conjunct2, THEN conjunct1, rule_format, OF h1]
  note p2 = t [THEN conjunct2, THEN conjunct2, THEN conjunct1, rule_format, OF h2]
  note p3 = t [THEN conjunct2, THEN conjunct2, THEN conjunct2, THEN conjunct1, rule_format, OF h3]
  note p4 = t [THEN conjunct2, THEN conjunct2, THEN conjunct2, THEN conjunct2, rule_format, OF h4]
  have one: "[0..<1] = [0 :: nat]"
    by simp
  have two: "[0..<2] = [0, 1 :: nat]" and three: "[0..<3] = [0, 1, 2 :: nat]"
    by (simp_all add: upt_rec)
  have q: "fl (5 / 9) = 5003999585967218 / 2 ^ 53"
    by (subst fl_eval [where e = "- 1"]) (simp_all add: round_even_def)
  have q100: "fl (62549994824590225 / 1125899906842624) = 7818749353073778 / 2 ^ 47"
    by (subst fl_eval [where e = 5]) (simp_all add: round_even_def)
  have pc: "percent 20 36 = Num 56"
    by (simp add: percent_def fl_div_def q q100 js_round_def)
  have a0: "out_console (runAnalysis True (\<lambda>t. True) (failingFrom 1) ?st ?v) = [DecodeError]"
       "\<not> isProcessing (out_editor (runAnalysis True (\<lambda>t. True) (failingFrom 1) ?st ?v))"
       "vid_currentTime (out_video (runAnalysis True (\<lambda>t. True) (failingFrom 1) ?st ?v)) = 0.7"
       "map time (frameData (out_editor (runAnalysis True (\<lambda>t. True) (failingFrom 1) ?st ?v))) = [0, 1 / 2]"
    using p0 T by (simp_all add: ct two)
  have a1: "out_console360 (runMultiViewAnalysis True ?dec1 initialState360 ?v) = [DecodeError]"
       "map (\<lambda>v. length (view_frameData v))
          (frameViews (out_editor360 (runMultiViewAnalysis True ?dec1 initialState360 ?v)))
         = [3, 3, 3, 3, 3, 3]"
    using p1 by (simp_all add: viewsAfter_def vs sky comp_def)
  have a2: "out_console360 (runMultiViewAnalysis True ?dec2 initialState360 ?v) = [DecodeError]"
       "out_promise360 (runMultiViewAnalysis True ?dec2 initialState360 ?v) = Resolved"
       "map (\<lambda>v. length (view_frameData v))
          (frameViews (out_editor360 (runMultiViewAnalysis True ?dec2 initialState360 ?v)))
         = [4, 4, 3, 3, 3, 3]"
       "progress360 (out_editor360 (runMultiViewAnalysis True ?dec2 initialState360 ?v)) = Num 56"
    using p2 by (simp_all add: viewsAfter_def stampViews_def vs sky comp_def x6 pc)
  have a3: "out_promise (runAnalysis True ?sk ?ok ?st ?v) = Pending"
       "isProcessing (out_editor (runAnalysis True ?sk ?ok ?st ?v))"
       "vid_currentTime (out_video (runAnalysis True ?sk ?ok ?st ?v)) = 1 / 2"
       "map time (frameData (out_editor (runAnalysis True ?sk ?ok ?st ?v))) = [0]"
    using p3 T by (simp_all add: one)
  have a4: "out_promise360 (runMultiViewAnalysis True ?dec3 initialState360 ?v) = Pending"
       "isProcessing360 (out_editor360 (runMultiViewAnalysis True ?dec3 initialState360 ?v))"
       "map (\<lambda>v. length (view_frameData v))
          (frameViews (out_editor360 (runMultiViewAnalysis True ?dec3 initialState360 ?v)))
         = [2, 2, 2, 2, 2, 2]"
    using p4 by (simp_all add: viewsAfter_def vs sky comp_def)
  show ?thesis
    using a0 a1 a2 a3 a4 by simp
qed

end
